(* ===== verification/Prelude.thy ===== *)
theory Prelude
  imports Main "HOL-Library.Word"
begin

text \<open>
  Shared vocabulary of the development: the fixed-width integer types of the source, Rust's
  three ways a call can end (a value, an error, a panic), the standard library's
  \<^verbatim>\<open>io::Error\<close> kinds the source distinguishes, \<^verbatim>\<open>debug_assert!\<close> and \<^verbatim>\<open>unwrap\<close>, and the generic
  lemmas and rule collections every component uses.
\<close>

section \<open>Integer types\<close>

type_synonym byte = "8 word"
type_synonym u16 = "16 word"
type_synonym u32 = "32 word"

text \<open>
  Rust's \<^verbatim>\<open>i64\<close>, \<^verbatim>\<open>u64\<close> and \<^verbatim>\<open>i128\<close> appear in time arithmetic, where every operation of the source is
  either checked, saturating or provably in range. They are integers, with the ranges below
  written out where the source converts or checks.
\<close>

definition in_i64 :: "int \<Rightarrow> bool" where
  "in_i64 x \<longleftrightarrow> - (2 ^ 63) \<le> x \<and> x < 2 ^ 63"

definition in_u64 :: "int \<Rightarrow> bool" where
  "in_u64 x \<longleftrightarrow> 0 \<le> x \<and> x < 2 ^ 64"

definition in_i128 :: "int \<Rightarrow> bool" where
  "in_i128 x \<longleftrightarrow> - (2 ^ 127) \<le> x \<and> x < 2 ^ 127"

definition sat_i128 :: "int \<Rightarrow> int" where
  "sat_i128 x = max (- (2 ^ 127)) (min x (2 ^ 127 - 1))"

lemma sat_i128_id: "in_i128 x \<Longrightarrow> sat_i128 x = x"
  by (simp add: sat_i128_def in_i128_def)

section \<open>Outcomes\<close>

text \<open>
  The outcome of a fallible call: a value, an error value, or a panic (a failed assertion, an
  \<^verbatim>\<open>unwrap\<close> of an error, \<^verbatim>\<open>todo!()\<close>, an arithmetic overflow in a build with overflow checks).
\<close>

datatype ('e, 'a) res = Ok 'a | Err 'e | Panic

primrec rbind :: "('e, 'a) res \<Rightarrow> ('a \<Rightarrow> ('e, 'b) res) \<Rightarrow> ('e, 'b) res" where
  "rbind (Ok x) k = k x"
| "rbind (Err e) k = Err e"
| "rbind Panic k = Panic"

primrec map_err :: "('e \<Rightarrow> 'f) \<Rightarrow> ('e, 'a) res \<Rightarrow> ('f, 'a) res" where
  "map_err f (Ok x) = Ok x"
| "map_err f (Err e) = Err (f e)"
| "map_err f Panic = Panic"

text \<open>\<^verbatim>\<open>unwrap\<close> and \<^verbatim>\<open>expect\<close>: an error becomes a panic.\<close>

primrec unwrap :: "('e, 'a) res \<Rightarrow> ('f, 'a) res" where
  "unwrap (Ok x) = Ok x"
| "unwrap (Err e) = Panic"
| "unwrap Panic = Panic"

primrec ok_or :: "'e \<Rightarrow> 'a option \<Rightarrow> ('e, 'a) res" where
  "ok_or e (Some x) = Ok x"
| "ok_or e None = Err e"

primrec expect :: "'a option \<Rightarrow> ('e, 'a) res" where
  "expect (Some x) = Ok x"
| "expect None = Panic"

definition ensure :: "bool \<Rightarrow> 'e \<Rightarrow> ('e, unit) res" where
  "ensure p e = (if p then Ok () else Err e)"

text \<open>
  \<^verbatim>\<open>debug_assert!\<close> and the overflow checks of \<open>+\<close> and \<open>*\<close> are active in a debug build only:
  the flag \<open>dbg\<close> says which build is modelled.
\<close>

definition debug_assert :: "bool \<Rightarrow> bool \<Rightarrow> ('e, unit) res" where
  "debug_assert dbg p = (if dbg \<and> \<not> p then Panic else Ok ())"

definition mul_u32 :: "bool \<Rightarrow> u32 \<Rightarrow> u32 \<Rightarrow> ('e, u32) res" where
  "mul_u32 dbg a b = (if dbg \<and> 2 ^ 32 \<le> unat a * unat b then Panic else Ok (a * b))"

definition mul_u16 :: "bool \<Rightarrow> u16 \<Rightarrow> u16 \<Rightarrow> ('e, u16) res" where
  "mul_u16 dbg a b = (if dbg \<and> 2 ^ 16 \<le> unat a * unat b then Panic else Ok (a * b))"

lemma rbind_eq_Ok [simp]: "rbind m k = Ok y \<longleftrightarrow> (\<exists>x. m = Ok x \<and> k x = Ok y)"
  by (cases m) auto

lemma rbind_eq_Panic: "rbind m k = Panic \<longleftrightarrow> m = Panic \<or> (\<exists>x. m = Ok x \<and> k x = Panic)"
  by (cases m) auto

lemma rbind_eq_Err: "rbind m k = Err e \<longleftrightarrow> m = Err e \<or> (\<exists>x. m = Ok x \<and> k x = Err e)"
  by (cases m) auto

lemma rbind_cong [fundef_cong]:
  "m = m' \<Longrightarrow> (\<And>x. m' = Ok x \<Longrightarrow> k x = k' x) \<Longrightarrow> rbind m k = rbind m' k'"
  by (cases m') auto

lemma rbind_assoc: "rbind (rbind m f) g = rbind m (\<lambda>x. rbind (f x) g)"
  by (cases m) auto

lemma map_err_eq_Ok [simp]: "map_err f m = Ok x \<longleftrightarrow> m = Ok x"
  by (cases m) auto

lemma map_err_eq_Panic [simp]: "map_err f m = Panic \<longleftrightarrow> m = Panic"
  by (cases m) auto

lemma map_err_eq_Err: "map_err f m = Err e' \<longleftrightarrow> (\<exists>e. m = Err e \<and> f e = e')"
  by (cases m) auto

lemma unwrap_eq_Ok [simp]: "unwrap m = Ok x \<longleftrightarrow> m = Ok x"
  by (cases m) auto

lemma unwrap_not_Err [simp]: "unwrap m \<noteq> Err e"
  by (cases m) auto

lemma unwrap_eq_Panic: "unwrap m = Panic \<longleftrightarrow> (\<forall>x. m \<noteq> Ok x)"
  by (cases m) auto

lemma ok_or_eq_Ok [simp]: "ok_or e x = Ok y \<longleftrightarrow> x = Some y"
  by (cases x) auto

lemma ok_or_eq_Err: "ok_or e x = Err e' \<longleftrightarrow> x = None \<and> e' = e"
  by (cases x) auto

lemma ok_or_not_Panic [simp]: "ok_or e x \<noteq> Panic"
  by (cases x) auto

lemma expect_eq_Ok [simp]: "expect x = Ok y \<longleftrightarrow> x = Some y"
  by (cases x) auto

lemma expect_eq_Panic [simp]: "expect x = Panic \<longleftrightarrow> x = None"
  by (cases x) auto

lemma ensure_eq_Ok [simp]: "ensure p e = Ok u \<longleftrightarrow> p"
  by (simp add: ensure_def)

lemma ensure_eq_Err [simp]: "ensure p e = Err e' \<longleftrightarrow> \<not> p \<and> e' = e"
  by (auto simp: ensure_def)

lemma ensure_not_Panic [simp]: "ensure p e \<noteq> Panic"
  by (simp add: ensure_def)

lemma ensure_True [simp]: "ensure True e = Ok ()"
  by (simp add: ensure_def)

lemma debug_assert_holds [simp]: "p \<Longrightarrow> debug_assert dbg p = Ok ()"
  by (simp add: debug_assert_def)

lemma debug_assert_release [simp]: "debug_assert False p = Ok ()"
  by (simp add: debug_assert_def)

lemma debug_assert_eq_Ok [simp]: "debug_assert dbg p = Ok u \<longleftrightarrow> (dbg \<longrightarrow> p)"
  by (simp add: debug_assert_def)

lemma debug_assert_not_Err [simp]: "debug_assert dbg p \<noteq> Err e"
  by (simp add: debug_assert_def)

text \<open>Reading off the steps of a computation that returned.\<close>

lemmas run_simps = rbind_eq_Ok map_err_eq_Ok unwrap_eq_Ok ok_or_eq_Ok expect_eq_Ok ensure_eq_Ok
  debug_assert_eq_Ok split_paired_Ex prod.case res.inject prod.inject ex_simps

section \<open>I/O errors\<close>

text \<open>
  \<^verbatim>\<open>std::io::Error\<close>, by the kinds the source tests for or builds, and any other failure of the
  operating system by its message.
\<close>

datatype io_error = UnexpectedEof | WriteZero | InvalidInput | NotFound | IoOther string

section \<open>Lists\<close>

lemma find_Some_sat: "find P xs = Some x \<Longrightarrow> P x"
  by (induction xs) (auto split: if_splits)

lemma find_None_all: "find P xs = None \<longleftrightarrow> (\<forall>x\<in>set xs. \<not> P x)"
  by (induction xs) auto

section \<open>Durations and decimal text\<close>

text \<open>
  \<^verbatim>\<open>std::time::Duration\<close> and the distance between two \<^verbatim>\<open>Instant\<close>s, as their number of nanoseconds.
  A \<^verbatim>\<open>Duration\<close> holds \<^verbatim>\<open>u64\<close> seconds and the nanoseconds within the second, so not every number is one.
\<close>

type_synonym duration = nat

abbreviation nsec_per_sec :: nat where "nsec_per_sec \<equiv> 1000000000"

definition duration_max :: duration where
  "duration_max = (2 ^ 64 - 1) * nsec_per_sec + 999999999"

definition dur_as_secs :: "duration \<Rightarrow> nat" where
  "dur_as_secs d = d div nsec_per_sec"

definition dur_subsec_nanos :: "duration \<Rightarrow> nat" where
  "dur_subsec_nanos d = d mod nsec_per_sec"

definition dur_checked_add :: "duration \<Rightarrow> duration \<Rightarrow> duration option" where
  "dur_checked_add a b = (if a + b \<le> duration_max then Some (a + b) else None)"

fun show_nat :: "nat \<Rightarrow> string" where
  "show_nat n = (if n < 10 then [char_of (48 + n)] else show_nat (n div 10) @ [char_of (48 + n mod 10)])"

declare show_nat.simps [simp del]

definition show_int :: "int \<Rightarrow> string" where
  "show_int i = (if i < 0 then CHR ''-'' # show_nat (nat (- i)) else show_nat (nat i))"

definition pad_left :: "nat \<Rightarrow> char \<Rightarrow> string \<Rightarrow> string" where
  "pad_left n c s = replicate (n - length s) c @ s"

section \<open>Word lemmas\<close>

lemma unat_of_nat_small [simp]:
  "n < 2 ^ LENGTH('a) \<Longrightarrow> unat (of_nat n :: 'a::len word) = n"
  by (simp add: unat_of_nat take_bit_nat_eq_self)

lemma unat_lt_exp [simp]: "unat (x :: 'a::len word) < 2 ^ LENGTH('a)"
  by (rule unsigned_less)

lemma unat_byte_lt: "unat (x :: byte) < 256"
  using unat_lt_exp [of x] by simp

lemma unat_u16_lt: "unat (x :: u16) < 65536"
  using unat_lt_exp [of x] by simp

lemma unat_u16_le: "unat (x :: u16) \<le> 65535"
  using unat_u16_lt [of x] by simp

lemma uint_u32_lt: "uint (x :: u32) < 4294967296"
  using uint_lt2p [of x] by simp

lemma unat_u32_lt: "unat (x :: u32) < 4294967296"
  using unat_lt_exp [of x] by simp

end
