(* ===== verification/BitIO.thy ===== *)
theory BitIO
  imports Prelude
begin

text \<open>
  The bit-level I/O the codecs rest on: the helper types of \<^verbatim>\<open>src/io/enc_dec.rs\<close> and
  \<^verbatim>\<open>src/io/utils.rs\<close>, and the interface of the crate \<^verbatim>\<open>bitstream_io\<close> (\<^verbatim>\<open>BitReader\<close>, \<^verbatim>\<open>BitWriter\<close> in
  big-endian mode), which is not part of the repository. The crate is a parameter: a record of
  operations that every codec takes as an argument, with its documented behaviour as the
  assumptions of the locales \<open>bit_reader_laws\<close> and \<open>bit_writer_laws\<close>. The last section gives the
  in-memory stream as a concrete instance of both.
\<close>

section \<open>Big-endian bit strings\<close>

fun nat_bits :: "nat \<Rightarrow> nat \<Rightarrow> bool list" where
  "nat_bits 0 v = []"
| "nat_bits (Suc n) v = nat_bits n (v div 2) @ [odd v]"

definition bits_nat :: "bool list \<Rightarrow> nat" where
  "bits_nat bs = foldl (\<lambda>a b. 2 * a + of_bool b) 0 bs"

definition word_bits :: "'a::len word \<Rightarrow> bool list" where
  "word_bits x = nat_bits LENGTH('a) (unat x)"

definition bytes_bits :: "byte list \<Rightarrow> bool list" where
  "bytes_bits bs = concat (map word_bits bs)"

fun bits_bytes :: "bool list \<Rightarrow> byte list" where
  "bits_bytes (b7 # b6 # b5 # b4 # b3 # b2 # b1 # b0 # bs) =
     of_nat (bits_nat [b7, b6, b5, b4, b3, b2, b1, b0]) # bits_bytes bs"
| "bits_bytes _ = []"

lemma length_nat_bits [simp]: "length (nat_bits n v) = n"
  by (induction n arbitrary: v) auto

lemma bits_nat_Nil [simp]: "bits_nat [] = 0"
  by (simp add: bits_nat_def)

lemma bits_nat_snoc [simp]: "bits_nat (bs @ [b]) = 2 * bits_nat bs + of_bool b"
  by (simp add: bits_nat_def)

lemma bits_nat_bound: "bits_nat bs < 2 ^ length bs"
proof (induction bs rule: rev_induct)
  case Nil
  show ?case by simp
next
  case (snoc b bs)
  then show ?case by (cases b) auto
qed

lemma bits_nat_nat_bits [simp]: "v < 2 ^ n \<Longrightarrow> bits_nat (nat_bits n v) = v"
proof (induction n arbitrary: v)
  case 0
  then show ?case by simp
next
  case (Suc n)
  then have "v div 2 < 2 ^ n" by (simp add: less_mult_imp_div_less mult.commute)
  with Suc.IH have "bits_nat (nat_bits n (v div 2)) = v div 2" by blast
  then show ?case by (simp add: odd_iff_mod_2_eq_one) presburger
qed

lemma nat_bits_bits_nat [simp]: "nat_bits (length bs) (bits_nat bs) = bs"
  by (induction bs rule: rev_induct) auto

lemma nat_bits_inj: "v < 2 ^ n \<Longrightarrow> v' < 2 ^ n \<Longrightarrow> nat_bits n v = nat_bits n v' \<longleftrightarrow> v = v'"
  by (metis bits_nat_nat_bits)

lemma nat_bits_of_bits_nat: "length bs = n \<Longrightarrow> nat_bits n (bits_nat bs) = bs"
  by auto

lemma nat_bits_numeral: "nat_bits (numeral k) v = nat_bits (pred_numeral k) (v div 2) @ [odd v]"
  by (simp add: numeral_eq_Suc)

lemma nat_bits_one [simp]: "nat_bits (Suc 0) v = [odd v]"
  by simp

lemma nat_bits_mod: "nat_bits n (v mod 2 ^ n) = nat_bits n v"
proof (induction n arbitrary: v)
  case (Suc n)
  have "v mod 2 ^ Suc n div 2 = v div 2 mod 2 ^ n" by (simp add: mod_mult2_eq)
  moreover have "odd (v mod 2 ^ Suc n) = odd v" by (simp add: dvd_mod_iff)
  ultimately show ?case using Suc.IH [of "v div 2"] by simp
qed simp

lemma nat_bits_add: "nat_bits (m + n) v = nat_bits m (v div 2 ^ n) @ nat_bits n v"
  by (induction n arbitrary: v) (simp_all add: div_mult2_eq)

lemma nat_bits_append: "v < 2 ^ n \<Longrightarrow> nat_bits m u @ nat_bits n v = nat_bits (m + n) (u * 2 ^ n + v)"
  by (simp add: nat_bits_add) (metis nat_bits_mod mod_mult_self3 mod_less)

lemma length_word_bits [simp]: "length (word_bits (x :: 'a::len word)) = LENGTH('a)"
  by (simp add: word_bits_def)

lemma bits_nat_word_bits [simp]: "bits_nat (word_bits x) = unat x"
  by (simp add: word_bits_def)

lemma word_bits_inj [simp]: "word_bits x = word_bits y \<longleftrightarrow> x = y"
  by (metis bits_nat_word_bits word_unat_eq_iff)

lemma word_bits_of_nat:
  "v < 2 ^ LENGTH('a) \<Longrightarrow> word_bits (of_nat v :: 'a::len word) = nat_bits LENGTH('a) v"
  by (simp add: word_bits_def)

lemma bytes_bits_simps [simp]:
  "bytes_bits [] = []"
  "bytes_bits (b # bs) = word_bits b @ bytes_bits bs"
  "bytes_bits (xs @ ys) = bytes_bits xs @ bytes_bits ys"
  by (simp_all add: bytes_bits_def)

lemma length_bytes_bits [simp]: "length (bytes_bits bs) = 8 * length bs"
  by (induction bs) auto

lemma bytes_bits_eq_Nil [simp]: "bytes_bits bs = [] \<longleftrightarrow> bs = []"
  by (simp flip: length_0_conv)

lemma bits_bytes_Cons:
  assumes "length p = 8"
  shows "bits_bytes (p @ s) = of_nat (bits_nat p) # bits_bytes s"
proof -
  from assms obtain b7 b6 b5 b4 b3 b2 b1 b0 where "p = [b7, b6, b5, b4, b3, b2, b1, b0]"
    by (auto simp: numeral_eq_Suc length_Suc_conv)
  then show ?thesis by simp
qed

lemma bits_bytes_word [simp]: "bits_bytes (word_bits (b :: byte) @ s) = b # bits_bytes s"
  by (subst bits_bytes_Cons) simp_all

lemma bits_bytes_word1 [simp]: "bits_bytes (word_bits (b :: byte)) = [b]"
  using bits_bytes_word [of b "[]"] by (simp del: bits_bytes_word)

lemma bits_bytes_bytes_bits [simp]: "bits_bytes (bytes_bits bs) = bs"
  by (induction bs) auto

lemma bytes_bits_bits_bytes:
  "length s = 8 * n \<Longrightarrow> bytes_bits (bits_bytes s) = s \<and> length (bits_bytes s) = n"
proof (induction n arbitrary: s)
  case 0
  then show ?case by simp
next
  case (Suc n)
  define p where "p = take 8 s"
  define q where "q = drop 8 s"
  have s: "s = p @ q" and p: "length p = 8" and q: "length q = 8 * n"
    using Suc.prems by (auto simp: p_def q_def)
  have "bits_nat p < 2 ^ LENGTH(8)" using bits_nat_bound [of p] p by simp
  then have "word_bits (of_nat (bits_nat p) :: byte) = p"
    using p by (simp add: word_bits_of_nat nat_bits_of_bits_nat)
  with Suc.IH [OF q] show ?case by (simp add: s bits_bytes_Cons [OF p])
qed

lemma bytes_bits_inj: "bytes_bits xs = bytes_bits ys \<longleftrightarrow> xs = ys"
  by (metis bits_bytes_bytes_bits)

section \<open>Errors of the codecs\<close>

text \<open>\<^verbatim>\<open>IOWrapError<E>\<close>: an I/O error or an error of the decoded type.\<close>

datatype 'e io_wrap = Io io_error | Specific 'e

primrec map_specific :: "('e \<Rightarrow> 'f) \<Rightarrow> 'e io_wrap \<Rightarrow> 'f io_wrap" where
  "map_specific f (Io e) = Io e"
| "map_specific f (Specific e) = Specific (f e)"

section \<open>The interface of bitstream\_io\<close>

record 'r bit_read_ops =
  rd_slice :: "byte list \<Rightarrow> 'r"
  rd_bits :: "nat \<Rightarrow> 'r \<Rightarrow> (io_error, nat \<times> 'r) res"
  rd_bytes :: "nat \<Rightarrow> 'r \<Rightarrow> (io_error, byte list \<times> 'r) res"
  rd_aligned :: "'r \<Rightarrow> bool"

record 'w bit_write_ops =
  wr_slice :: "nat \<Rightarrow> 'w"
  wr_vec :: "byte list \<Rightarrow> 'w"
  wr_buffer :: "'w \<Rightarrow> byte list"
  wr_bits :: "nat \<Rightarrow> nat \<Rightarrow> 'w \<Rightarrow> (io_error, 'w) res"
  wr_bytes :: "byte list \<Rightarrow> 'w \<Rightarrow> (io_error, 'w) res"
  wr_align :: "'w \<Rightarrow> (io_error, 'w) res"
  wr_aligned :: "'w \<Rightarrow> bool"

text \<open>
  \<^verbatim>\<open>uN::new\<close> of the crate \<^verbatim>\<open>arbitrary_int\<close> panics on a value out of range; the source applies it to
  the result of an \<open>N\<close>-bit read. \<open>uint_new_unchecked\<close> is the \<^verbatim>\<open>unsafe\<close> constructor.
\<close>

definition uint_new :: "nat \<Rightarrow> ('e, 'a::len word) res" where
  "uint_new v = (if v < 2 ^ LENGTH('a) then Ok (of_nat v) else Panic)"

definition uint_new_unchecked :: "nat \<Rightarrow> 'a::len word" where
  "uint_new_unchecked v = of_nat v"

definition rd_bit :: "'r bit_read_ops \<Rightarrow> 'r \<Rightarrow> (io_error, bool \<times> 'r) res" where
  "rd_bit R r = rbind (rd_bits R 1 r) (\<lambda>(v, r). Ok (v = 1, r))"

definition rd_uint :: "'r bit_read_ops \<Rightarrow> nat \<Rightarrow> 'r \<Rightarrow> (io_error, 'a::len word \<times> 'r) res" where
  "rd_uint R n r = rbind (rd_bits R n r) (\<lambda>(v, r). rbind (uint_new v) (\<lambda>x. Ok (x, r)))"

definition wr_bit :: "'w bit_write_ops \<Rightarrow> bool \<Rightarrow> 'w \<Rightarrow> (io_error, 'w) res" where
  "wr_bit W b w = wr_bits W 1 (of_bool b) w"

definition wr_uint :: "'w bit_write_ops \<Rightarrow> nat \<Rightarrow> 'a::len word \<Rightarrow> 'w \<Rightarrow> (io_error, 'w) res" where
  "wr_uint W n x w = wr_bits W n (unat x) w"

text \<open>
  The fixed-size byte arrays of the source are tuples; \<^verbatim>\<open>read_to::<[u8; N]>()\<close> reads \<open>N\<close> bytes.
\<close>

type_synonym arr2 = "byte \<times> byte"
type_synonym arr3 = "byte \<times> byte \<times> byte"
type_synonym arr4 = "byte \<times> byte \<times> byte \<times> byte"

fun arr2_list :: "arr2 \<Rightarrow> byte list" where
  "arr2_list (a, b) = [a, b]"

fun arr3_list :: "arr3 \<Rightarrow> byte list" where
  "arr3_list (a, b, c) = [a, b, c]"

fun arr4_list :: "arr4 \<Rightarrow> byte list" where
  "arr4_list (a, b, c, d) = [a, b, c, d]"

fun arr2_of :: "byte list \<Rightarrow> ('e, arr2) res" where
  "arr2_of [a, b] = Ok (a, b)"
| "arr2_of _ = Panic"

fun arr3_of :: "byte list \<Rightarrow> ('e, arr3) res" where
  "arr3_of [a, b, c] = Ok (a, b, c)"
| "arr3_of _ = Panic"

fun arr4_of :: "byte list \<Rightarrow> ('e, arr4) res" where
  "arr4_of [a, b, c, d] = Ok (a, b, c, d)"
| "arr4_of _ = Panic"

definition rd_arr2 :: "'r bit_read_ops \<Rightarrow> 'r \<Rightarrow> (io_error, arr2 \<times> 'r) res" where
  "rd_arr2 R r = rbind (rd_bytes R 2 r) (\<lambda>(bs, r). rbind (arr2_of bs) (\<lambda>a. Ok (a, r)))"

definition rd_arr4 :: "'r bit_read_ops \<Rightarrow> 'r \<Rightarrow> (io_error, arr4 \<times> 'r) res" where
  "rd_arr4 R r = rbind (rd_bytes R 4 r) (\<lambda>(bs, r). rbind (arr4_of bs) (\<lambda>a. Ok (a, r)))"

lemma arr2_of_eq_Ok [simp]: "arr2_of bs = Ok x \<longleftrightarrow> bs = arr2_list x"
  by (cases x; cases bs rule: arr2_of.cases) auto

lemma arr3_of_eq_Ok [simp]: "arr3_of bs = Ok x \<longleftrightarrow> bs = arr3_list x"
  by (cases x rule: prod_cases3; cases bs rule: arr3_of.cases) auto

lemma length_arr3_list [simp]: "length (arr3_list x) = 3"
  by (cases x rule: prod_cases3) auto

lemma arr3_of_Ok: "length bs = 3 \<Longrightarrow> \<exists>x. (arr3_of bs :: ('e, arr3) res) = Ok x"
  by (cases bs rule: arr3_of.cases) auto

lemma arr4_of_eq_Ok [simp]: "arr4_of bs = Ok x \<longleftrightarrow> bs = arr4_list x"
  by (cases x rule: prod_cases4; cases bs rule: arr4_of.cases) auto

lemma length_arr2_list [simp]: "length (arr2_list x) = 2"
  by (cases x) auto

lemma length_arr4_list [simp]: "length (arr4_list x) = 4"
  by (cases x rule: prod_cases4) auto

lemma arr2_of_Ok: "length bs = 2 \<Longrightarrow> \<exists>x. (arr2_of bs :: ('e, arr2) res) = Ok x"
  by (cases bs rule: arr2_of.cases) auto

lemma arr4_of_Ok: "length bs = 4 \<Longrightarrow> \<exists>x. (arr4_of bs :: ('e, arr4) res) = Ok x"
  by (cases bs rule: arr4_of.cases) auto

text \<open>\<^verbatim>\<open>read_arc\<close> of \<^verbatim>\<open>src/io/utils.rs\<close>: exactly \<open>n\<close> bytes into a new buffer.\<close>

definition read_arc :: "'r bit_read_ops \<Rightarrow> 'r \<Rightarrow> nat \<Rightarrow> (io_error, byte list \<times> 'r) res" where
  "read_arc R r n = rbind (rd_bytes R n r) (\<lambda>(data, r). Ok (data, r))"

section \<open>What the crate documents\<close>

text \<open>
  \<open>rest r\<close> is the bit string a reader has not consumed yet. A read of \<open>n\<close> bits takes the first
  \<open>n\<close>, most significant first, or fails with \<^verbatim>\<open>UnexpectedEof\<close>. \<open>yields\<close> says that a read returns
  the value \<open>v\<close> and leaves \<open>t\<close>.
\<close>

definition yields :: "('r \<Rightarrow> bool list) \<Rightarrow> 'v \<Rightarrow> bool list \<Rightarrow> ('e, 'v \<times> 'r) res \<Rightarrow> bool" where
  "yields rest v t m \<longleftrightarrow> (\<exists>r. m = Ok (v, r) \<and> rest r = t)"

lemma yieldsI: "rest r = t \<Longrightarrow> yields rest v t (Ok (v, r))"
  by (simp add: yields_def)

lemma yields_eqI: "v' = v \<Longrightarrow> rest r = t \<Longrightarrow> yields rest v t (Ok (v', r))"
  by (simp add: yields_def)

lemma yields_bind:
  "yields rest v t m \<Longrightarrow> (\<And>r. rest r = t \<Longrightarrow> yields rest v' t' (k (v, r))) \<Longrightarrow>
   yields rest v' t' (rbind m k)"
  by (auto simp: yields_def)

lemma yields_bind_split:
  "yields rest v t m \<Longrightarrow> (\<And>r. rest r = t \<Longrightarrow> yields rest v' t' (k v r)) \<Longrightarrow>
   yields rest v' t' (rbind m (\<lambda>(v, r). k v r))"
  by (auto simp: yields_def)

lemma yields_bind_map:
  "yields rest v t m \<Longrightarrow> (\<And>r. rest r = t \<Longrightarrow> yields rest v' t' (k v r)) \<Longrightarrow>
   yields rest v' t' (rbind (map_err f m) (\<lambda>(v, r). k v r))"
  by (auto simp: yields_def)

lemma yields_assert:
  "(dbg \<Longrightarrow> p) \<Longrightarrow> yields rest v t (f ()) \<Longrightarrow> yields rest v t (rbind (debug_assert dbg p) f)"
  by (auto simp: debug_assert_def)

lemma yields_map_err [simp]: "yields rest v t (map_err f m) = yields rest v t m"
  by (simp add: yields_def)

text \<open>\<open>eof_only\<close>: a read that either succeeds or reports the end of the input.\<close>

definition eof_only :: "(io_error, 'a) res \<Rightarrow> bool" where
  "eof_only m \<longleftrightarrow> (\<exists>x. m = Ok x) \<or> m = Err UnexpectedEof"

lemma eof_only_Ok [simp]: "eof_only (Ok x)"
  by (simp add: eof_only_def)

lemma eof_only_bind:
  "eof_only m \<Longrightarrow> (\<And>x. m = Ok x \<Longrightarrow> eof_only (k x)) \<Longrightarrow> eof_only (rbind m k)"
  by (auto simp: eof_only_def)

lemma eof_only_bind_split:
  "eof_only m \<Longrightarrow> (\<And>v r. m = Ok (v, r) \<Longrightarrow> eof_only (k v r)) \<Longrightarrow>
   eof_only (rbind m (\<lambda>(v, r). k v r))"
  by (auto simp: eof_only_def)

lemma eof_only_assert:
  "(dbg \<Longrightarrow> p) \<Longrightarrow> eof_only (f ()) \<Longrightarrow> eof_only (rbind (debug_assert dbg p) f)"
  by (auto simp: debug_assert_def)

lemma eof_only_bind_pair:
  "eof_only m \<Longrightarrow> (\<And>v r. m = Ok (v, r) \<Longrightarrow> eof_only (k (v, r))) \<Longrightarrow> eof_only (rbind m k)"
  by (auto simp: eof_only_def)

text \<open>
  \<open>snk w\<close> is what has been written through a writer: the bits so far, and the capacity in bits
  when the sink is a slice (\<open>None\<close> for a growing buffer). \<open>emits\<close> says that a write succeeds and
  leaves the bits \<open>t\<close>.
\<close>

definition fits :: "nat option \<Rightarrow> nat \<Rightarrow> bool" where
  "fits k n \<longleftrightarrow> (case k of None \<Rightarrow> True | Some c \<Rightarrow> n \<le> c)"

definition emits ::
    "('w \<Rightarrow> bool list \<times> nat option) \<Rightarrow> nat option \<Rightarrow> bool list \<Rightarrow> ('e, 'w) res \<Rightarrow> bool" where
  "emits snk k t m \<longleftrightarrow> (\<exists>w. m = Ok w \<and> snk w = (t, k))"

lemma fits_simps [simp]: "fits None n" "fits (Some c) n \<longleftrightarrow> n \<le> c"
  by (simp_all add: fits_def)

lemma fits_mono: "fits k n \<Longrightarrow> m \<le> n \<Longrightarrow> fits k m"
  by (cases k) auto

lemma emitsI: "snk w = (t, k) \<Longrightarrow> emits snk k t (Ok w)"
  by (simp add: emits_def)

lemma emits_bind:
  "emits snk k t m \<Longrightarrow> (\<And>w. snk w = (t, k) \<Longrightarrow> emits snk k t' (f w)) \<Longrightarrow>
   emits snk k t' (rbind m f)"
  by (auto simp: emits_def)

lemma emits_bind_map:
  "emits snk k t m \<Longrightarrow> (\<And>w. snk w = (t, k) \<Longrightarrow> emits snk k t' (f w)) \<Longrightarrow>
   emits snk k t' (rbind (map_err g m) f)"
  by (auto simp: emits_def)

lemma emits_bind_unwrap:
  "emits snk k t m \<Longrightarrow> (\<And>w. snk w = (t, k) \<Longrightarrow> emits snk k t' (f w)) \<Longrightarrow>
   emits snk k t' (rbind (unwrap m) f)"
  by (auto simp: emits_def)

lemma emits_eq: "emits snk k t m \<Longrightarrow> t = t' \<Longrightarrow> emits snk k t' m"
  by simp

lemma emits_assert:
  "(dbg \<Longrightarrow> p) \<Longrightarrow> emits snk k t (f ()) \<Longrightarrow> emits snk k t (rbind (debug_assert dbg p) f)"
  by (auto simp: debug_assert_def)

lemma emits_ensure: "p \<Longrightarrow> emits snk k t (f ()) \<Longrightarrow> emits snk k t (rbind (ensure p e) f)"
  by simp

lemma emits_map_err [simp]: "emits snk k t (map_err f m) = emits snk k t m"
  by (simp add: emits_def)

locale bit_reader_laws =
  fixes R :: "'r bit_read_ops" and rest :: "'r \<Rightarrow> bool list"
  assumes rest_slice: "rest (rd_slice R bs) = bytes_bits bs"
    and rd_bits_some: "n \<le> length (rest r) \<Longrightarrow>
          yields rest (bits_nat (take n (rest r))) (drop n (rest r)) (rd_bits R n r)"
    and rd_bits_eof: "length (rest r) < n \<Longrightarrow> rd_bits R n r = Err UnexpectedEof"
    and rd_bytes_some: "8 * n \<le> length (rest r) \<Longrightarrow>
          yields rest (bits_bytes (take (8 * n) (rest r))) (drop (8 * n) (rest r)) (rd_bytes R n r)"
    and rd_bytes_eof: "length (rest r) < 8 * n \<Longrightarrow> rd_bytes R n r = Err UnexpectedEof"
    and aligned_iff: "rd_aligned R r \<longleftrightarrow> 8 dvd length (rest r)"
begin

text \<open>Forward: reading back a field that was laid out at the front.\<close>

lemma rd_bits_yields:
  "rest r = nat_bits n v @ t \<Longrightarrow> v < 2 ^ n \<Longrightarrow> yields rest v t (rd_bits R n r)"
  using rd_bits_some [of n r] by simp

lemma rd_bit_yields: "rest r = b # t \<Longrightarrow> yields rest b t (rd_bit R r)"
  using rd_bits_some [of 1 r] by (cases b) (auto simp: rd_bit_def yields_def bits_nat_def)

lemma rd_uint_yields:
  assumes "rest r = word_bits (x :: 'a::len word) @ t" "n = LENGTH('a)"
  shows "yields rest x t (rd_uint R n r)"
proof -
  have lt: "unat x < 2 ^ LENGTH('a)" by simp
  then have "yields rest (unat x) t (rd_bits R n r)"
    using rd_bits_yields [of r n "unat x" t] assms by (simp add: word_bits_def)
  then obtain r' where "rd_bits R n r = Ok (unat x, r')" "rest r' = t"
    by (auto simp: yields_def)
  with lt show ?thesis by (simp add: rd_uint_def uint_new_def yields_def)
qed

lemma rd_bytes_yields:
  "rest r = bytes_bits bs @ t \<Longrightarrow> n = length bs \<Longrightarrow> yields rest bs t (rd_bytes R n r)"
  using rd_bytes_some [of n r] by simp

lemma read_arc_yields:
  "rest r = bytes_bits bs @ t \<Longrightarrow> n = length bs \<Longrightarrow> yields rest bs t (read_arc R r n)"
  using rd_bytes_yields [of r bs t n] by (auto simp: read_arc_def yields_def)

text \<open>Backward: what a successful read says of the input.\<close>

lemma rd_bits_OkD:
  assumes "rd_bits R n r = Ok (v, r')"
  shows "rest r = nat_bits n v @ rest r' \<and> v < 2 ^ n"
proof (cases "n \<le> length (rest r)")
  case True
  have len: "length (take n (rest r)) = n" using True by simp
  from rd_bits_some [OF True] assms
  have v: "v = bits_nat (take n (rest r))" and r': "rest r' = drop n (rest r)"
    by (auto simp: yields_def)
  then show ?thesis using bits_nat_bound [of "take n (rest r)"] len
    by (simp add: nat_bits_of_bits_nat)
next
  case False
  with assms rd_bits_eof [of r n] show ?thesis by simp
qed

lemma rd_bit_OkD: "rd_bit R r = Ok (b, r') \<Longrightarrow> rest r = b # rest r'"
  by (auto simp: rd_bit_def less_2_cases_iff dest!: rd_bits_OkD)

lemma rd_uint_OkD:
  "rd_uint R n r = Ok (x :: 'a::len word, r') \<Longrightarrow> n = LENGTH('a) \<Longrightarrow>
   rest r = word_bits x @ rest r'"
  by (auto simp: rd_uint_def uint_new_def word_bits_def split: if_splits dest!: rd_bits_OkD)

lemma rd_bytes_OkD:
  assumes "rd_bytes R n r = Ok (bs, r')"
  shows "rest r = bytes_bits bs @ rest r' \<and> length bs = n"
proof (cases "8 * n \<le> length (rest r)")
  case True
  from rd_bytes_some [OF True] assms
  have "bs = bits_bytes (take (8 * n) (rest r))" "rest r' = drop (8 * n) (rest r)"
    by (auto simp: yields_def)
  with bytes_bits_bits_bytes [of "take (8 * n) (rest r)" n] True show ?thesis by simp
next
  case False
  with assms rd_bytes_eof [of r n] show ?thesis by simp
qed

lemma read_arc_OkD:
  "read_arc R r n = Ok (bs, r') \<Longrightarrow> rest r = bytes_bits bs @ rest r' \<and> length bs = n"
  by (auto simp: read_arc_def dest!: rd_bytes_OkD)

lemma rd_arr2_yields:
  "rest r = bytes_bits (arr2_list x) @ t \<Longrightarrow> yields rest x t (rd_arr2 R r)"
  using rd_bytes_yields [of r "arr2_list x" t 2] by (cases x) (auto simp: rd_arr2_def yields_def)

lemma rd_arr4_yields:
  "rest r = bytes_bits (arr4_list x) @ t \<Longrightarrow> yields rest x t (rd_arr4 R r)"
  using rd_bytes_yields [of r "arr4_list x" t 4]
  by (cases x rule: prod_cases4) (auto simp: rd_arr4_def yields_def)

lemma rd_arr2_OkD: "rd_arr2 R r = Ok (x, r') \<Longrightarrow> rest r = bytes_bits (arr2_list x) @ rest r'"
  by (auto simp: rd_arr2_def dest!: rd_bytes_OkD)

lemma rd_arr4_OkD: "rd_arr4 R r = Ok (x, r') \<Longrightarrow> rest r = bytes_bits (arr4_list x) @ rest r'"
  by (auto simp: rd_arr4_def dest!: rd_bytes_OkD)

text \<open>Steps through a decoder, by the number of their side conditions.\<close>

lemmas rd_yields1 = rd_bit_yields rd_arr2_yields rd_arr4_yields
lemmas rd_yields2 = rd_uint_yields rd_bytes_yields read_arc_yields
lemmas rd_then1 = rd_yields1 [THEN yields_bind_split] rd_yields1 [THEN yields_bind_map]
lemmas rd_then2 = rd_yields2 [THEN yields_bind_split] rd_yields2 [THEN yields_bind_map]
lemmas rd_OkDs = rd_bit_OkD rd_arr2_OkD rd_arr4_OkD rd_bytes_OkD read_arc_OkD

text \<open>Failures: the only error of a read is the end of the input, and it never panics.\<close>

lemma rd_bits_cases:
  obtains v r' where "rd_bits R n r = Ok (v, r')" "n \<le> length (rest r)"
    | "rd_bits R n r = Err UnexpectedEof" "length (rest r) < n"
  using rd_bits_some [of n r] rd_bits_eof [of r n] by (cases "n \<le> length (rest r)")
    (auto simp: yields_def)

lemma rd_bit_cases:
  obtains b r' where "rd_bit R r = Ok (b, r')" "rest r \<noteq> []"
    | "rd_bit R r = Err UnexpectedEof" "rest r = []"
proof (cases rule: rd_bits_cases [of 1 r])
  case (1 v r')
  then show ?thesis by (intro that(1) [of "v = 1" r']) (auto simp: rd_bit_def)
next
  case 2
  then show ?thesis by (intro that(2)) (auto simp: rd_bit_def)
qed

lemma rd_uint_cases:
  assumes "n = LENGTH('a)"
  obtains x :: "'a::len word" and r' where "rd_uint R n r = Ok (x, r')" "n \<le> length (rest r)"
    | "(rd_uint R n r :: (io_error, 'a word \<times> 'r) res) = Err UnexpectedEof" "length (rest r) < n"
proof (cases rule: rd_bits_cases [of n r])
  case (1 v r')
  with rd_bits_OkD [OF 1(1)] assms have "rd_uint R n r = Ok (of_nat v :: 'a word, r')"
    by (simp add: rd_uint_def uint_new_def)
  with 1(2) that(1) show ?thesis by blast
next
  case 2
  with that(2) show ?thesis by (simp add: rd_uint_def)
qed

lemma read_arc_cases:
  obtains bs r' where "read_arc R r n = Ok (bs, r')" "8 * n \<le> length (rest r)"
    | "read_arc R r n = Err UnexpectedEof" "length (rest r) < 8 * n"
  using rd_bytes_some [of n r] rd_bytes_eof [of r n] by (cases "8 * n \<le> length (rest r)")
    (auto simp: yields_def read_arc_def)

lemma rd_bits_eof_only [simp]: "eof_only (rd_bits R n r)"
  by (cases rule: rd_bits_cases [of n r]) (auto simp: eof_only_def)

lemma rd_bit_eof_only [simp]: "eof_only (rd_bit R r)"
  by (cases rule: rd_bit_cases [of r]) (auto simp: eof_only_def)

lemma rd_uint_eof_only [simp]:
  "n = LENGTH('a) \<Longrightarrow> eof_only (rd_uint R n r :: (io_error, 'a::len word \<times> 'r) res)"
  by (cases rule: rd_uint_cases [of n r, where 'a = 'a]) (auto simp: eof_only_def)

lemma rd_bytes_eof_only [simp]: "eof_only (rd_bytes R n r)"
  using rd_bytes_some [of n r] rd_bytes_eof [of r n]
  by (cases "8 * n \<le> length (rest r)") (auto simp: yields_def eof_only_def)

lemma read_arc_eof_only [simp]: "eof_only (read_arc R r n)"
  by (auto simp: read_arc_def intro!: eof_only_bind_pair)

lemma rd_arr2_eof_only [simp]: "eof_only (rd_arr2 R r)"
  unfolding rd_arr2_def
  by (rule eof_only_bind_pair) (auto dest!: rd_bytes_OkD arr2_of_Ok [where 'e = io_error])

lemma rd_arr4_eof_only [simp]: "eof_only (rd_arr4 R r)"
  unfolding rd_arr4_def
  by (rule eof_only_bind_pair) (auto dest!: rd_bytes_OkD arr4_of_Ok [where 'e = io_error])

end

locale bit_writer_laws =
  fixes W :: "'w bit_write_ops" and snk :: "'w \<Rightarrow> bool list \<times> nat option"
  assumes snk_slice: "snk (wr_slice W n) = ([], Some (8 * n))"
    and snk_vec: "snk (wr_vec W bs) = (bytes_bits bs, None)"
    and wr_bits_emits: "snk w = (s, k) \<Longrightarrow> v < 2 ^ n \<Longrightarrow> fits k (length s + n) \<Longrightarrow>
          emits snk k (s @ nat_bits n v) (wr_bits W n v w)"
    and wr_bits_excess: "2 ^ n \<le> v \<Longrightarrow> wr_bits W n v w = Err InvalidInput"
    and wr_bytes_emits: "snk w = (s, k) \<Longrightarrow> fits k (length s + 8 * length bs) \<Longrightarrow>
          emits snk k (s @ bytes_bits bs) (wr_bytes W bs w)"
    and wr_align_emits: "snk w = (s, k) \<Longrightarrow> fits k (length s + (8 - length s mod 8) mod 8) \<Longrightarrow>
          emits snk k (s @ replicate ((8 - length s mod 8) mod 8) False) (wr_align W w)"
    and wr_aligned_iff: "snk w = (s, k) \<Longrightarrow> wr_aligned W w \<longleftrightarrow> 8 dvd length s"
    and wr_buffer_full: "snk w = (s, k) \<Longrightarrow> 8 dvd length s \<Longrightarrow>
          k = None \<or> k = Some (length s) \<Longrightarrow> wr_buffer W w = bits_bytes s"
begin

lemma wr_bit_emits:
  "snk w = (s, k) \<Longrightarrow> fits k (length s + 1) \<Longrightarrow> emits snk k (s @ [b]) (wr_bit W b w)"
  using wr_bits_emits [of w s k "of_bool b" 1] by (cases b) (simp_all add: wr_bit_def)

lemma wr_uint_emits:
  "snk w = (s, k) \<Longrightarrow> n = LENGTH('a) \<Longrightarrow> fits k (length s + n) \<Longrightarrow>
   emits snk k (s @ word_bits (x :: 'a::len word)) (wr_uint W n x w)"
  using wr_bits_emits [of w s k "unat x" n] by (simp add: wr_uint_def word_bits_def)

text \<open>
  Steps through an encoder: each write in a sequence that fits in \<open>N\<close> bits emits its field and goes
  on, whether its error is passed on, converted or unwrapped.
\<close>

lemma wr_bits_within:
  "snk w = (s, k) \<Longrightarrow> fits k N \<Longrightarrow> v < 2 ^ n \<and> length s + n \<le> N \<Longrightarrow>
   emits snk k (s @ nat_bits n v) (wr_bits W n v w)"
  using wr_bits_emits fits_mono by blast

lemma wr_bit_within:
  "snk w = (s, k) \<Longrightarrow> fits k N \<Longrightarrow> length s + 1 \<le> N \<Longrightarrow> emits snk k (s @ [b]) (wr_bit W b w)"
  using wr_bit_emits fits_mono by blast

lemma wr_uint_within:
  "snk w = (s, k) \<Longrightarrow> fits k N \<Longrightarrow> n = LENGTH('a) \<and> length s + n \<le> N \<Longrightarrow>
   emits snk k (s @ word_bits (x :: 'a::len word)) (wr_uint W n x w)"
  using wr_uint_emits fits_mono by blast

lemma wr_bytes_within:
  "snk w = (s, k) \<Longrightarrow> fits k N \<Longrightarrow> length s + 8 * length bs \<le> N \<Longrightarrow>
   emits snk k (s @ bytes_bits bs) (wr_bytes W bs w)"
  using wr_bytes_emits fits_mono by blast

lemmas wr_within = wr_bits_within wr_bit_within wr_uint_within wr_bytes_within
lemmas wr_then = wr_within [THEN emits_bind] wr_within [THEN emits_bind_map]
  wr_within [THEN emits_bind_unwrap]

end

section \<open>The in-memory stream\<close>

text \<open>
  A reader over a byte buffer and a writer into a buffer, kept as bit strings: the instance at
  which the codecs are evaluated.
\<close>

definition mem_reader :: "bool list bit_read_ops" where
  "mem_reader =
     \<lparr>rd_slice = bytes_bits,
      rd_bits = (\<lambda>n s. if n \<le> length s then Ok (bits_nat (take n s), drop n s)
                       else Err UnexpectedEof),
      rd_bytes = (\<lambda>n s. if 8 * n \<le> length s then Ok (bits_bytes (take (8 * n) s), drop (8 * n) s)
                        else Err UnexpectedEof),
      rd_aligned = (\<lambda>s. length s mod 8 = 0)\<rparr>"

definition mem_push ::
    "bool list \<Rightarrow> bool list \<times> nat option \<Rightarrow> (io_error, bool list \<times> nat option) res" where
  "mem_push bs w = (if fits (snd w) (length (fst w) + length bs) then Ok (fst w @ bs, snd w)
                    else Err WriteZero)"

definition mem_buffer :: "bool list \<times> nat option \<Rightarrow> byte list" where
  "mem_buffer w =
     bits_bytes (fst w @ (case snd w of None \<Rightarrow> [] | Some c \<Rightarrow> replicate (c - length (fst w)) False))"

definition mem_writer :: "(bool list \<times> nat option) bit_write_ops" where
  "mem_writer =
     \<lparr>wr_slice = (\<lambda>n. ([], Some (8 * n))),
      wr_vec = (\<lambda>bs. (bytes_bits bs, None)),
      wr_buffer = mem_buffer,
      wr_bits = (\<lambda>n v w. if v < 2 ^ n then mem_push (nat_bits n v) w else Err InvalidInput),
      wr_bytes = (\<lambda>bs w. mem_push (bytes_bits bs) w),
      wr_align = (\<lambda>w. mem_push (replicate ((8 - length (fst w) mod 8) mod 8) False) w),
      wr_aligned = (\<lambda>w. length (fst w) mod 8 = 0)\<rparr>"

interpretation mem_rd: bit_reader_laws mem_reader "\<lambda>s. s"
  by unfold_locales (auto simp: mem_reader_def yields_def)

lemma mem_push_emits:
  "fits k (length s + length bs) \<Longrightarrow> emits (\<lambda>w. w) k (s @ bs) (mem_push bs (s, k))"
  by (simp add: mem_push_def emits_def)

interpretation mem_wr: bit_writer_laws mem_writer "\<lambda>w. w"
  by unfold_locales (auto simp: mem_writer_def mem_push_emits mem_buffer_def)

end
