(* ===== verification/Subtype.thy ===== *)
theory Subtype
  imports BitIO
begin

text \<open>
  \<^verbatim>\<open>src/avtp/subtype.rs\<close> (and \<^verbatim>\<open>HeaderType\<close> of \<^verbatim>\<open>src/avtp/headers/mod.rs\<close>): the AVTP subtype
  byte, its classification into header layouts and encapsulation styles, and its codec.
\<close>

datatype header_type = HControl | HStream | HAlternative

datatype encapsulation_style = Continuous | Discrete

datatype subtype =
    IEC_61883_IIDC | MMA_STREAM | AAF | CVF | CRF | TSCF | SVF | RVF | AEF_CONTINUOUS
  | VSF_STREAM | EF_STREAM | NTSCF | ESCF | EECF | AEF_DISCRETE | ADP | AECP | ACMP | MAAP
  | EF_CONTROL

datatype unknown_subtype = UnknownSubtype byte

text \<open>The discriminants of \<^verbatim>\<open>#[repr(u8)] enum Subtype\<close>, and the derived \<^verbatim>\<open>TryFrom<u8>\<close>.\<close>

primrec subtype_u8 :: "subtype \<Rightarrow> byte" where
  "subtype_u8 IEC_61883_IIDC = 0x00"
| "subtype_u8 MMA_STREAM = 0x01"
| "subtype_u8 AAF = 0x02"
| "subtype_u8 CVF = 0x03"
| "subtype_u8 CRF = 0x04"
| "subtype_u8 TSCF = 0x05"
| "subtype_u8 SVF = 0x06"
| "subtype_u8 RVF = 0x07"
| "subtype_u8 AEF_CONTINUOUS = 0x6E"
| "subtype_u8 VSF_STREAM = 0x6F"
| "subtype_u8 EF_STREAM = 0x7F"
| "subtype_u8 NTSCF = 0x82"
| "subtype_u8 ESCF = 0xEC"
| "subtype_u8 EECF = 0xED"
| "subtype_u8 AEF_DISCRETE = 0xEE"
| "subtype_u8 ADP = 0xFA"
| "subtype_u8 AECP = 0xFB"
| "subtype_u8 ACMP = 0xFC"
| "subtype_u8 MAAP = 0xFD"
| "subtype_u8 EF_CONTROL = 0xFF"

definition subtype_variants :: "subtype list" where
  "subtype_variants =
     [IEC_61883_IIDC, MMA_STREAM, AAF, CVF, CRF, TSCF, SVF, RVF, AEF_CONTINUOUS, VSF_STREAM,
      EF_STREAM, NTSCF, ESCF, EECF, AEF_DISCRETE, ADP, AECP, ACMP, MAAP, EF_CONTROL]"

definition subtype_try_from :: "byte \<Rightarrow> (unknown_subtype, subtype) res" where
  "subtype_try_from b = ok_or (UnknownSubtype b) (find (\<lambda>st. subtype_u8 st = b) subtype_variants)"

primrec subtype_header_type :: "subtype \<Rightarrow> header_type" where
  "subtype_header_type IEC_61883_IIDC = HStream"
| "subtype_header_type MMA_STREAM = HStream"
| "subtype_header_type AAF = HStream"
| "subtype_header_type CVF = HStream"
| "subtype_header_type CRF = HAlternative"
| "subtype_header_type TSCF = HStream"
| "subtype_header_type SVF = HStream"
| "subtype_header_type RVF = HStream"
| "subtype_header_type AEF_CONTINUOUS = HAlternative"
| "subtype_header_type VSF_STREAM = HStream"
| "subtype_header_type EF_STREAM = HStream"
| "subtype_header_type NTSCF = HAlternative"
| "subtype_header_type ESCF = HAlternative"
| "subtype_header_type EECF = HAlternative"
| "subtype_header_type AEF_DISCRETE = HAlternative"
| "subtype_header_type ADP = HControl"
| "subtype_header_type AECP = HControl"
| "subtype_header_type ACMP = HControl"
| "subtype_header_type MAAP = HControl"
| "subtype_header_type EF_CONTROL = HControl"

primrec subtype_style :: "subtype \<Rightarrow> encapsulation_style" where
  "subtype_style IEC_61883_IIDC = Continuous"
| "subtype_style MMA_STREAM = Continuous"
| "subtype_style AAF = Continuous"
| "subtype_style CVF = Continuous"
| "subtype_style CRF = Continuous"
| "subtype_style TSCF = Continuous"
| "subtype_style SVF = Continuous"
| "subtype_style RVF = Continuous"
| "subtype_style AEF_CONTINUOUS = Continuous"
| "subtype_style VSF_STREAM = Continuous"
| "subtype_style EF_STREAM = Continuous"
| "subtype_style NTSCF = Discrete"
| "subtype_style ESCF = Discrete"
| "subtype_style EECF = Discrete"
| "subtype_style AEF_DISCRETE = Discrete"
| "subtype_style ADP = Discrete"
| "subtype_style AECP = Discrete"
| "subtype_style ACMP = Discrete"
| "subtype_style MAAP = Discrete"
| "subtype_style EF_CONTROL = Discrete"

definition subtype_encode :: "'w bit_write_ops \<Rightarrow> subtype \<Rightarrow> 'w \<Rightarrow> (io_error, 'w) res" where
  "subtype_encode W st w = wr_uint W 8 (subtype_u8 st) w"

definition subtype_decode ::
    "'r bit_read_ops \<Rightarrow> 'r \<Rightarrow> (unknown_subtype io_wrap, subtype \<times> 'r) res" where
  "subtype_decode R r =
     rbind (map_err Io (rd_uint R 8 r)) (\<lambda>(raw, r).
     rbind (map_err Specific (subtype_try_from raw)) (\<lambda>st. Ok (st, r)))"

section \<open>The subtype byte\<close>

lemma subtype_variants_all: "st \<in> set subtype_variants"
  by (cases st) (simp_all add: subtype_variants_def)

lemma subtype_u8_inj [simp]: "subtype_u8 a = subtype_u8 b \<longleftrightarrow> a = b"
  by (cases a; cases b; simp)

lemma subtype_try_from_u8 [simp]: "subtype_try_from (subtype_u8 st) = Ok st"
proof -
  have "find (\<lambda>s. subtype_u8 s = subtype_u8 st) subtype_variants = Some st"
    by (cases st) (simp_all add: subtype_variants_def)
  then show ?thesis by (simp add: subtype_try_from_def)
qed

lemma subtype_try_from_eq_Ok [simp]: "subtype_try_from b = Ok st \<longleftrightarrow> b = subtype_u8 st"
proof
  assume "subtype_try_from b = Ok st"
  then show "b = subtype_u8 st"
    unfolding subtype_try_from_def ok_or_eq_Ok by (auto dest: find_Some_sat)
qed simp

lemma subtype_try_from_eq_Err:
  "subtype_try_from b = Err e \<longleftrightarrow> e = UnknownSubtype b \<and> (\<forall>st. b \<noteq> subtype_u8 st)"
  unfolding subtype_try_from_def ok_or_eq_Err find_None_all using subtype_variants_all by auto

lemma subtype_try_from_not_Panic [simp]: "subtype_try_from b \<noteq> Panic"
  by (simp add: subtype_try_from_def)

definition subtype_bits :: "subtype \<Rightarrow> bool list" where
  "subtype_bits st = word_bits (subtype_u8 st)"

lemma length_subtype_bits [simp]: "length (subtype_bits st) = 8"
  by (simp add: subtype_bits_def)

section \<open>The codec contract\<close>

text \<open>
  What a decoder promises towards its wire format: it reads back every well-formed value laid out
  at the front of the input, and whatever it accepts is such a layout. \<open>tail_ok\<close> is what it expects
  of the input after the value (the byte alignment a debug build asserts). The consequences (the
  format is prefix free, decoding is insensitive to what follows) are proved once.
\<close>

locale bit_codec = bit_reader_laws R rest
  for R :: "'r bit_read_ops" and rest :: "'r \<Rightarrow> bool list" +
  fixes wf :: "'v \<Rightarrow> bool" and tail_ok :: "bool list \<Rightarrow> bool" and layout :: "'v \<Rightarrow> bool list"
    and dec :: "'r \<Rightarrow> ('e, 'v \<times> 'r) res"
  assumes dec_layout: "wf v \<Longrightarrow> tail_ok t \<Longrightarrow> rest r = layout v @ t \<Longrightarrow> yields rest v t (dec r)"
    and dec_sound: "dec r = Ok (v, r') \<Longrightarrow> wf v \<and> rest r = layout v @ rest r'"
begin

lemma dec_iff:
  "tail_ok t \<Longrightarrow>
   (\<exists>r'. dec r = Ok (v, r') \<and> rest r' = t) \<longleftrightarrow> wf v \<and> rest r = layout v @ t"
  using dec_layout [of v t r] dec_sound [of r v] by (auto simp: yields_def)

lemma dec_determined:
  assumes "dec r = Ok (v, r')" and "rest q = rest r @ u" and "tail_ok (rest r' @ u)"
  shows "yields rest v (rest r' @ u) (dec q)"
  using dec_sound [OF assms(1)] assms(2,3) dec_layout [of v "rest r' @ u" q] by simp

lemma layout_prefix_free:
  assumes "wf v" "wf v'" "tail_ok t" "tail_ok t'"
    and "rest r = layout v @ t" and "layout v @ t = layout v' @ t'"
  shows "v = v' \<and> t = t'"
proof -
  from dec_layout [OF assms(1,3,5)] obtain r1 where 1: "dec r = Ok (v, r1)" "rest r1 = t"
    unfolding yields_def by blast
  from trans [OF assms(5,6)] have "rest r = layout v' @ t'" .
  from dec_layout [OF assms(2,4) this] obtain r2 where 2: "dec r = Ok (v', r2)" "rest r2 = t'"
    unfolding yields_def by blast
  from 1 2 show ?thesis by simp
qed

end

end
