(* ===== verification/CommonHeader.thy ===== *)
theory CommonHeader
  imports Subtype
begin

text \<open>
  \<^verbatim>\<open>src/avtp/headers/common.rs\<close> (the 12-bit prefix of every AVTPDU) and \<^verbatim>\<open>src/avtp/stream_id.rs\<close>
  (the 64-bit stream identifier), with their codecs.
\<close>

section \<open>Stream identifiers\<close>

text \<open>\<^verbatim>\<open>MacAddr\<close> of the crate \<^verbatim>\<open>pnet\<close>: a tuple of six octets, converted from and to \<^verbatim>\<open>[u8; 6]\<close>.\<close>

datatype mac_addr = MacAddr byte byte byte byte byte byte

primrec mac_octets :: "mac_addr \<Rightarrow> byte list" where
  "mac_octets (MacAddr a b c d e f) = [a, b, c, d, e, f]"

fun mac_from :: "byte list \<Rightarrow> ('e, mac_addr) res" where
  "mac_from [a, b, c, d, e, f] = Ok (MacAddr a b c d e f)"
| "mac_from _ = Panic"

record stream_id =
  mac_address :: mac_addr
  unique_id :: u16

definition stream_id_encode :: "'w bit_write_ops \<Rightarrow> stream_id \<Rightarrow> 'w \<Rightarrow> (io_error, 'w) res" where
  "stream_id_encode W i w =
     rbind (wr_bytes W (mac_octets (mac_address i)) w) (\<lambda>w.
     wr_uint W 16 (unique_id i) w)"

definition stream_id_decode ::
    "'r bit_read_ops \<Rightarrow> 'r \<Rightarrow> (io_error, stream_id \<times> 'r) res" where
  "stream_id_decode R r =
     rbind (rd_bytes R 6 r) (\<lambda>(bs, r).
     rbind (mac_from bs) (\<lambda>mac.
     rbind (rd_uint R 16 r) (\<lambda>(uid, r).
     Ok (\<lparr>mac_address = mac, unique_id = uid\<rparr>, r))))"

definition stream_id_bits :: "stream_id \<Rightarrow> bool list" where
  "stream_id_bits i = bytes_bits (mac_octets (mac_address i)) @ word_bits (unique_id i)"

lemma mac_from_octets [simp]: "mac_from (mac_octets m) = Ok m"
  by (cases m) simp

lemma mac_from_eq_Ok [simp]: "mac_from bs = Ok m \<longleftrightarrow> bs = mac_octets m"
  by (cases m; cases bs rule: mac_from.cases) auto

lemma length_mac_octets [simp]: "length (mac_octets m) = 6"
  by (cases m) simp

lemma mac_octets_inj [simp]: "mac_octets a = mac_octets b \<longleftrightarrow> a = b"
  by (cases a; cases b) auto

lemma mac_from_Ok: "length bs = 6 \<Longrightarrow> \<exists>m. (mac_from bs :: ('e, mac_addr) res) = Ok m"
  by (cases bs rule: mac_from.cases) auto

lemma length_stream_id_bits [simp]: "length (stream_id_bits i) = 64"
  by (simp add: stream_id_bits_def)

section \<open>The common header\<close>

record common_header =
  subtype :: subtype
  header_specific_bit :: bool
  version :: "3 word"

definition common_encode ::
    "'w bit_write_ops \<Rightarrow> common_header \<Rightarrow> 'w \<Rightarrow> (io_error, 'w) res" where
  "common_encode W h w =
     rbind (subtype_encode W (subtype h) w) (\<lambda>w.
     rbind (wr_bit W (header_specific_bit h) w) (\<lambda>w.
     wr_uint W 3 (version h) w))"

definition common_decode ::
    "'r bit_read_ops \<Rightarrow> 'r \<Rightarrow> (unknown_subtype io_wrap, common_header \<times> 'r) res" where
  "common_decode R r =
     rbind (subtype_decode R r) (\<lambda>(st, r).
     rbind (map_err Io (rd_bit R r)) (\<lambda>(b, r).
     rbind (map_err Io (rd_uint R 3 r)) (\<lambda>(v, r).
     Ok (\<lparr>subtype = st, header_specific_bit = b, version = v\<rparr>, r))))"

definition common_bits :: "common_header \<Rightarrow> bool list" where
  "common_bits h = subtype_bits (subtype h) @ [header_specific_bit h] @ word_bits (version h)"

lemma length_common_bits [simp]: "length (common_bits h) = 12"
  by (simp add: common_bits_def)

section \<open>Correctness of the codecs\<close>

sublocale bit_reader_laws \<subseteq> subtype_codec: bit_codec R rest "\<lambda>_. True" "\<lambda>_. True" subtype_bits "subtype_decode R"
proof
  fix v r t
  assume "rest r = subtype_bits v @ t"
  then have "yields rest (subtype_u8 v) t (rd_uint R 8 r)"
    by (intro rd_uint_yields) (simp_all add: subtype_bits_def)
  then show "yields rest v t (subtype_decode R r)"
    by (auto simp: subtype_decode_def yields_def)
next
  fix v r r'
  assume "subtype_decode R r = Ok (v, r')"
  then show "True \<and> rest r = subtype_bits v @ rest r'"
    by (auto simp: subtype_decode_def subtype_bits_def dest: rd_uint_OkD)
qed

sublocale bit_reader_laws \<subseteq> stream_id_codec:
  bit_codec R rest "\<lambda>_. True" "\<lambda>_. True" stream_id_bits "stream_id_decode R"
proof
  fix v r t
  assume r: "rest r = stream_id_bits v @ t"
  show "yields rest v t (stream_id_decode R r)"
    unfolding stream_id_decode_def
    apply (rule yields_bind_split)
     apply (rule rd_bytes_yields [where bs = "mac_octets (mac_address v)"])
      apply (simp add: r stream_id_bits_def)
     apply simp
    apply simp
    apply (rule yields_bind_split)
     apply (rule rd_uint_yields, assumption, simp)
    apply (simp add: yields_def)
    done
next
  fix v r r'
  assume "stream_id_decode R r = Ok (v, r')"
  then show "True \<and> rest r = stream_id_bits v @ rest r'"
    by (auto simp: stream_id_decode_def stream_id_bits_def dest!: rd_uint_OkD rd_bytes_OkD)
qed

sublocale bit_reader_laws \<subseteq> common_codec:
  bit_codec R rest "\<lambda>_. True" "\<lambda>_. True" common_bits "common_decode R"
proof
  fix v r t
  assume r: "rest r = common_bits v @ t"
  show "yields rest v t (common_decode R r)"
    unfolding common_decode_def
    apply (rule yields_bind_split)
     apply (rule subtype_codec.dec_layout [where v = "subtype v"], simp, simp)
     apply (simp add: r common_bits_def)
    apply (rule yields_bind_split)
     apply (simp, rule rd_bit_yields, assumption)
    apply (rule yields_bind_split)
     apply (simp, rule rd_uint_yields, assumption, simp)
    apply (simp add: yields_def)
    done
next
  fix v r r'
  assume "common_decode R r = Ok (v, r')"
  then show "True \<and> rest r = common_bits v @ rest r'"
    by (auto simp: common_decode_def common_bits_def
        dest!: rd_bit_OkD rd_uint_OkD subtype_codec.dec_sound)
qed

context bit_writer_laws
begin

lemma stream_id_encode_within:
  assumes w: "snk w = (s, k)" and f: "fits k N" and n: "length s + 64 \<le> N"
  shows "emits snk k (s @ stream_id_bits i) (stream_id_encode W i w)"
  unfolding stream_id_encode_def
  apply (rule wr_then, rule w, rule f, use n in simp)
  apply (rule emits_eq, rule wr_within, assumption, rule f, use n in simp)
  apply (simp add: stream_id_bits_def)
  done

lemma common_encode_within:
  assumes w: "snk w = (s, k)" and f: "fits k N" and n: "length s + 12 \<le> N"
  shows "emits snk k (s @ common_bits h) (common_encode W h w)"
  unfolding common_encode_def subtype_encode_def
  apply (rule wr_then, (rule w | assumption), rule f, use n in simp)+
  apply (rule emits_eq, rule wr_within, assumption, rule f, use n in simp)
  apply (simp add: common_bits_def subtype_bits_def)
  done

lemmas hdr_within = stream_id_encode_within common_encode_within
lemmas hdr_then = wr_then hdr_within [THEN emits_bind] hdr_within [THEN emits_bind_map]

end

end
