(* ===== verification/PtpTime.thy ===== *)
theory PtpTime
  imports Prelude
begin

text \<open>
  \<^verbatim>\<open>src/ptp_phc/time.rs\<close>: time stamps of a PTP hardware clock, signed seconds and the nanoseconds
  within the second, with their conversions. \<open>wf_time\<close> is the invariant the constructors establish;
  \<open>as_nanos\<close> is an order isomorphism onto the nanoseconds it admits.
\<close>

section \<open>The type and its constructors\<close>

datatype ptp_time = PtpTime (seconds: int) (nanoseconds: u32)

datatype phc_time_error = DurationTooLarge

text \<open>\<^verbatim>\<open>struct ptp_clock_time\<close> of the kernel, \<^verbatim>\<open>PtpClockTime\<close> in \<^verbatim>\<open>src/ptp_phc/abi.rs\<close>.\<close>

record ptp_clock_time =
  abi_sec :: int
  abi_nsec :: u32
  abi_reserved :: u32

definition ptp_new :: "int \<Rightarrow> u32 \<Rightarrow> ('e, ptp_time) res" where
  "ptp_new secs nanos =
     (if nanos < 1000000000 then Ok (PtpTime secs nanos)
      else let carry = uint (nanos div 1000000000) in
        rbind (expect (if in_i64 (secs + carry) then Some (secs + carry) else None)) (\<lambda>secs.
        Ok (PtpTime secs (nanos mod 1000000000))))"

definition ptp_new_unchecked :: "int \<Rightarrow> u32 \<Rightarrow> ptp_time" where
  "ptp_new_unchecked secs nanos = PtpTime secs nanos"

definition from_ns :: "int \<Rightarrow> ptp_time" where
  "from_ns ns = PtpTime (ns div 1000000000) (word_of_int (ns mod 1000000000))"

definition from_ns_i128 :: "int \<Rightarrow> ptp_time option" where
  "from_ns_i128 ns =
     (let secs = ns div 1000000000; nanos = word_of_int (ns mod 1000000000) in
      if in_i64 secs then Some (PtpTime secs nanos) else None)"

definition from_normalized_timespec :: "bool \<Rightarrow> int \<Rightarrow> int \<Rightarrow> ('e, ptp_time) res" where
  "from_normalized_timespec dbg tv_sec tv_nsec =
     rbind (debug_assert dbg (0 \<le> tv_nsec \<and> tv_nsec < 1000000000)) (\<lambda>_.
     Ok (PtpTime tv_sec (word_of_int tv_nsec)))"

definition from_abi :: "bool \<Rightarrow> ptp_clock_time \<Rightarrow> ('e, ptp_time) res" where
  "from_abi dbg t =
     rbind (debug_assert dbg (abi_nsec t < 1000000000)) (\<lambda>_.
     Ok (PtpTime (abi_sec t) (abi_nsec t)))"

definition into_abi :: "ptp_time \<Rightarrow> ptp_clock_time" where
  "into_abi t = \<lparr>abi_sec = seconds t, abi_nsec = nanoseconds t, abi_reserved = 0\<rparr>"

definition subsec_nanos :: "ptp_time \<Rightarrow> u32" where
  "subsec_nanos t = nanoseconds t"

definition as_nanos :: "ptp_time \<Rightarrow> int" where
  "as_nanos t = sat_i128 (sat_i128 (seconds t * 1000000000) + uint (subsec_nanos t))"

definition ptp_try_from_duration :: "duration \<Rightarrow> (phc_time_error, ptp_time) res" where
  "ptp_try_from_duration d =
     rbind (ensure (in_i64 (int (dur_as_secs d))) DurationTooLarge) (\<lambda>_.
     Ok (PtpTime (int (dur_as_secs d)) (of_nat (dur_subsec_nanos d))))"

definition ptp_display :: "ptp_time \<Rightarrow> string" where
  "ptp_display t =
     show_int (seconds t) @ ''.'' @ pad_left 9 (CHR ''0'') (show_nat (unat (subsec_nanos t)))"

text \<open>The derived \<^verbatim>\<open>Ord\<close> compares the fields in order.\<close>

instantiation ptp_time :: linorder
begin

definition less_eq_ptp_time :: "ptp_time \<Rightarrow> ptp_time \<Rightarrow> bool" where
  "less_eq_ptp_time a b \<longleftrightarrow>
     seconds a < seconds b \<or> seconds a = seconds b \<and> nanoseconds a \<le> nanoseconds b"

definition less_ptp_time :: "ptp_time \<Rightarrow> ptp_time \<Rightarrow> bool" where
  "less_ptp_time a b \<longleftrightarrow>
     seconds a < seconds b \<or> seconds a = seconds b \<and> nanoseconds a < nanoseconds b"

instance
  by standard (auto simp: less_eq_ptp_time_def less_ptp_time_def ptp_time.expand)

end

section \<open>The invariant\<close>

definition wf_time :: "ptp_time \<Rightarrow> bool" where
  "wf_time t \<longleftrightarrow> in_i64 (seconds t) \<and> unat (nanoseconds t) < nsec_per_sec"

abbreviation wide_ns :: "int \<Rightarrow> bool" where
  "wide_ns n \<equiv> in_i64 (n div 1000000000)"

lemma uint_word_of_int_mod [simp]: "uint (word_of_int (n mod 1000000000) :: u32) = n mod 1000000000"
  by (simp add: uint_word_of_int)

lemma unat_word_of_int_mod: "unat (word_of_int (n mod 1000000000) :: u32) = nat (n mod 1000000000)"
  by (simp add: unat_eq_nat_uint)

lemma wf_time_uint: "wf_time t \<longleftrightarrow> in_i64 (seconds t) \<and> uint (nanoseconds t) < 1000000000"
proof -
  have "uint (nanoseconds t) = int (unat (nanoseconds t))" by simp
  then show ?thesis unfolding wf_time_def by linarith
qed

lemma as_nanos_wf:
  assumes "wf_time t"
  shows "as_nanos t = seconds t * 1000000000 + uint (nanoseconds t)"
proof -
  define n where "n = uint (nanoseconds t)"
  have "0 \<le> n" by (simp add: n_def)
  moreover have "n < 1000000000" "in_i64 (seconds t)"
    using assms by (simp_all add: wf_time_uint n_def)
  ultimately have "in_i128 (seconds t * 1000000000)" "in_i128 (seconds t * 1000000000 + n)"
    by (auto simp: in_i64_def in_i128_def)
  then show ?thesis by (simp add: as_nanos_def subsec_nanos_def sat_i128_id n_def)
qed

lemma as_nanos_split:
  assumes "wf_time t"
  shows "as_nanos t div 1000000000 = seconds t" "as_nanos t mod 1000000000 = uint (nanoseconds t)"
  using assms by (simp_all add: as_nanos_wf wf_time_uint)

lemma from_ns_i128_as_nanos: "wf_time t \<Longrightarrow> from_ns_i128 (as_nanos t) = Some t"
  by (simp add: from_ns_i128_def as_nanos_split Let_def) (simp add: wf_time_uint)

lemma from_ns_i128_Some:
  "from_ns_i128 n = Some t \<longleftrightarrow> wf_time t \<and> as_nanos t = n"
proof
  assume "from_ns_i128 n = Some t"
  then have i: "in_i64 (n div 1000000000)"
    and t: "t = PtpTime (n div 1000000000) (word_of_int (n mod 1000000000))"
    by (auto simp: from_ns_i128_def Let_def split: if_splits)
  from i have "wf_time t" by (simp add: wf_time_uint t)
  then show "wf_time t \<and> as_nanos t = n" by (simp add: as_nanos_wf) (simp add: t)
qed (auto simp: from_ns_i128_as_nanos)

lemma from_ns_i128_None: "from_ns_i128 n = None \<longleftrightarrow> \<not> wide_ns n"
  by (simp add: from_ns_i128_def Let_def)

lemma from_ns_wf: "in_i64 n \<Longrightarrow> wf_time (from_ns n) \<and> as_nanos (from_ns n) = n"
proof -
  assume "in_i64 n"
  then have "in_i64 (n div 1000000000)" by (auto simp: in_i64_def)
  then have w: "wf_time (from_ns n)" by (simp add: wf_time_uint from_ns_def)
  then show ?thesis by (simp add: as_nanos_wf) (simp add: from_ns_def)
qed

lemma ptp_time_eq_iff:
  "wf_time a \<Longrightarrow> wf_time b \<Longrightarrow> as_nanos a = as_nanos b \<longleftrightarrow> a = b"
  by (metis from_ns_i128_as_nanos option.inject)

lemma ptp_time_le_iff:
  assumes "wf_time a" "wf_time b"
  shows "a \<le> b \<longleftrightarrow> as_nanos a \<le> as_nanos b"
proof -
  define m n where "m = uint (nanoseconds a)" and "n = uint (nanoseconds b)"
  have "0 \<le> m" "0 \<le> n" "m < 1000000000" "n < 1000000000"
    using assms by (simp_all add: wf_time_uint m_def n_def)
  moreover have "nanoseconds a \<le> nanoseconds b \<longleftrightarrow> m \<le> n"
    by (simp add: m_def n_def word_le_def)
  ultimately show ?thesis
    unfolding less_eq_ptp_time_def as_nanos_wf [OF assms(1)] as_nanos_wf [OF assms(2)]
      m_def [symmetric] n_def [symmetric] by linarith
qed

text \<open>\<^verbatim>\<open>PtpTime::new\<close> normalises, or panics exactly when the carry leaves the seconds' range.\<close>

lemma ptp_new_spec:
  assumes "in_i64 s"
  shows "(ptp_new s n :: ('e, ptp_time) res) =
    (case from_ns_i128 (s * 1000000000 + uint n) of Some t \<Rightarrow> Ok t | None \<Rightarrow> Panic)"
proof (cases "n < 1000000000")
  case True
  then have "uint n < 1000000000" by (simp add: word_less_def)
  with True assms show ?thesis by (simp add: ptp_new_def from_ns_i128_def)
next
  case False
  then have "(s * 1000000000 + uint n) div 1000000000 = s + uint (n div 1000000000)"
    "word_of_int ((s * 1000000000 + uint n) mod 1000000000) = n mod 1000000000"
    by (simp_all add: uint_div_distrib uint_mod_distrib word_uint_eq_iff)
  with False show ?thesis by (simp add: ptp_new_def from_ns_i128_def Let_def)
qed

lemma ptp_try_from_duration_spec:
  "ptp_try_from_duration d = ok_or DurationTooLarge (from_ns_i128 (int d))"
proof -
  have "int d mod 1000000000 = int (d mod nsec_per_sec)" "int d div 1000000000 = int (d div nsec_per_sec)"
    by (simp_all add: zmod_int zdiv_int)
  then show ?thesis
    by (simp add: ptp_try_from_duration_def from_ns_i128_def dur_as_secs_def dur_subsec_nanos_def
        ensure_def Let_def del: of_nat_mod of_nat_div)
qed

lemma from_abi_into_abi [simp]: "wf_time t \<Longrightarrow> from_abi dbg (into_abi t) = Ok t"
  by (simp add: from_abi_def into_abi_def wf_time_def word_less_nat_alt)

section \<open>Properties\<close>

text \<open>The total nanoseconds of a normalised time embed it into the integers: the embedding keeps the
  order \<^verbatim>\<open>PtpTime\<close> derives from its fields, and \<^verbatim>\<open>from_ns_i128\<close> inverts it on exactly the integers
  whose seconds fit 64 bits.\<close>

theorem ptp_time_embedding:
  assumes "wf_time a" "wf_time b"
  shows "(a \<le> b \<longleftrightarrow> as_nanos a \<le> as_nanos b) \<and> (from_ns_i128 n = Some a \<longleftrightarrow> as_nanos a = n) \<and>
    ((\<exists>t. wf_time t \<and> as_nanos t = n) \<longleftrightarrow> in_i64 (n div 1000000000))"
  using assms from_ns_i128_None [of n] from_ns_i128_Some [of n]
  by (cases "from_ns_i128 n") (auto simp: ptp_time_le_iff)

theorem ptp_time_embedding_witness:
  "from_ns_i128 (- 1) = Some (PtpTime (- 1) 999999999) \<longleftrightarrow> as_nanos (PtpTime (- 1) 999999999) = - 1"
  using ptp_time_embedding [of "PtpTime (- 1) 999999999" "PtpTime 0 0" "- 1"]
  by (simp add: wf_time_def in_i64_def)

text \<open>Constructing a time carries whole seconds out of any 32-bit nanosecond count: the result is
  normalised and its total nanoseconds are exactly the sum of the arguments'; it panics exactly when
  that total lies outside the representable times.\<close>

theorem ptp_new_normalises:
  assumes "in_i64 s"
  shows "case ptp_new s n of
      Ok t \<Rightarrow> wf_time t \<and> as_nanos t = s * 1000000000 + uint n
    | Err (e :: 'e) \<Rightarrow> False
    | Panic \<Rightarrow> \<not> (\<exists>t. wf_time t \<and> as_nanos t = s * 1000000000 + uint n)"
  using from_ns_i128_Some [of "s * 1000000000 + uint n"]
  unfolding ptp_new_spec [OF assms] by (cases "from_ns_i128 (s * 1000000000 + uint n)") auto

theorem ptp_new_normalises_witness:
  "\<exists>t. (ptp_new 7 2500000000 :: (unit, _) res) = Ok t \<and> as_nanos t = 9500000000"
proof -
  have "in_i64 7" by (simp add: in_i64_def)
  from ptp_new_normalises [OF this, of 2500000000, where 'e = unit] show ?thesis
    by (simp add: ptp_new_def in_i64_def Let_def)
qed

end
