(* ===== verification/AvtpTimestamp.thy ===== *)
theory AvtpTimestamp
  imports PtpTime
begin

text \<open>
  \<^verbatim>\<open>src/avtp/timestamp.rs\<close>: the 32-bit wrapping presentation time, its derivation from PTP time and
  the expansion back to the absolute time nearest to a reference.
\<close>

datatype avtp_timestamp = AvtpTimestamp (as_u32: u32)

instantiation avtp_timestamp :: linorder
begin

definition less_eq_avtp_timestamp :: "avtp_timestamp \<Rightarrow> avtp_timestamp \<Rightarrow> bool" where
  "less_eq_avtp_timestamp a b \<longleftrightarrow> as_u32 a \<le> as_u32 b"

definition less_avtp_timestamp :: "avtp_timestamp \<Rightarrow> avtp_timestamp \<Rightarrow> bool" where
  "less_avtp_timestamp a b \<longleftrightarrow> as_u32 a < as_u32 b"

instance
proof
  fix x y :: avtp_timestamp
  show "x \<le> y \<Longrightarrow> y \<le> x \<Longrightarrow> x = y"
    by (cases x; cases y) (simp add: less_eq_avtp_timestamp_def)
qed (simp_all add: less_eq_avtp_timestamp_def less_avtp_timestamp_def less_le_not_le linear)

end

definition ts_from_u32 :: "u32 \<Rightarrow> avtp_timestamp" where
  "ts_from_u32 v = AvtpTimestamp v"

definition ts_into_u32 :: "avtp_timestamp \<Rightarrow> u32" where
  "ts_into_u32 t = as_u32 t"

definition ts_wrapping_add :: "avtp_timestamp \<Rightarrow> u32 \<Rightarrow> avtp_timestamp" where
  "ts_wrapping_add t d = AvtpTimestamp (as_u32 t + d)"

text \<open>The operators \<^verbatim>\<open>+\<close> and \<^verbatim>\<open>+=\<close>.\<close>

definition ts_add :: "avtp_timestamp \<Rightarrow> u32 \<Rightarrow> avtp_timestamp" where
  "ts_add t d = ts_wrapping_add t d"

definition ts_add_assign :: "u32 \<Rightarrow> avtp_timestamp \<Rightarrow> avtp_timestamp" where
  "ts_add_assign d t = ts_wrapping_add t d"

definition ts_from_duration :: "duration \<Rightarrow> avtp_timestamp" where
  "ts_from_duration d = AvtpTimestamp (of_nat d)"

definition ts_from_ptp :: "ptp_time \<Rightarrow> avtp_timestamp" where
  "ts_from_ptp t =
     (let total = (word_of_int (seconds t) :: 64 word) * 1000000000 + ucast (subsec_nanos t) in
      AvtpTimestamp (ucast total))"

definition ts_display :: "avtp_timestamp \<Rightarrow> string" where
  "ts_display t = show_nat (unat (as_u32 t)) @ '' ns''"

text \<open>\<^verbatim>\<open>Iterator::min_by_key\<close>: the first of the least elements.\<close>

fun min_by_key :: "('a \<Rightarrow> 'k::linorder) \<Rightarrow> 'a list \<Rightarrow> 'a option" where
  "min_by_key f [] = None"
| "min_by_key f (x # xs) =
     (case min_by_key f xs of None \<Rightarrow> Some x | Some y \<Rightarrow> if f x \<le> f y then Some x else Some y)"

definition avtp_wrap_ns :: int where
  "avtp_wrap_ns = 2 ^ 32"

definition expand_candidates :: "avtp_timestamp \<Rightarrow> int \<Rightarrow> int list" where
  "expand_candidates ts reference_ns =
     (let base_cycles = reference_ns div avtp_wrap_ns;
          base_candidate = base_cycles * avtp_wrap_ns + uint (as_u32 ts) in
      [base_candidate - avtp_wrap_ns, base_candidate, base_candidate + avtp_wrap_ns])"

definition expand_near :: "avtp_timestamp \<Rightarrow> ptp_time \<Rightarrow> ('e, ptp_time) res" where
  "expand_near ts reference_time =
     (let reference_ns = as_nanos reference_time in
      rbind (expect (min_by_key (\<lambda>c. \<bar>c - reference_ns\<bar>) (expand_candidates ts reference_ns))) (\<lambda>ns.
      expect (from_ns_i128 ns)))"

section \<open>Derivation from absolute time\<close>

lemma uint_ts_from_ptp_raw:
  "uint (as_u32 (ts_from_ptp t)) = (seconds t * 1000000000 + uint (nanoseconds t)) mod 2 ^ 32"
proof -
  define s where "s = seconds t"
  define n where "n = uint (nanoseconds t)"
  have w: "(word_of_int s :: 64 word) * 1000000000 + ucast (nanoseconds t)
      = word_of_int (s * 1000000000 + n)"
    by (simp only: n_def ucast_eq of_int_add of_int_mult of_int_numeral)
  have m: "uint (ucast (word_of_int k :: 64 word) :: u32) = k mod 2 ^ 32" for k
  proof -
    have "uint (ucast (word_of_int k :: 64 word) :: u32) = take_bit 32 (take_bit 64 k)"
      by (simp only: unsigned_ucast_eq uint_word_of_int_eq len_num1 len_bit0) simp
    also have "\<dots> = take_bit 32 k" by (simp only: take_bit_take_bit)
    finally show ?thesis by (simp only: take_bit_eq_mod)
  qed
  show ?thesis
    unfolding ts_from_ptp_def Let_def subsec_nanos_def s_def [symmetric] n_def [symmetric] w
    by (simp only: avtp_timestamp.sel m)
qed

lemma uint_ts_from_ptp: "wf_time t \<Longrightarrow> uint (as_u32 (ts_from_ptp t)) = as_nanos t mod 2 ^ 32"
  by (simp add: uint_ts_from_ptp_raw as_nanos_wf)

lemma uint_ts_from_duration: "uint (as_u32 (ts_from_duration d)) = int d mod 2 ^ 32"
  by (simp add: ts_from_duration_def uint_nat unat_of_nat zmod_int)

lemma ts_wrapping_add_congruent:
  "uint (as_u32 (ts_wrapping_add t d)) = (uint (as_u32 t) + uint d) mod 2 ^ 32"
  by (simp add: ts_wrapping_add_def uint_word_ariths)

section \<open>Expansion\<close>

lemma min_by_key_spec:
  "min_by_key f xs = Some y \<Longrightarrow> y \<in> set xs \<and> (\<forall>x\<in>set xs. f y \<le> f x)"
proof (induction xs arbitrary: y)
  case (Cons x xs)
  show ?case
  proof (cases "min_by_key f xs")
    case None
    then have "xs = []" by (cases xs) (auto split: option.splits if_splits)
    with Cons.prems show ?thesis by simp
  next
    case (Some z)
    with Cons.IH [of z] Cons.prems show ?thesis by (auto split: if_splits)
  qed
qed simp

text \<open>The value of the expansion, before the range check of the seconds.\<close>

definition nearest_ns :: "avtp_timestamp \<Rightarrow> int \<Rightarrow> int" where
  "nearest_ns ts r =
     (let d = (uint (as_u32 ts) - r) mod 2 ^ 32 in if d < 2 ^ 31 then r + d else r + d - 2 ^ 32)"

lemma nearest_ns_cases:
  obtains d where "d = (uint (as_u32 ts) - r) mod 4294967296" "0 \<le> d" "d < 2147483648"
      "nearest_ns ts r = r + d"
    | d where "d = (uint (as_u32 ts) - r) mod 4294967296" "2147483648 \<le> d" "d < 4294967296"
      "nearest_ns ts r = r + d - 4294967296"
proof -
  define d where "d = (uint (as_u32 ts) - r) mod 4294967296"
  have "0 \<le> d" "d < 4294967296" by (simp_all add: d_def)
  moreover have "nearest_ns ts r = (if d < 2147483648 then r + d else r + d - 4294967296)"
    by (simp add: nearest_ns_def d_def Let_def)
  ultimately show ?thesis using that [OF d_def] by (cases "d < 2147483648") simp_all
qed

lemma nearest_ns_close: "- (2 ^ 31) \<le> nearest_ns ts r - r \<and> nearest_ns ts r - r < 2 ^ 31"
  by (rule nearest_ns_cases [of ts r]) simp_all

lemma nearest_ns_mod: "nearest_ns ts r mod 2 ^ 32 = uint (as_u32 ts)"
proof (rule nearest_ns_cases [of ts r])
  fix d assume d: "d = (uint (as_u32 ts) - r) mod 4294967296" and "nearest_ns ts r = r + d"
  then show ?thesis by (simp add: mod_simps uint_u32_lt)
next
  fix d assume d: "d = (uint (as_u32 ts) - r) mod 4294967296"
    and "nearest_ns ts r = r + d - 4294967296"
  then have "nearest_ns ts r mod 4294967296 = (r + d) mod 4294967296"
    by (metis mod_diff_right_eq mod_self diff_zero)
  with d show ?thesis by (simp add: mod_simps uint_u32_lt)
qed

lemma nearest_ns_unique:
  assumes "c mod 2 ^ 32 = uint (as_u32 ts)" "- (2 ^ 31) \<le> c - r" "c - r < 2 ^ 31"
  shows "c = nearest_ns ts r"
proof -
  have "(c - nearest_ns ts r) mod 4294967296 = 0"
    using assms(1) nearest_ns_mod [of ts r] by (simp flip: mod_eq_dvd_iff add: mod_eq_0_iff_dvd)
  then obtain k where "c - nearest_ns ts r = 4294967296 * k" by (auto simp: mod_eq_0_iff_dvd)
  moreover have "\<bar>c - nearest_ns ts r\<bar> < 4294967296"
    using nearest_ns_close [of ts r] assms(2,3) unfolding abs_less_iff by auto
  ultimately show ?thesis by (simp add: abs_mult)
qed

lemma expand_min:
  "min_by_key (\<lambda>c. \<bar>c - r\<bar>) (expand_candidates ts r) = Some (nearest_ns ts r)"
proof -
  define u q m where "u = uint (as_u32 ts)" and "q = r div 4294967296" and "m = r mod 4294967296"
  have u: "0 \<le> u" "u < 4294967296" by (simp_all add: u_def uint_u32_lt)
  have r: "r = q * 4294967296 + m" and m: "0 \<le> m" "m < 4294967296"
    by (simp_all add: q_def m_def)
  define c where "c = (if u - m < - 2147483648 then q * 4294967296 + u + 4294967296
      else if u - m < 2147483648 then q * 4294967296 + u else q * 4294967296 + u - 4294967296)"
  have "c mod 4294967296 = u"
    using u by (auto simp: c_def mod_diff_eq [symmetric] mod_add_eq [symmetric])
  moreover have "- (2 ^ 31) \<le> c - r" "c - r < 2 ^ 31" using u m by (auto simp: c_def r)
  ultimately have "c = nearest_ns ts r" by (intro nearest_ns_unique) (simp_all add: u_def)
  moreover have "expand_candidates ts r =
      [q * 4294967296 + u - 4294967296, q * 4294967296 + u, q * 4294967296 + u + 4294967296]"
    by (simp add: expand_candidates_def avtp_wrap_ns_def u_def q_def Let_def)
  ultimately show ?thesis using u m by (auto simp: c_def r)
qed

lemma expand_near_eq:
  "expand_near ts t = expect (from_ns_i128 (nearest_ns ts (as_nanos t)))"
  by (simp add: expand_near_def expand_min Let_def)

section \<open>Properties\<close>

text \<open>C13: A 32-bit timestamp made from an absolute time, expanded near any reference less than half a
  wrap period (about 2.1 seconds) away, gives the absolute time back.\<close>

theorem expand_near_recovers:
  assumes "wf_time t" "wf_time r" "- (2 ^ 31) \<le> as_nanos t - as_nanos r" "as_nanos t - as_nanos r < 2 ^ 31"
  shows "expand_near (ts_from_ptp t) r = (Ok t :: ('e, _) res)"
proof -
  have "as_nanos t = nearest_ns (ts_from_ptp t) (as_nanos r)"
    by (rule nearest_ns_unique) (use assms in \<open>simp_all add: uint_ts_from_ptp\<close>)
  with from_ns_i128_as_nanos [OF assms(1)] show ?thesis by (simp add: expand_near_eq)
qed

theorem expand_near_recovers_witness:
  "expand_near (ts_from_ptp (PtpTime 12 5)) (PtpTime 10 999999999) = (Ok (PtpTime 12 5) :: (unit, _) res)"
  by (rule expand_near_recovers) (simp_all add: wf_time_def in_i64_def as_nanos_wf)

text \<open>C21: The outcome of an expansion, for every timestamp: a normalised time that truncates to the
  timestamp and lies within half a wrap period of the reference, or, when no representable time does
  (the reference is at the end of the range of seconds), a panic.\<close>

theorem expand_near_outcome:
  assumes "wf_time r"
  shows "case expand_near ts r of
      Ok t \<Rightarrow> wf_time t \<and> ts_from_ptp t = ts \<and>
        - (2 ^ 31) \<le> as_nanos t - as_nanos r \<and> as_nanos t - as_nanos r < 2 ^ 31
    | Err (e :: 'e) \<Rightarrow> False
    | Panic \<Rightarrow> \<not> (\<exists>t. wf_time t \<and> ts_from_ptp t = ts \<and>
        - (2 ^ 31) \<le> as_nanos t - as_nanos r \<and> as_nanos t - as_nanos r < 2 ^ 31)"
proof (cases "from_ns_i128 (nearest_ns ts (as_nanos r))")
  case None
  have False if "wf_time t" "ts_from_ptp t = ts" "- (2 ^ 31) \<le> as_nanos t - as_nanos r"
      "as_nanos t - as_nanos r < 2 ^ 31" for t
  proof -
    have "as_nanos t = nearest_ns ts (as_nanos r)"
      by (rule nearest_ns_unique) (use that in \<open>auto simp: uint_ts_from_ptp\<close>)
    with None from_ns_i128_as_nanos [OF that(1)] show False by simp
  qed
  with None show ?thesis by (auto simp: expand_near_eq)
next
  case (Some t)
  then have t: "wf_time t" "as_nanos t = nearest_ns ts (as_nanos r)" by (simp_all add: from_ns_i128_Some)
  then have "uint (as_u32 (ts_from_ptp t)) = uint (as_u32 ts)"
    by (simp add: uint_ts_from_ptp nearest_ns_mod [simplified])
  then have "ts_from_ptp t = ts" by (intro avtp_timestamp.expand) (simp add: word_uint_eq_iff)
  with t Some nearest_ns_close [of ts "as_nanos r"] show ?thesis by (simp add: expand_near_eq)
qed

theorem expand_near_outcome_witness:
  "expand_near (AvtpTimestamp 0) (PtpTime 9223372036854775807 999999999) = (Panic :: (unit, _) res)"
proof -
  have w: "wf_time (PtpTime 9223372036854775807 999999999)" by (simp add: wf_time_def in_i64_def)
  have n: "nearest_ns (AvtpTimestamp 0) (as_nanos (PtpTime 9223372036854775807 999999999)) =
      9223372036854775808000000000"
    unfolding as_nanos_wf [OF w] by (simp add: nearest_ns_def)
  then have "expand_near (AvtpTimestamp 0) (PtpTime 9223372036854775807 999999999) \<noteq> (Ok t :: (unit, _) res)"
    for t by (simp add: expand_near_eq from_ns_i128_def in_i64_def)
  with expand_near_outcome [OF w, of "AvtpTimestamp 0", where 'e = unit] show ?thesis
    by (cases "expand_near (AvtpTimestamp 0) (PtpTime 9223372036854775807 999999999) :: (unit, _) res") auto
qed

text \<open>Truncation to 32 bits commutes with advancing time: although the conversion multiplies the
  seconds in wrapping 64-bit arithmetic, adding a delay to a timestamp gives the timestamp of the
  delayed time, across every wrap.\<close>

theorem presentation_time_wraps:
  assumes "wf_time t" "wf_time t'" "as_nanos t' = as_nanos t + uint d"
  shows "ts_wrapping_add (ts_from_ptp t) d = ts_from_ptp t' \<and>
    uint (as_u32 (ts_from_ptp t')) = (as_nanos t + uint d) mod 2 ^ 32"
proof -
  have "uint (as_u32 (ts_wrapping_add (ts_from_ptp t) d)) = uint (as_u32 (ts_from_ptp t'))"
    using assms by (simp add: ts_wrapping_add_congruent uint_ts_from_ptp mod_simps)
  then have "ts_wrapping_add (ts_from_ptp t) d = ts_from_ptp t'"
    by (intro avtp_timestamp.expand) (simp add: word_uint_eq_iff)
  with assms show ?thesis by (simp add: uint_ts_from_ptp)
qed

theorem presentation_time_wraps_witness:
  "ts_wrapping_add (ts_from_ptp (PtpTime (- 5) 999999999)) 2000000 = ts_from_ptp (PtpTime (- 4) 1999999)"
  using presentation_time_wraps [of "PtpTime (- 5) 999999999" "PtpTime (- 4) 1999999" 2000000]
  by (simp add: wf_time_def in_i64_def as_nanos_wf)

end
