(* ===== verification/StreamHeader.thy ===== *)
theory StreamHeader
  imports CommonHeader AvtpTimestamp
begin

text \<open>
  \<^verbatim>\<open>src/avtp/headers/stream.rs\<close>: the header of stream AVTPDUs, its constructors and setters, and its
  codec. \<open>stream_bits\<close> is the wire layout of IEEE 1722 the codec is proved against.
\<close>

section \<open>Data\<close>

datatype stream_data_error = PayloadTooLarge nat

record generic_stream_data =
  common :: common_header
  media_clock_restart :: bool
  avtp_timestamp_valid :: bool
  sequence_num :: byte
  timestamp_uncertain :: bool
  stream_id :: stream_id
  avtp_timestamp :: avtp_timestamp

record specific_stream_data =
  format_specific_data :: "2 word"
  format_specific_data_1 :: "7 word"
  format_specific_data_2 :: arr4
  format_specific_data_3 :: arr2
  stream_data_payload :: "byte list"

record stream_header =
  generic :: generic_stream_data
  specific :: specific_stream_data

definition stream_id_valid :: "generic_stream_data \<Rightarrow> bool" where
  "stream_id_valid g = header_specific_bit (common g)"

definition set_stream_id_valid :: "bool \<Rightarrow> generic_stream_data \<Rightarrow> generic_stream_data" where
  "set_stream_id_valid v g = g\<lparr>common := (common g)\<lparr>header_specific_bit := v\<rparr>\<rparr>"

definition generic_new_unchecked ::
    "common_header \<Rightarrow> bool \<Rightarrow> bool \<Rightarrow> byte \<Rightarrow> bool \<Rightarrow> stream_id \<Rightarrow> avtp_timestamp \<Rightarrow>
     generic_stream_data" where
  "generic_new_unchecked c mr tv sn tu sid ts =
     \<lparr>common = c, media_clock_restart = mr, avtp_timestamp_valid = tv, sequence_num = sn,
      timestamp_uncertain = tu, stream_id = sid, avtp_timestamp = ts\<rparr>"

definition u16_max :: nat where
  "u16_max = 65535"

definition specific_new_unchecked ::
    "2 word \<Rightarrow> 7 word \<Rightarrow> arr4 \<Rightarrow> arr2 \<Rightarrow> byte list \<Rightarrow> (stream_data_error, specific_stream_data) res" where
  "specific_new_unchecked f f1 f2 f3 payload =
     rbind (ensure (length payload \<le> u16_max) (PayloadTooLarge (length payload))) (\<lambda>_.
     Ok \<lparr>format_specific_data = f, format_specific_data_1 = f1, format_specific_data_2 = f2,
         format_specific_data_3 = f3, stream_data_payload = payload\<rparr>)"

definition set_stream_data_payload ::
    "byte list \<Rightarrow> specific_stream_data \<Rightarrow> (stream_data_error, specific_stream_data) res" where
  "set_stream_data_payload payload s =
     rbind (ensure (length payload \<le> u16_max) (PayloadTooLarge (length payload))) (\<lambda>_.
     Ok (s\<lparr>stream_data_payload := payload\<rparr>))"

section \<open>Codec\<close>

definition stream_decode_after_common ::
    "bool \<Rightarrow> 'r bit_read_ops \<Rightarrow> common_header \<Rightarrow> 'r \<Rightarrow> (io_error, stream_header \<times> 'r) res" where
  "stream_decode_after_common dbg R c r =
     rbind (debug_assert dbg (subtype_header_type (subtype c) = HStream)) (\<lambda>_.
     rbind (rd_bit R r) (\<lambda>(mr, r).
     rbind (rd_uint R 2 r) (\<lambda>(fsd, r).
     rbind (rd_bit R r) (\<lambda>(tv, r).
     rbind (rd_uint R 8 r) (\<lambda>(sn, r).
     rbind (rd_uint R 7 r) (\<lambda>(fsd1, r).
     rbind (rd_bit R r) (\<lambda>(tu, r).
     rbind (debug_assert dbg (rd_aligned R r)) (\<lambda>_.
     rbind (stream_id_decode R r) (\<lambda>(sid, r).
     rbind (rd_uint R 32 r) (\<lambda>(ts, r).
     rbind (rd_arr4 R r) (\<lambda>(fsd2, r).
     rbind (rd_uint R 16 r) (\<lambda>(len :: u16, r).
     rbind (rd_arr2 R r) (\<lambda>(fsd3, r).
     rbind (read_arc R r (unat len)) (\<lambda>(payload, r).
     Ok (\<lparr>generic = \<lparr>common = c, media_clock_restart = mr, avtp_timestamp_valid = tv,
            sequence_num = sn, timestamp_uncertain = tu, stream_id = sid,
            avtp_timestamp = ts_from_u32 ts\<rparr>,
          specific = \<lparr>format_specific_data = fsd, format_specific_data_1 = fsd1,
            format_specific_data_2 = fsd2, format_specific_data_3 = fsd3,
            stream_data_payload = payload\<rparr>\<rparr>, r)))))))))))))))"

definition stream_decode ::
    "bool \<Rightarrow> 'r bit_read_ops \<Rightarrow> 'r \<Rightarrow> (unknown_subtype io_wrap, stream_header \<times> 'r) res" where
  "stream_decode dbg R r =
     rbind (debug_assert dbg (rd_aligned R r)) (\<lambda>_.
     rbind (common_decode R r) (\<lambda>(c, r).
     rbind (map_err Io (stream_decode_after_common dbg R c r)) (\<lambda>(h, r).
     rbind (debug_assert dbg (rd_aligned R r)) (\<lambda>_.
     Ok (h, r)))))"

definition stream_encode ::
    "bool \<Rightarrow> 'w bit_write_ops \<Rightarrow> stream_header \<Rightarrow> 'w \<Rightarrow> (stream_data_error io_wrap, 'w) res" where
  "stream_encode dbg W h w =
     (let g = generic h; s = specific h in
      rbind (debug_assert dbg (subtype_header_type (subtype (common g)) = HStream)) (\<lambda>_.
      rbind (debug_assert dbg (wr_aligned W w)) (\<lambda>_.
      rbind (map_err Io (common_encode W (common g) w)) (\<lambda>w.
      rbind (map_err Io (wr_bit W (media_clock_restart g) w)) (\<lambda>w.
      rbind (map_err Io (wr_uint W 2 (format_specific_data s) w)) (\<lambda>w.
      rbind (map_err Io (wr_bit W (avtp_timestamp_valid g) w)) (\<lambda>w.
      rbind (map_err Io (wr_uint W 8 (sequence_num g) w)) (\<lambda>w.
      rbind (map_err Io (wr_uint W 7 (format_specific_data_1 s) w)) (\<lambda>w.
      rbind (map_err Io (wr_bit W (timestamp_uncertain g) w)) (\<lambda>w.
      rbind (debug_assert dbg (wr_aligned W w)) (\<lambda>_.
      rbind (map_err Io (stream_id_encode W (stream_id g) w)) (\<lambda>w.
      rbind (map_err Io (wr_uint W 32 (as_u32 (avtp_timestamp g)) w)) (\<lambda>w.
      rbind (map_err Io (wr_bytes W (arr4_list (format_specific_data_2 s)) w)) (\<lambda>w.
      (let len = length (stream_data_payload s) in
       rbind (ensure (len \<le> u16_max) (Specific (PayloadTooLarge len))) (\<lambda>_.
       rbind (map_err Io (wr_uint W 16 (of_nat len :: u16) w)) (\<lambda>w.
       rbind (map_err Io (wr_bytes W (arr2_list (format_specific_data_3 s)) w)) (\<lambda>w.
       rbind (map_err Io (wr_bytes W (stream_data_payload s) w)) (\<lambda>w.
       Ok w)))))))))))))))))))"

section \<open>The wire layout\<close>

definition stream_wf :: "stream_header \<Rightarrow> bool" where
  "stream_wf h \<longleftrightarrow> length (stream_data_payload (specific h)) \<le> u16_max"

definition stream_tail_bits :: "stream_header \<Rightarrow> bool list" where
  "stream_tail_bits h =
     (let g = generic h; s = specific h in
      [media_clock_restart g] @ word_bits (format_specific_data s) @ [avtp_timestamp_valid g] @
      word_bits (sequence_num g) @ word_bits (format_specific_data_1 s) @ [timestamp_uncertain g] @
      stream_id_bits (stream_id g) @ word_bits (as_u32 (avtp_timestamp g)) @
      bytes_bits (arr4_list (format_specific_data_2 s)) @
      word_bits (of_nat (length (stream_data_payload s)) :: u16) @
      bytes_bits (arr2_list (format_specific_data_3 s)) @ bytes_bits (stream_data_payload s))"

definition stream_bits :: "stream_header \<Rightarrow> bool list" where
  "stream_bits h = common_bits (common (generic h)) @ stream_tail_bits h"

lemma length_stream_tail_bits [simp]:
  "length (stream_tail_bits h) = 180 + 8 * length (stream_data_payload (specific h))"
  by (simp add: stream_tail_bits_def Let_def)

lemma length_stream_bits [simp]:
  "length (stream_bits h) = 192 + 8 * length (stream_data_payload (specific h))"
  by (simp add: stream_bits_def)

section \<open>Correctness of the codec\<close>

definition aligned_tail :: "bool \<Rightarrow> bool list \<Rightarrow> bool" where
  "aligned_tail dbg t \<longleftrightarrow> dbg \<longrightarrow> 8 dvd length t"

definition stream_wf_after :: "bool \<Rightarrow> common_header \<Rightarrow> stream_header \<Rightarrow> bool" where
  "stream_wf_after dbg c h \<longleftrightarrow> stream_wf h \<and> common (generic h) = c \<and>
     (dbg \<longrightarrow> subtype_header_type (subtype c) = HStream)"

context bit_writer_laws
begin

lemma stream_encode_emits:
  assumes w: "snk w = (s, k)" and f: "fits k (length s + length (stream_bits h))"
    and al: "dbg \<Longrightarrow> 8 dvd length s" and wf: "stream_wf h"
    and st: "dbg \<Longrightarrow> subtype_header_type (subtype (common (generic h))) = HStream"
  shows "emits snk k (s @ stream_bits h) (stream_encode dbg W h w)"
  unfolding stream_encode_def Let_def
  apply (rule emits_assert, erule st)
  apply (rule emits_assert, simp add: wr_aligned_iff [OF w] al)
  apply (rule hdr_then, (rule w | assumption), rule f, simp)+
  apply (rule emits_assert, drule al, simp add: wr_aligned_iff)
  apply (rule hdr_then, assumption, rule f, simp)+
  apply (rule emits_ensure, rule wf [unfolded stream_wf_def])
  apply (rule hdr_then, assumption, rule f, simp)+
  apply (rule emitsI, simp add: stream_bits_def stream_tail_bits_def Let_def)
  done

end

lemma stream_rebuild:
  "common (generic h) = c \<Longrightarrow>
   \<lparr>generic = \<lparr>common = c, media_clock_restart = media_clock_restart (generic h),
      avtp_timestamp_valid = avtp_timestamp_valid (generic h),
      sequence_num = sequence_num (generic h), timestamp_uncertain = timestamp_uncertain (generic h),
      stream_id = StreamHeader.stream_id (generic h),
      avtp_timestamp = ts_from_u32 (as_u32 (avtp_timestamp (generic h)))\<rparr>,
    specific = \<lparr>format_specific_data = format_specific_data (specific h),
      format_specific_data_1 = format_specific_data_1 (specific h),
      format_specific_data_2 = format_specific_data_2 (specific h),
      format_specific_data_3 = format_specific_data_3 (specific h),
      stream_data_payload = stream_data_payload (specific h)\<rparr>\<rparr> = h"
  by (cases h) (auto simp: ts_from_u32_def)

sublocale bit_reader_laws \<subseteq> stream_after_codec: bit_codec R rest "stream_wf_after dbg c"
  "aligned_tail dbg" stream_tail_bits "stream_decode_after_common dbg R c" for dbg c
proof
  fix h r t
  assume wf: "stream_wf_after dbg c h" and al: "aligned_tail dbg t"
    and r: "rest r = stream_tail_bits h @ t"
  have len: "length (stream_data_payload (specific h)) < 65536"
    using wf by (simp add: stream_wf_after_def stream_wf_def u16_max_def)
  show "yields rest h t (stream_decode_after_common dbg R c r)"
    unfolding stream_decode_after_common_def
    apply (insert r, simp only: stream_tail_bits_def Let_def append_assoc append_Cons append_Nil)
    apply (rule yields_assert, use wf in \<open>simp add: stream_wf_after_def\<close>)
    apply (rule rd_then1, assumption | rule rd_then2, assumption, simp)+
    apply (rule yields_assert, use al in \<open>simp add: aligned_iff aligned_tail_def\<close>)
    apply (rule yields_bind_split, rule stream_id_codec.dec_layout, simp, simp, assumption)
    apply (rule rd_then1, assumption | rule rd_then2, assumption, use len in simp)+
    apply (rule yields_eqI, use wf in \<open>simp add: stream_rebuild stream_wf_after_def\<close>, assumption)
    done
next
  fix h r r'
  assume "stream_decode_after_common dbg R c r = Ok (h, r')"
  then show "stream_wf_after dbg c h \<and> rest r = stream_tail_bits h @ rest r'"
    unfolding stream_decode_after_common_def
    apply (clarsimp simp only: run_simps)
    apply (drule rd_OkDs stream_id_codec.dec_sound | drule rd_uint_OkD, simp)+
    apply (simp (no_asm_simp) add: stream_wf_after_def stream_wf_def u16_max_def ts_from_u32_def
        stream_tail_bits_def Let_def unat_u16_le)
    done
qed

sublocale bit_reader_laws \<subseteq> stream_codec: bit_codec R rest
  "\<lambda>h. stream_wf_after dbg (common (generic h)) h" "aligned_tail dbg" stream_bits
  "stream_decode dbg R" for dbg
proof
  fix h r t
  assume wf: "stream_wf_after dbg (common (generic h)) h" and al: "aligned_tail dbg t"
    and r: "rest r = stream_bits h @ t"
  then show "yields rest h t (stream_decode dbg R r)"
    unfolding stream_decode_def
    apply (intro yields_assert)
     apply (simp add: aligned_iff aligned_tail_def)
    apply (rule yields_bind_split, rule common_codec.dec_layout)
       apply (simp_all add: stream_bits_def)
    apply (rule yields_bind_map, rule stream_after_codec.dec_layout, assumption+)
    apply (rule yields_assert, simp add: aligned_iff aligned_tail_def)
    apply (erule yieldsI)
    done
next
  fix h r r'
  assume "stream_decode dbg R r = Ok (h, r')"
  then show "stream_wf_after dbg (common (generic h)) h \<and> rest r = stream_bits h @ rest r'"
    by (auto simp: stream_decode_def stream_bits_def stream_wf_after_def
        dest!: common_codec.dec_sound stream_after_codec.dec_sound)
qed

context bit_reader_laws
begin

lemma stream_id_decode_eof_only [simp]: "eof_only (stream_id_decode R r)"
  unfolding stream_id_decode_def
  apply (rule eof_only_bind_split, simp)
  apply (drule rd_bytes_OkD)
  apply (auto intro!: eof_only_bind_split dest!: mac_from_Ok [where 'e = io_error])
  done

lemma stream_decode_after_eof_only:
  assumes "dbg \<Longrightarrow> subtype_header_type (subtype c) = HStream"
    and "dbg \<Longrightarrow> 8 dvd length (rest r) + 12"
  shows "eof_only (stream_decode_after_common dbg R c r)"
  unfolding stream_decode_after_common_def
  apply (rule eof_only_assert, erule assms(1))
  apply (rule eof_only_bind_split, simp, (drule rd_bit_OkD | drule rd_uint_OkD, simp))+
  apply (rule eof_only_assert)
   apply (drule assms(2), simp add: aligned_iff, presburger)
  apply (rule eof_only_bind_split, simp)+
  apply simp
  done

end

end
