(* ===== verification/ControlHeader.thy ===== *)
theory ControlHeader
  imports StreamHeader
begin

unbundle bit_operations_syntax

text \<open>
  \<^verbatim>\<open>src/avtp/headers/control.rs\<close> and \<^verbatim>\<open>src/avtp/headers/alternative.rs\<close>: the headers of control and
  of alternative AVTPDUs. Decoding an alternative header is \<^verbatim>\<open>todo!()\<close> in the source, so it panics.
\<close>

section \<open>Control headers\<close>

record control_header =
  ctl_common :: common_header
  ctl_format_specific_data :: "9 word"
  control_data_length :: "11 word"
  ctl_stream_id :: stream_id
  control_data_payload :: "byte list"

definition ctl_stream_id_valid :: "control_header \<Rightarrow> bool" where
  "ctl_stream_id_valid h = header_specific_bit (ctl_common h)"

definition control_decode_after_common ::
    "bool \<Rightarrow> 'r bit_read_ops \<Rightarrow> common_header \<Rightarrow> 'r \<Rightarrow> (io_error, control_header \<times> 'r) res" where
  "control_decode_after_common dbg R c r =
     rbind (debug_assert dbg (subtype_header_type (subtype c) = HControl)) (\<lambda>_.
     rbind (rd_uint R 9 r) (\<lambda>(fsd, r).
     rbind (rd_uint R 11 r) (\<lambda>(len, r).
     rbind (debug_assert dbg (rd_aligned R r)) (\<lambda>_.
     rbind (stream_id_decode R r) (\<lambda>(sid, r).
     rbind (read_arc R r (unat len)) (\<lambda>(payload, r).
     Ok (\<lparr>ctl_common = c, ctl_format_specific_data = fsd, control_data_length = len,
          ctl_stream_id = sid, control_data_payload = payload\<rparr>, r)))))))"

definition control_decode ::
    "bool \<Rightarrow> 'r bit_read_ops \<Rightarrow> 'r \<Rightarrow> (unknown_subtype io_wrap, control_header \<times> 'r) res" where
  "control_decode dbg R r =
     rbind (debug_assert dbg (rd_aligned R r)) (\<lambda>_.
     rbind (common_decode R r) (\<lambda>(c, r).
     rbind (map_err Io (control_decode_after_common dbg R c r)) (\<lambda>(h, r).
     rbind (debug_assert dbg (rd_aligned R r)) (\<lambda>_.
     Ok (h, r)))))"

definition control_encode ::
    "bool \<Rightarrow> 'w bit_write_ops \<Rightarrow> control_header \<Rightarrow> 'w \<Rightarrow> (io_error, 'w) res" where
  "control_encode dbg W h w =
     rbind (debug_assert dbg (subtype_header_type (subtype (ctl_common h)) = HControl)) (\<lambda>_.
     rbind (debug_assert dbg (wr_aligned W w)) (\<lambda>_.
     rbind (common_encode W (ctl_common h) w) (\<lambda>w.
     rbind (wr_uint W 9 (ctl_format_specific_data h) w) (\<lambda>w.
     rbind (wr_uint W 11 (control_data_length h) w) (\<lambda>w.
     rbind (debug_assert dbg (wr_aligned W w)) (\<lambda>_.
     rbind (stream_id_encode W (ctl_stream_id h) w) (\<lambda>w.
     rbind (debug_assert dbg
       (unat (control_data_length h) = length (control_data_payload h))) (\<lambda>_.
     rbind (wr_bytes W (control_data_payload h) w) (\<lambda>w.
     Ok w)))))))))"

definition control_wf :: "control_header \<Rightarrow> bool" where
  "control_wf h \<longleftrightarrow> unat (control_data_length h) = length (control_data_payload h)"

definition control_wf_after :: "bool \<Rightarrow> common_header \<Rightarrow> control_header \<Rightarrow> bool" where
  "control_wf_after dbg c h \<longleftrightarrow> control_wf h \<and> ctl_common h = c \<and>
     (dbg \<longrightarrow> subtype_header_type (subtype c) = HControl)"

definition control_tail_bits :: "control_header \<Rightarrow> bool list" where
  "control_tail_bits h =
     word_bits (ctl_format_specific_data h) @ word_bits (control_data_length h) @
     stream_id_bits (ctl_stream_id h) @ bytes_bits (control_data_payload h)"

definition control_bits :: "control_header \<Rightarrow> bool list" where
  "control_bits h = common_bits (ctl_common h) @ control_tail_bits h"

lemma length_control_bits [simp]:
  "length (control_tail_bits h) = 84 + 8 * length (control_data_payload h)"
  "length (control_bits h) = 96 + 8 * length (control_data_payload h)"
  by (simp_all add: control_tail_bits_def control_bits_def)

sublocale bit_reader_laws \<subseteq> control_after_codec: bit_codec R rest "control_wf_after dbg c"
  "aligned_tail dbg" control_tail_bits "control_decode_after_common dbg R c" for dbg c
proof
  fix h r t
  assume wf: "control_wf_after dbg c h" and al: "aligned_tail dbg t"
    and r: "rest r = control_tail_bits h @ t"
  show "yields rest h t (control_decode_after_common dbg R c r)"
    unfolding control_decode_after_common_def
    apply (insert r, simp only: control_tail_bits_def append_assoc)
    apply (rule yields_assert, use wf in \<open>simp add: control_wf_after_def\<close>)
    apply (rule rd_then2, assumption, simp)+
    apply (rule yields_assert, use al in \<open>simp add: aligned_iff aligned_tail_def\<close>)
    apply (rule yields_bind_split, rule stream_id_codec.dec_layout, simp, simp, assumption)
    apply (rule rd_then2, assumption, use wf in \<open>simp add: control_wf_after_def control_wf_def\<close>)
    apply (rule yields_eqI, use wf in \<open>auto simp: control_wf_after_def\<close>)
    done
next
  fix h r r'
  assume "control_decode_after_common dbg R c r = Ok (h, r')"
  then show "control_wf_after dbg c h \<and> rest r = control_tail_bits h @ rest r'"
    unfolding control_decode_after_common_def
    apply (clarsimp simp only: run_simps)
    apply (drule rd_OkDs stream_id_codec.dec_sound | drule rd_uint_OkD, simp)+
    apply (simp (no_asm_simp) add: control_wf_after_def control_wf_def control_tail_bits_def)
    done
qed

sublocale bit_reader_laws \<subseteq> control_codec: bit_codec R rest
  "\<lambda>h. control_wf_after dbg (ctl_common h) h" "aligned_tail dbg" control_bits
  "control_decode dbg R" for dbg
proof
  fix h r t
  assume "control_wf_after dbg (ctl_common h) h" "aligned_tail dbg t" "rest r = control_bits h @ t"
  then show "yields rest h t (control_decode dbg R r)"
    unfolding control_decode_def
    apply (intro yields_assert)
     apply (simp add: aligned_iff aligned_tail_def)
    apply (rule yields_bind_split, rule common_codec.dec_layout)
       apply (simp_all add: control_bits_def)
    apply (rule yields_bind_map, rule control_after_codec.dec_layout, assumption+)
    apply (rule yields_assert, simp add: aligned_iff aligned_tail_def)
    apply (erule yieldsI)
    done
next
  fix h r r'
  assume "control_decode dbg R r = Ok (h, r')"
  then show "control_wf_after dbg (ctl_common h) h \<and> rest r = control_bits h @ rest r'"
    by (auto simp: control_decode_def control_bits_def control_wf_after_def
        dest!: common_codec.dec_sound control_after_codec.dec_sound)
qed

context bit_reader_laws
begin

lemma control_decode_after_eof_only:
  assumes "dbg \<Longrightarrow> subtype_header_type (subtype c) = HControl"
    and "dbg \<Longrightarrow> 8 dvd length (rest r) + 12"
  shows "eof_only (control_decode_after_common dbg R c r)"
  unfolding control_decode_after_common_def
  apply (rule eof_only_assert, erule assms(1))
  apply (rule eof_only_bind_split, simp, drule rd_uint_OkD, simp)+
  apply (rule eof_only_assert)
   apply (drule assms(2), simp add: aligned_iff, presburger)
  apply (rule eof_only_bind_split, simp)+
  apply simp
  done

end

context bit_writer_laws
begin

lemma control_encode_emits:
  assumes w: "snk w = (s, k)" and f: "fits k (length s + length (control_bits h))"
    and al: "dbg \<Longrightarrow> 8 dvd length s" and wf: "dbg \<Longrightarrow> control_wf h"
    and st: "dbg \<Longrightarrow> subtype_header_type (subtype (ctl_common h)) = HControl"
  shows "emits snk k (s @ control_bits h) (control_encode dbg W h w)"
  unfolding control_encode_def
  apply (rule emits_assert, erule st)
  apply (rule emits_assert, simp add: wr_aligned_iff [OF w] al)
  apply (rule hdr_then, (rule w | assumption), rule f, simp)+
  apply (rule emits_assert, drule al, simp add: wr_aligned_iff)
  apply (rule hdr_then, assumption, rule f, simp)
  apply (rule emits_assert, drule wf, simp add: control_wf_def)
  apply (rule hdr_then, assumption, rule f, simp)
  apply (rule emitsI, simp add: control_bits_def control_tail_bits_def)
  done

end

section \<open>Alternative headers\<close>

record alternative_header =
  alt_common :: common_header
  alternative_data_payload :: "byte list"

text \<open>
  The subtype-dependent payload: \<^verbatim>\<open>unreachable!\<close> for the subtypes of the other two header types,
  \<^verbatim>\<open>todo!\<close> for those of this one.
\<close>

primrec alternative_payload :: "subtype \<Rightarrow> ('e, byte list) res" where
  "alternative_payload IEC_61883_IIDC = Panic"
| "alternative_payload MMA_STREAM = Panic"
| "alternative_payload AAF = Panic"
| "alternative_payload CVF = Panic"
| "alternative_payload TSCF = Panic"
| "alternative_payload SVF = Panic"
| "alternative_payload RVF = Panic"
| "alternative_payload VSF_STREAM = Panic"
| "alternative_payload EF_STREAM = Panic"
| "alternative_payload ADP = Panic"
| "alternative_payload AECP = Panic"
| "alternative_payload ACMP = Panic"
| "alternative_payload MAAP = Panic"
| "alternative_payload EF_CONTROL = Panic"
| "alternative_payload CRF = Panic"
| "alternative_payload AEF_CONTINUOUS = Panic"
| "alternative_payload NTSCF = Panic"
| "alternative_payload ESCF = Panic"
| "alternative_payload EECF = Panic"
| "alternative_payload AEF_DISCRETE = Panic"

definition alternative_decode_after_common ::
    "bool \<Rightarrow> 'r bit_read_ops \<Rightarrow> common_header \<Rightarrow> 'r \<Rightarrow> (io_error, alternative_header \<times> 'r) res" where
  "alternative_decode_after_common dbg R c r =
     rbind (debug_assert dbg (subtype_header_type (subtype c) = HAlternative)) (\<lambda>_.
     rbind (alternative_payload (subtype c)) (\<lambda>payload.
     Ok (\<lparr>alt_common = c, alternative_data_payload = payload\<rparr>, r)))"

definition alternative_decode ::
    "bool \<Rightarrow> 'r bit_read_ops \<Rightarrow> 'r \<Rightarrow> (unknown_subtype io_wrap, alternative_header \<times> 'r) res" where
  "alternative_decode dbg R r =
     rbind (debug_assert dbg (rd_aligned R r)) (\<lambda>_.
     rbind (common_decode R r) (\<lambda>(c, r).
     rbind (map_err Io (alternative_decode_after_common dbg R c r)) (\<lambda>(h, r).
     rbind (debug_assert dbg (rd_aligned R r)) (\<lambda>_.
     Ok (h, r)))))"

definition alternative_encode ::
    "bool \<Rightarrow> 'w bit_write_ops \<Rightarrow> alternative_header \<Rightarrow> 'w \<Rightarrow> (io_error, 'w) res" where
  "alternative_encode dbg W h w =
     rbind (debug_assert dbg (subtype_header_type (subtype (alt_common h)) = HAlternative)) (\<lambda>_.
     rbind (debug_assert dbg (wr_aligned W w)) (\<lambda>_.
     rbind (common_encode W (alt_common h) w) (\<lambda>w.
     rbind (if alternative_data_payload h \<noteq> [] then
              let last_byte = last (alternative_data_payload h);
                  rest = butlast (alternative_data_payload h) in
              rbind (wr_bytes W rest w) (\<lambda>w.
              rbind (debug_assert dbg (last_byte AND 0x0F = 0)) (\<lambda>_.
              wr_bits W 4 (unat (drop_bit 4 last_byte)) w))
            else wr_align W w) (\<lambda>w.
     rbind (debug_assert dbg (wr_aligned W w)) (\<lambda>_.
     Ok w)))))"

definition alternative_wf :: "alternative_header \<Rightarrow> bool" where
  "alternative_wf h \<longleftrightarrow>
     alternative_data_payload h = [] \<or> last (alternative_data_payload h) AND 0x0F = 0"

text \<open>On the wire the payload loses its last nibble, or gains one when it is empty.\<close>

definition alternative_bits :: "alternative_header \<Rightarrow> bool list" where
  "alternative_bits h = common_bits (alt_common h) @
     (if alternative_data_payload h = [] then replicate 4 False
      else take (8 * length (alternative_data_payload h) - 4)
             (bytes_bits (alternative_data_payload h)))"

lemma alternative_payload_Panic [simp]: "alternative_payload st = Panic"
  by (cases st) simp_all

lemma alternative_decode_after_Panic [simp]: "alternative_decode_after_common dbg R c r = Panic"
  by (simp add: alternative_decode_after_common_def debug_assert_def)

lemma nat_bits_take: "m \<le> n \<Longrightarrow> take m (nat_bits n v) = nat_bits m (v div 2 ^ (n - m))"
proof (induction n arbitrary: v)
  case (Suc n)
  show ?case
  proof (cases "m = Suc n")
    case False
    with Suc.prems have "m \<le> n" "Suc n - m = Suc (n - m)" by auto
    with Suc.IH [of "v div 2"] show ?thesis by (simp add: div_mult2_eq)
  qed simp
qed simp

lemma unat_drop_bit_4: "unat (drop_bit 4 (b :: byte)) = unat b div 16"
  by (simp add: drop_bit_eq_div unat_div_distrib)

lemma take4_word_bits: "take 4 (word_bits (b :: byte)) = nat_bits 4 (unat b div 16)"
  by (simp add: word_bits_def nat_bits_take)

lemma alternative_tail_snoc:
  "take (8 * length (xs @ [x]) - 4) (bytes_bits (xs @ [x])) =
   bytes_bits xs @ nat_bits 4 (unat x div 16)"
  by (simp add: take4_word_bits)

lemma length_alternative_bits [simp]:
  "length (alternative_bits h) =
     8 + 8 * (if alternative_data_payload h = [] then 1 else length (alternative_data_payload h))"
  by (cases "alternative_data_payload h") (auto simp: alternative_bits_def)

context bit_writer_laws
begin

lemma alternative_encode_emits:
  assumes w: "snk w = (s, k)" and f: "fits k (length s + length (alternative_bits h))"
    and al: "8 dvd length s" and wf: "dbg \<Longrightarrow> alternative_wf h"
    and st: "dbg \<Longrightarrow> subtype_header_type (subtype (alt_common h)) = HAlternative"
  shows "emits snk k (s @ alternative_bits h) (alternative_encode dbg W h w)"
proof (cases "alternative_data_payload h" rule: rev_cases)
  case Nil
  have "(length s + 12) mod 8 = 4" using al by presburger
  then have pad: "(8 - (length s + 12) mod 8) mod 8 = 4" by simp
  from f have f': "fits k (length s + 16)" by (simp add: Nil)
  show ?thesis
    unfolding alternative_encode_def
    apply (rule emits_assert, erule st)
    apply (rule emits_assert, simp add: wr_aligned_iff [OF w] al)
    apply (rule hdr_then, rule w, rule f', simp)
    apply (rule emits_bind)
     apply (simp add: Nil, rule wr_align_emits, assumption)
     apply (simp add: pad, use f' in \<open>simp add: add.commute\<close>)
    apply (rule emits_assert, simp add: wr_aligned_iff pad, use al in presburger)
    apply (rule emitsI, simp add: pad Nil alternative_bits_def)
    done
next
  case (snoc xs x)
  have x: "unat x div 16 < 16" using unat_byte_lt [of x] by (simp add: less_mult_imp_div_less)
  from f have f': "fits k (length s + 16 + 8 * length xs)" by (simp add: snoc add.assoc)
  show ?thesis
    unfolding alternative_encode_def
    apply (rule emits_assert, erule st)
    apply (rule emits_assert, simp add: wr_aligned_iff [OF w] al)
    apply (rule hdr_then, rule w, rule f', simp)
    apply (simp only: snoc Let_def last_snoc butlast_snoc snoc_eq_iff_butlast if_True simp_thms
        rbind_assoc append_is_Nil_conv list.distinct)
    apply (rule hdr_then, assumption, rule f', simp)
    apply (rule emits_assert, drule wf, simp add: alternative_wf_def snoc)
    apply (rule hdr_then, assumption, rule f', simp add: x unat_drop_bit_4)
    apply (rule emits_assert, simp add: wr_aligned_iff, use al in presburger)
    apply (rule emitsI, simp only: alternative_bits_def snoc alternative_tail_snoc unat_drop_bit_4)
    apply simp
    done
qed

end

end
