(* ===== verification/Avtpdu.thy ===== *)
theory Avtpdu
  imports ControlHeader
begin

text \<open>
  \<^verbatim>\<open>src/avtp/avtpdu.rs\<close>: the AVTPDU, a tagged union of the three header layouts, with its codec and
  the subtype check in front of a write.
\<close>

section \<open>The data unit\<close>

datatype incompatible_subtype = IncompatibleSubtype subtype header_type

datatype avtpdu_error =
    UnknownSubtypeError unknown_subtype
  | IncompatibleSubtypeError incompatible_subtype
  | StreamHeaderError stream_data_error

datatype avtpdu =
    Stream stream_header
  | Control control_header
  | Alternative alternative_header

primrec pdu_header_type :: "avtpdu \<Rightarrow> header_type" where
  "pdu_header_type (Stream h) = HStream"
| "pdu_header_type (Control h) = HControl"
| "pdu_header_type (Alternative h) = HAlternative"

primrec pdu_common_header :: "avtpdu \<Rightarrow> common_header" where
  "pdu_common_header (Stream h) = common (generic h)"
| "pdu_common_header (Control h) = ctl_common h"
| "pdu_common_header (Alternative h) = alt_common h"

definition pdu_subtype :: "avtpdu \<Rightarrow> subtype" where
  "pdu_subtype p = subtype (pdu_common_header p)"

definition validate_subtype :: "avtpdu \<Rightarrow> (incompatible_subtype, unit) res" where
  "validate_subtype p =
     (let st = pdu_subtype p; ht = pdu_header_type p in
      if subtype_header_type st \<noteq> ht then Err (IncompatibleSubtype st ht) else Ok ())"

section \<open>Codec\<close>

definition avtpdu_decode ::
    "bool \<Rightarrow> 'r bit_read_ops \<Rightarrow> 'r \<Rightarrow> (avtpdu_error io_wrap, avtpdu \<times> 'r) res" where
  "avtpdu_decode dbg R r =
     rbind (map_err (map_specific UnknownSubtypeError) (common_decode R r)) (\<lambda>(c, r).
     case subtype_header_type (subtype c) of
       HStream \<Rightarrow>
         rbind (map_err Io (stream_decode_after_common dbg R c r)) (\<lambda>(h, r). Ok (Stream h, r))
     | HControl \<Rightarrow>
         rbind (map_err Io (control_decode_after_common dbg R c r)) (\<lambda>(h, r). Ok (Control h, r))
     | HAlternative \<Rightarrow>
         rbind (map_err Io (alternative_decode_after_common dbg R c r)) (\<lambda>(h, r).
         Ok (Alternative h, r)))"

primrec avtpdu_encode ::
    "bool \<Rightarrow> 'w bit_write_ops \<Rightarrow> avtpdu \<Rightarrow> 'w \<Rightarrow> (avtpdu_error io_wrap, 'w) res" where
  "avtpdu_encode dbg W (Stream h) w =
     map_err (map_specific StreamHeaderError) (stream_encode dbg W h w)"
| "avtpdu_encode dbg W (Control h) w = map_err Io (control_encode dbg W h w)"
| "avtpdu_encode dbg W (Alternative h) w = map_err Io (alternative_encode dbg W h w)"

text \<open>
  \<^verbatim>\<open>write\<close> and \<^verbatim>\<open>read\<close> wrap the byte stream in a fresh bit writer or reader, which is the \<open>w\<close> or \<open>r\<close>
  they are given here.
\<close>

definition avtpdu_write ::
    "bool \<Rightarrow> 'w bit_write_ops \<Rightarrow> avtpdu \<Rightarrow> 'w \<Rightarrow> (avtpdu_error io_wrap, 'w) res" where
  "avtpdu_write dbg W p w =
     rbind (map_err (\<lambda>e. Specific (IncompatibleSubtypeError e)) (validate_subtype p)) (\<lambda>_.
     rbind (avtpdu_encode dbg W p w) (\<lambda>w.
     rbind (debug_assert dbg (wr_aligned W w)) (\<lambda>_.
     Ok w)))"

definition avtpdu_read ::
    "bool \<Rightarrow> 'r bit_read_ops \<Rightarrow> 'r \<Rightarrow> (avtpdu_error io_wrap, avtpdu \<times> 'r) res" where
  "avtpdu_read dbg R r = avtpdu_decode dbg R r"

section \<open>The wire format\<close>

primrec avtpdu_bits :: "avtpdu \<Rightarrow> bool list" where
  "avtpdu_bits (Stream h) = stream_bits h"
| "avtpdu_bits (Control h) = control_bits h"
| "avtpdu_bits (Alternative h) = alternative_bits h"

primrec pdu_payload_ok :: "avtpdu \<Rightarrow> bool" where
  "pdu_payload_ok (Stream h) = stream_wf h"
| "pdu_payload_ok (Control h) = control_wf h"
| "pdu_payload_ok (Alternative h) = alternative_wf h"

definition pdu_typed :: "avtpdu \<Rightarrow> bool" where
  "pdu_typed p \<longleftrightarrow> subtype_header_type (pdu_subtype p) = pdu_header_type p"

definition pdu_decodable :: "avtpdu \<Rightarrow> bool" where
  "pdu_decodable p \<longleftrightarrow> pdu_typed p \<and> pdu_payload_ok p \<and> pdu_header_type p \<noteq> HAlternative"

lemmas pdu_defs = pdu_typed_def pdu_decodable_def pdu_subtype_def

lemma validate_subtype_Ok [simp]: "validate_subtype p = Ok u \<longleftrightarrow> pdu_typed p"
  by (simp add: validate_subtype_def pdu_typed_def Let_def)

lemma validate_subtype_typed: "pdu_typed p \<Longrightarrow> validate_subtype p = Ok ()"
  by simp

lemma avtpdu_bits_octets: "8 dvd length (avtpdu_bits p)"
  by (cases p) auto

sublocale bit_reader_laws \<subseteq> avtpdu_codec:
  bit_codec R rest pdu_decodable "aligned_tail dbg" avtpdu_bits "avtpdu_read dbg R" for dbg
proof
  fix p r t
  assume p: "pdu_decodable p" and al: "aligned_tail dbg t" and r: "rest r = avtpdu_bits p @ t"
  show "yields rest p t (avtpdu_read dbg R r)"
  proof (cases p)
    case (Stream h)
    with p have "stream_wf_after dbg (common (generic h)) h" "subtype_header_type (subtype (common (generic h))) = HStream"
      by (simp_all add: pdu_defs stream_wf_after_def)
    with r al show ?thesis
      unfolding avtpdu_read_def avtpdu_decode_def Stream
      apply (intro yields_bind_map, rule_tac common_codec.dec_layout)
         apply (simp_all add: stream_bits_def)
      apply (simp only: header_type.case)
      apply (rule yields_bind_map, rule stream_after_codec.dec_layout, assumption+)
      apply (erule yieldsI)
      done
  next
    case (Control h)
    with p have "control_wf_after dbg (ctl_common h) h" "subtype_header_type (subtype (ctl_common h)) = HControl"
      by (simp_all add: pdu_defs control_wf_after_def)
    with r al show ?thesis
      unfolding avtpdu_read_def avtpdu_decode_def Control
      apply (intro yields_bind_map, rule_tac common_codec.dec_layout)
         apply (simp_all add: control_bits_def)
      apply (simp only: header_type.case)
      apply (rule yields_bind_map, rule control_after_codec.dec_layout, assumption+)
      apply (erule yieldsI)
      done
  next
    case (Alternative h)
    with p show ?thesis by (simp add: pdu_defs)
  qed
next
  fix p r r'
  assume "avtpdu_read dbg R r = Ok (p, r')"
  then obtain c r1 where c: "common_decode R r = Ok (c, r1)"
    by (auto simp: avtpdu_read_def avtpdu_decode_def)
  with \<open>avtpdu_read dbg R r = Ok (p, r')\<close> show "pdu_decodable p \<and> rest r = avtpdu_bits p @ rest r'"
    by (cases "subtype_header_type (subtype c)")
      (auto simp: avtpdu_read_def avtpdu_decode_def pdu_defs stream_wf_after_def
        control_wf_after_def stream_bits_def control_bits_def
        dest!: common_codec.dec_sound stream_after_codec.dec_sound control_after_codec.dec_sound)
qed

context bit_writer_laws
begin

lemma avtpdu_encode_emits:
  assumes "snk w = (s, k)" "8 dvd length s" "fits k (length s + length (avtpdu_bits p))"
    "pdu_typed p" "pdu_payload_ok p"
  shows "emits snk k (s @ avtpdu_bits p) (avtpdu_encode dbg W p w)"
proof (cases p)
  case (Stream h)
  then show ?thesis using stream_encode_emits [of w s k h dbg] assms by (simp add: pdu_defs)
next
  case (Control h)
  then show ?thesis using control_encode_emits [of w s k h dbg] assms by (simp add: pdu_defs)
next
  case (Alternative h)
  then show ?thesis using alternative_encode_emits [of w s k h dbg] assms by (simp add: pdu_defs)
qed

lemma avtpdu_write_emits:
  assumes "snk w = (s, k)" "8 dvd length s" "fits k (length s + length (avtpdu_bits p))"
    "pdu_typed p" "pdu_payload_ok p"
  shows "emits snk k (s @ avtpdu_bits p) (avtpdu_write dbg W p w)"
  unfolding avtpdu_write_def validate_subtype_typed [OF assms(4)] map_err.simps rbind.simps
  apply (rule emits_bind, rule avtpdu_encode_emits, (rule assms)+)
  apply (rule emits_assert, simp add: wr_aligned_iff avtpdu_bits_octets assms(2))
  apply (erule emitsI)
  done

text \<open>Onto a byte vector that already holds something.\<close>

lemma avtpdu_append_vec:
  assumes "pdu_typed p" "pdu_payload_ok p"
  shows "\<exists>w bs. avtpdu_write dbg W p (wr_vec W pre) = Ok w \<and> wr_buffer W w = pre @ bs \<and>
    bytes_bits bs = avtpdu_bits p"
proof -
  have s: "snk (wr_vec W pre) = (bytes_bits pre, None)" by (simp add: snk_vec)
  have pre: "8 dvd length (bytes_bits pre)" by simp
  from avtpdu_write_emits [OF s pre _ assms] obtain w
    where w: "avtpdu_write dbg W p (wr_vec W pre) = Ok w" "snk w = (bytes_bits pre @ avtpdu_bits p, None)"
    by (auto simp: emits_def)
  obtain n where "length (avtpdu_bits p) = 8 * n" using avtpdu_bits_octets by blast
  then have b: "bytes_bits (bits_bytes (avtpdu_bits p)) = avtpdu_bits p" using bytes_bits_bits_bytes by blast
  have "8 dvd length (bytes_bits pre @ avtpdu_bits p)" using pre avtpdu_bits_octets by (simp add: dvd_add)
  with wr_buffer_full [OF w(2)] have "wr_buffer W w = bits_bytes (bytes_bits pre @ avtpdu_bits p)" by simp
  also have "bytes_bits pre @ avtpdu_bits p = bytes_bits (pre @ bits_bytes (avtpdu_bits p))" by (simp add: b)
  finally have "wr_buffer W w = pre @ bits_bytes (avtpdu_bits p)" by (simp only: bits_bytes_bytes_bits)
  with w(1) b show ?thesis by blast
qed

lemma avtpdu_write_vec:
  assumes "pdu_typed p" "pdu_payload_ok p"
  shows "\<exists>w. avtpdu_write dbg W p (wr_vec W []) = Ok w \<and> bytes_bits (wr_buffer W w) = avtpdu_bits p"
  using avtpdu_append_vec [OF assms, of dbg "[]"] by auto

text \<open>A stream payload beyond \<^verbatim>\<open>u16::MAX\<close> bytes stops the encoder at the length field.\<close>

lemma stream_encode_too_large:
  assumes w: "snk w = ([], k)" and f: "fits k 192"
    and big: "\<not> stream_wf h"
    and st: "subtype_header_type (subtype (common (generic h))) = HStream"
  shows "stream_encode dbg W h w =
    Err (Specific (PayloadTooLarge (length (stream_data_payload (specific h)))))"
    (is "?m = Err ?e")
proof -
  have step: "rbind m g = Err ?e"
    if "emits snk k t m" "\<And>w. snk w = (t, k) \<Longrightarrow> g w = Err ?e" for m t and g :: "'w \<Rightarrow> (_, 'w) res"
    using that by (auto simp: emits_def)
  have stepm: "rbind (map_err Io m) g = Err ?e"
    if "emits snk k t m" "\<And>w. snk w = (t, k) \<Longrightarrow> g w = Err ?e" for m t and g :: "'w \<Rightarrow> (_, 'w) res"
    using that by (auto simp: emits_def)
  have asrt: "rbind (debug_assert dbg q) g = Err ?e"
    if "q" "g () = Err ?e" for q and g :: "unit \<Rightarrow> (_, 'w) res"
    using that by simp
  show ?thesis
    unfolding stream_encode_def Let_def
    apply (rule asrt, rule st)
    apply (rule asrt, simp add: wr_aligned_iff [OF w])
    apply (rule stepm, (rule hdr_within wr_within), (rule w | assumption), rule f, simp)+
    apply (rule asrt, simp add: wr_aligned_iff)
    apply (rule stepm, (rule hdr_within wr_within), assumption, rule f, simp)+
    using big
    apply (simp add: stream_wf_def ensure_def)
    done
qed

end

section \<open>Outcomes of a read\<close>

context bit_reader_laws
begin

lemmas avtpdu_read_layout = avtpdu_codec.dec_layout
lemmas avtpdu_read_sound = avtpdu_codec.dec_sound

lemma common_decode_unknown:
  assumes "rest r = word_bits b @ t" "\<forall>st. b \<noteq> subtype_u8 st"
  shows "common_decode R r = Err (Specific (UnknownSubtype b))"
proof -
  from rd_uint_yields [OF assms(1), of 8] obtain r' where "rd_uint R 8 r = Ok (b, r')"
    by (auto simp: yields_def)
  moreover have "subtype_try_from b = Err (UnknownSubtype b)"
    using assms(2) by (simp add: subtype_try_from_eq_Err)
  ultimately show ?thesis by (simp add: common_decode_def subtype_decode_def)
qed

lemma common_decode_short:
  assumes "length (rest r) < 8"
  shows "common_decode R r = Err (Io UnexpectedEof)"
proof -
  have "(rd_uint R 8 r :: (io_error, byte \<times> 'r) res) = Err UnexpectedEof"
    by (rule rd_uint_cases [of 8 r, where 'a = 8]) (use assms in auto)
  then show ?thesis by (simp add: common_decode_def subtype_decode_def)
qed

lemma common_decode_known:
  assumes "rest r = subtype_bits st @ t"
  obtains c r' where "common_decode R r = Ok (c, r')" "subtype c = st"
      "4 + length (rest r') = length t"
    | "common_decode R r = Err (Io UnexpectedEof)" "length t < 4"
proof -
  from subtype_codec.dec_layout [OF TrueI TrueI assms] obtain r1
    where 1: "subtype_decode R r = Ok (st, r1)" "rest r1 = t"
    by (auto simp: yields_def)
  show thesis
  proof (cases rule: rd_bit_cases [of r1])
    case bit: (1 b r2)
    have t: "t = b # rest r2" unfolding 1(2) [symmetric] by (rule rd_bit_OkD [OF bit(1)])
    show thesis
    proof (rule rd_uint_cases [of 3 r2, where 'a = 3])
      fix v r3
      assume u: "rd_uint R 3 r2 = Ok (v :: 3 word, r3)"
      have "rest r2 = word_bits v @ rest r3" by (rule rd_uint_OkD [OF u]) simp
      then have "length (rest r2) = 3 + length (rest r3)" by (simp only: length_append) simp
      moreover have "common_decode R r =
          Ok (\<lparr>subtype = st, header_specific_bit = b, version = v\<rparr>, r3)"
        using 1(1) bit(1) u by (simp add: common_decode_def)
      ultimately show thesis using that(1) t by simp
    next
      assume u: "(rd_uint R 3 r2 :: (io_error, 3 word \<times> 'r) res) = Err UnexpectedEof"
        and "length (rest r2) < 3"
      moreover have "common_decode R r = Err (Io UnexpectedEof)"
        using 1(1) bit(1) u by (simp add: common_decode_def)
      ultimately show thesis using that(2) t by simp
    qed simp
  next
    case 2
    then have "common_decode R r = Err (Io UnexpectedEof)"
      using 1(1) 2(1) by (simp add: common_decode_def)
    then show thesis using that(2) 2(2) 1(2) by simp
  qed
qed

lemma avtpdu_read_known:
  assumes r: "rest r = subtype_bits st @ t" and al: "8 dvd length t"
  shows "(t \<noteq> [] \<and> subtype_header_type st = HAlternative \<and> avtpdu_read dbg R r = Panic) \<or>
    ((t = [] \<or> subtype_header_type st \<noteq> HAlternative) \<and>
     ((\<exists>x. avtpdu_read dbg R r = Ok x) \<or> avtpdu_read dbg R r = Err (Io UnexpectedEof)))"
proof (cases rule: common_decode_known [OF r])
  case (1 c r')
  then have ne: "t \<noteq> []" by auto
  from 1(3) al have al': "8 dvd length (rest r') + 12" by presburger
  have "eof_only (stream_decode_after_common dbg R c r')" if "subtype_header_type st = HStream"
    using stream_decode_after_eof_only [of dbg c r'] that 1(2) al' by blast
  moreover have "eof_only (control_decode_after_common dbg R c r')" if "subtype_header_type st = HControl"
    using control_decode_after_eof_only [of dbg c r'] that 1(2) al' by blast
  ultimately show ?thesis
    using ne 1(1,2)
    by (cases "subtype_header_type st") (auto simp: avtpdu_read_def avtpdu_decode_def eof_only_def)
next
  case 2
  have "t = []" using 2(2) al by (auto dest: dvd_imp_le)
  with 2 show ?thesis by (simp add: avtpdu_read_def avtpdu_decode_def)
qed

end

section \<open>Properties\<close>

definition sample_header :: stream_header where
  "sample_header =
     \<lparr>generic = \<lparr>common = \<lparr>subtype = AAF, header_specific_bit = True, version = 0\<rparr>,
        media_clock_restart = False, avtp_timestamp_valid = True, sequence_num = 7,
        timestamp_uncertain = False,
        stream_id = \<lparr>mac_address = MacAddr 2 0 0 0 0 1, unique_id = 258\<rparr>,
        avtp_timestamp = AvtpTimestamp 305419896\<rparr>,
      specific = \<lparr>format_specific_data = 0, format_specific_data_1 = 0,
        format_specific_data_2 = (4, 80, 1, 16), format_specific_data_3 = (0, 0),
        stream_data_payload = [18, 52]\<rparr>\<rparr>"

lemma sample_decodable: "pdu_decodable (Stream sample_header)"
  by (simp add: pdu_defs sample_header_def stream_wf_def u16_max_def)

lemma avtpdu_write_then_read:
  assumes "bit_writer_laws W snk" "bit_reader_laws R rest" "pdu_decodable p"
  shows "\<exists>w r. avtpdu_write dbg W p (wr_vec W []) = Ok w \<and>
    avtpdu_read dbg' R (rd_slice R (wr_buffer W w @ extra)) = Ok (p, r) \<and> rest r = bytes_bits extra"
proof -
  from bit_writer_laws.avtpdu_write_vec [OF assms(1)] assms(3) obtain w
    where w: "avtpdu_write dbg W p (wr_vec W []) = Ok w" "bytes_bits (wr_buffer W w) = avtpdu_bits p"
    unfolding pdu_decodable_def by blast
  then have "rest (rd_slice R (wr_buffer W w @ extra)) = avtpdu_bits p @ bytes_bits extra"
    by (simp add: bit_reader_laws.rest_slice [OF assms(2)])
  from bit_reader_laws.avtpdu_read_layout [OF assms(2,3) _ this] w(1) show ?thesis
    by (auto simp: yields_def aligned_tail_def)
qed

text \<open>C3: Writing an AVTPDU into a buffer and reading the buffer back returns the same AVTPDU and
  leaves exactly the bytes that followed it, in debug and release builds, for every bit writer and
  reader that behave as \<^verbatim>\<open>bitstream_io\<close> documents.\<close>

theorem avtpdu_write_read:
  assumes "bit_writer_laws W snk" "bit_reader_laws R rest" "pdu_decodable p"
  shows "\<exists>w r. avtpdu_write dbg W p (wr_vec W []) = Ok w \<and>
    avtpdu_read dbg' R (rd_slice R (wr_buffer W w @ extra)) = Ok (p, r) \<and> rest r = bytes_bits extra"
  by (rule avtpdu_write_then_read [OF assms])

theorem avtpdu_write_read_witness:
  "\<exists>w r. avtpdu_write True mem_writer (Stream sample_header) (wr_vec mem_writer []) = Ok w \<and>
    avtpdu_read True mem_reader (rd_slice mem_reader (wr_buffer mem_writer w @ [255])) =
      Ok (Stream sample_header, r) \<and> r = bytes_bits [255]"
  by (rule avtpdu_write_read [OF mem_wr.bit_writer_laws_axioms mem_rd.bit_reader_laws_axioms
        sample_decodable])

text \<open>C12: The wire format is canonical: whatever AVTPDU is read from a byte string, writing it gives
  back exactly the bytes that were consumed.\<close>

theorem avtpdu_read_write:
  assumes "bit_writer_laws W snk" "bit_reader_laws R rest"
    and "avtpdu_read dbg R (rd_slice R bs) = Ok (p, r)"
  shows "\<exists>w. avtpdu_write dbg' W p (wr_vec W []) = Ok w \<and>
    bytes_bits bs = bytes_bits (wr_buffer W w) @ rest r"
  using bit_reader_laws.avtpdu_read_sound [OF assms(2,3)]
    bit_writer_laws.avtpdu_write_vec [OF assms(1), of p dbg'] bit_reader_laws.rest_slice [OF assms(2)]
  unfolding pdu_decodable_def by metis

lemma sample_bytes_read:
  "avtpdu_read True mem_reader (rd_slice mem_reader [2, 0x81, 7, 0, 2, 0, 0, 0, 0, 1, 1, 2,
     18, 52, 86, 120, 4, 80, 1, 16, 0, 2, 0, 0, 18, 52, 99]) =
   Ok (Stream sample_header, bytes_bits [99])"
proof -
  have fields: "word_bits (305419896 :: u32) = bytes_bits [18, 52, 86, 120]"
      "word_bits (258 :: u16) = bytes_bits [1, 2]" "word_bits (2 :: u16) = bytes_bits [0, 2]"
      "word_bits (0x81 :: byte) = [True, False, False, False, False, False, False, True]"
      "word_bits (0 :: byte) = [False, False, False, False, False, False, False, False]"
      "word_bits (0 :: 7 word) = [False, False, False, False, False, False, False]"
      "word_bits (0 :: 3 word) = [False, False, False]" "word_bits (0 :: 2 word) = [False, False]"
    by (simp_all add: word_bits_def nat_bits_numeral)
  have "bytes_bits [2, 0x81, 7, 0, 2, 0, 0, 0, 0, 1, 1, 2, 18, 52, 86, 120, 4, 80, 1, 16, 0, 2, 0, 0,
      18, 52, 99] = avtpdu_bits (Stream sample_header) @ bytes_bits [99]"
    by (simp add: sample_header_def stream_bits_def stream_tail_bits_def common_bits_def
        subtype_bits_def stream_id_bits_def fields)
  from mem_rd.avtpdu_read_layout [OF sample_decodable _ this] show ?thesis
    by (simp add: aligned_tail_def yields_def mem_reader_def)
qed

theorem avtpdu_read_write_witness:
  "\<exists>w. avtpdu_write True mem_writer (Stream sample_header) (wr_vec mem_writer []) = Ok w \<and>
    bytes_bits [2, 0x81, 7, 0, 2, 0, 0, 0, 0, 1, 1, 2, 18, 52, 86, 120, 4, 80, 1, 16, 0, 2, 0, 0,
      18, 52, 99] = bytes_bits (wr_buffer mem_writer w) @ bytes_bits [99]"
  by (rule avtpdu_read_write [OF mem_wr.bit_writer_laws_axioms mem_rd.bit_reader_laws_axioms
        sample_bytes_read])



end
