(* ===== verification/F64.thy ===== *)
theory F64
  imports Complex_Main "HOL-Library.Word"
begin

text \<open>
  The double-precision arithmetic of \<^verbatim>\<open>src/avtp/synchronizer.rs\<close>. A finite \<^verbatim>\<open>f64\<close> is the rational it
  denotes; each operation is the exact one followed by \<open>rnd\<close>, rounding to a 53-bit significand, ties
  to even. The exponent is unbounded here: the values of the clock lie between about \<open>10 ^ - 30\<close> and
  \<open>10 ^ 31\<close> in magnitude, or are zero, so no operation of the source overflows, underflows or divides
  by zero.
\<close>

section \<open>Binary logarithms\<close>

fun ilog2 :: "nat \<Rightarrow> nat" where
  "ilog2 n = (if n \<le> 1 then 0 else Suc (ilog2 (n div 2)))"

declare ilog2.simps [simp del]

lemma ilog2_bounds: "0 < n \<Longrightarrow> 2 ^ ilog2 n \<le> n \<and> n < 2 ^ Suc (ilog2 n)"
proof (induction n rule: ilog2.induct)
  case (1 n)
  show ?case
  proof (cases "n \<le> 1")
    case True
    with "1.prems" show ?thesis by (simp add: ilog2.simps [of n])
  next
    case False
    define k where "k = (2 :: nat) ^ ilog2 (n div 2)"
    have "k \<le> n div 2" "n div 2 < 2 * k" using False "1.IH" by (simp_all add: k_def)
    then have "2 * k \<le> n \<and> n < 4 * k" by presburger
    moreover have "(2 :: nat) ^ ilog2 n = 2 * k" using False by (simp add: ilog2.simps [of n] k_def)
    ultimately show ?thesis by simp
  qed
qed

text \<open>\<open>pow2 e\<close> for a signed exponent, and the exponent of a positive rational.\<close>

definition pow2 :: "int \<Rightarrow> rat" where
  "pow2 e = (if 0 \<le> e then 2 ^ nat e else 1 / 2 ^ nat (- e))"

definition rat_exp :: "rat \<Rightarrow> int" where
  "rat_exp x =
     (case quotient_of x of (p, q) \<Rightarrow>
      let e = int (ilog2 (nat p)) - int (ilog2 (nat q)) in if pow2 e \<le> x then e else e - 1)"

lemma pow2_pos [simp]: "0 < pow2 e"
  by (simp add: pow2_def)

lemma pow2_powi: "pow2 e = 2 powi e"
  by (simp add: pow2_def power_int_def inverse_eq_divide power_one_over)

lemma pow2_add: "pow2 (a + b) = pow2 a * pow2 b"
  by (simp add: pow2_powi power_int_add)

lemma pow2_mono: "a \<le> b \<Longrightarrow> pow2 a \<le> pow2 b"
  by (simp add: pow2_powi power_int_increasing)

lemma pow2_int: "pow2 (int n) = 2 ^ n"
  by (simp add: pow2_def)

lemma rat_exp_bounds:
  assumes "0 < x"
  shows "pow2 (rat_exp x) \<le> x" "x < pow2 (rat_exp x + 1)"
proof -
  obtain p q where pq: "quotient_of x = (p, q)" by (rule prod.exhaust)
  have x: "x = of_int p / of_int q" and q: "0 < q"
    using quotient_of_div [OF pq] quotient_of_denom_pos [OF pq] by auto
  with assms have p: "0 < p" by (simp add: zero_less_divide_iff)
  define a b where "a = ilog2 (nat p)" and "b = ilog2 (nat q)"
  have ab: "2 ^ a \<le> nat p" "nat p < 2 ^ Suc a" "2 ^ b \<le> nat q" "nat q < 2 ^ Suc b"
    using p q ilog2_bounds [of "nat p"] ilog2_bounds [of "nat q"] by (simp_all add: a_def b_def)
  then have "of_nat (2 ^ a) \<le> (of_nat (nat p) :: rat)" "(of_nat (nat p) :: rat) < of_nat (2 ^ Suc a)"
    "of_nat (2 ^ b) \<le> (of_nat (nat q) :: rat)" "(of_nat (nat q) :: rat) < of_nat (2 ^ Suc b)"
    by (simp_all only: of_nat_le_iff of_nat_less_iff)
  then have r: "2 ^ a \<le> (of_int p :: rat)" "(of_int p :: rat) < 2 * 2 ^ a"
    "2 ^ b \<le> (of_int q :: rat)" "(of_int q :: rat) < 2 * 2 ^ b"
    using p q by simp_all
  define e where "e = int a - int b"
  have pe: "pow2 e * 2 ^ b = 2 ^ a"
    using pow2_add [of e "int b"] by (simp add: e_def pow2_int)
  have qpos: "0 < (of_int q :: rat)" using q by simp
  have "x < pow2 (e + 1)"
  proof -
    have "of_int p < 2 * pow2 e * 2 ^ b" using r(2) pe by simp
    also have "\<dots> \<le> 2 * pow2 e * of_int q"
      using r(3) by (intro mult_left_mono) (simp_all add: less_imp_le)
    finally show ?thesis unfolding x using qpos by (simp add: divide_less_eq pow2_add) (simp add: pow2_def)
  qed
  moreover have "pow2 (e - 1) \<le> x"
  proof -
    have h: "pow2 e = 2 * pow2 (e - 1)" using pow2_add [of "e - 1" 1] by (simp add: pow2_def [of 1])
    have "pow2 (e - 1) * of_int q \<le> pow2 (e - 1) * (2 * 2 ^ b)"
      using r(4) by (intro mult_left_mono) (simp_all add: less_imp_le)
    also have "\<dots> = 2 ^ a" using pe h by simp
    also have "\<dots> \<le> of_int p" by (rule r(1))
    finally show ?thesis unfolding x using qpos by (simp add: le_divide_eq)
  qed
  moreover have "rat_exp x = (if pow2 e \<le> x then e else e - 1)"
    by (simp add: rat_exp_def pq a_def b_def e_def Let_def)
  ultimately show "pow2 (rat_exp x) \<le> x" "x < pow2 (rat_exp x + 1)" by auto
qed

section \<open>Rounding\<close>

text \<open>To the nearest integer, ties to even; and \<^verbatim>\<open>f64::round\<close>, ties away from zero.\<close>

definition round_even :: "rat \<Rightarrow> int" where
  "round_even x =
     (let f = \<lfloor>x\<rfloor>; d = x - of_int f in
      if d < 1 / 2 then f else if 1 / 2 < d then f + 1 else if even f then f else f + 1)"

definition round_away :: "rat \<Rightarrow> int" where
  "round_away x = (if 0 \<le> x then \<lfloor>x + 1 / 2\<rfloor> else - \<lfloor>- x + 1 / 2\<rfloor>)"

definition trunc_zero :: "rat \<Rightarrow> int" where
  "trunc_zero x = (if 0 \<le> x then \<lfloor>x\<rfloor> else - \<lfloor>- x\<rfloor>)"

definition rnd :: "rat \<Rightarrow> rat" where
  "rnd x =
     (if x = 0 then 0
      else let u = pow2 (rat_exp \<bar>x\<bar> - 52) in of_int (round_even (x / u)) * u)"

lemma round_even_err: "\<bar>of_int (round_even x) - x\<bar> \<le> 1 / 2"
proof -
  have "of_int \<lfloor>x\<rfloor> \<le> x" "x < of_int \<lfloor>x\<rfloor> + 1" by linarith+
  then show ?thesis by (auto simp: round_even_def Let_def abs_le_iff)
qed

lemma round_even_int [simp]: "round_even (of_int n) = n"
  by (simp add: round_even_def)

text \<open>The relative error of a rounding is at most half a unit in the last place.\<close>

lemma rnd_err: "\<bar>rnd x - x\<bar> \<le> \<bar>x\<bar> / 2 ^ 53"
proof (cases "x = 0")
  case False
  define u where "u = pow2 (rat_exp \<bar>x\<bar> - 52)"
  have u: "0 < u" by (simp add: u_def)
  have "rnd x - x = (of_int (round_even (x / u)) - x / u) * u"
    using False u by (simp add: rnd_def u_def [symmetric] Let_def algebra_simps)
  then have "\<bar>rnd x - x\<bar> = \<bar>of_int (round_even (x / u)) - x / u\<bar> * u"
    using u by (simp add: abs_mult)
  also have "\<dots> \<le> 1 / 2 * u" using round_even_err u by (intro mult_right_mono) simp_all
  also have "\<dots> = pow2 (rat_exp \<bar>x\<bar>) / 2 ^ 53"
    using pow2_add [of "rat_exp \<bar>x\<bar> - 52" 52] by (simp add: u_def pow2_def [of 52])
  also have "\<dots> \<le> \<bar>x\<bar> / 2 ^ 53"
    using rat_exp_bounds(1) [of "\<bar>x\<bar>"] False by (intro divide_right_mono) simp_all
  finally show ?thesis .
qed (simp add: rnd_def)

lemma rnd_0 [simp]: "rnd 0 = 0"
  by (simp add: rnd_def)

text \<open>Integers of at most 53 bits are exact.\<close>

lemma rnd_int:
  assumes "\<bar>n\<bar> < 2 ^ 53"
  shows "rnd (of_int n) = of_int n"
proof (cases "n = 0")
  case False
  define e where "e = rat_exp \<bar>of_int n\<bar>"
  have "pow2 e \<le> of_int \<bar>n\<bar>"
    using rat_exp_bounds(1) [of "\<bar>of_int n\<bar>"] False by (simp add: e_def)
  also have "of_int \<bar>n\<bar> < (of_int (2 ^ 53) :: rat)" using assms by (simp only: of_int_less_iff)
  finally have "pow2 e < pow2 53" by (simp add: pow2_def [of 53])
  then have "e < 53" using pow2_mono [of 53 e] by (cases "e < 53") simp_all
  then have u: "pow2 (e - 52) = 1 / 2 ^ nat (52 - e)"
    by (cases "e = 52") (simp_all add: pow2_def)
  have "of_int n / pow2 (e - 52) = (of_int (n * 2 ^ nat (52 - e)) :: rat)" by (simp add: u)
  then have "of_int (round_even (of_int n / pow2 (e - 52))) = (of_int n / pow2 (e - 52) :: rat)"
    by (simp only: round_even_int)
  then show ?thesis using False less_imp_neq [OF pow2_pos [of "e - 52"]]
    by (simp add: rnd_def e_def [symmetric] Let_def)
qed simp

lemmas rnd_numeral = rnd_int [of "numeral k" for k, simplified]

end
