(* ===== verification/Synchronizer.thy ===== *)
theory Synchronizer
  imports F64 PtpTime
begin

text \<open>
  \<^verbatim>\<open>src/avtp/synchronizer.rs\<close>: the phase-locked loop that turns occasional PTP readings and a local
  monotonic timer into strictly increasing time stamps. \<^verbatim>\<open>Instant\<close>s are nanoseconds of the local
  timer; the instant a call observes and the PTP reading it makes when it resynchronises are inputs.
  An operation returns its outcome and the clock it leaves, because a failed call can still have
  resynchronised.
\<close>

section \<open>The clock and its operations\<close>

datatype 'x clock_error =
    PtpClock 'x
  | NegativeElapsed int
  | DurationOverflow
  | MonotonicityLimit

record sync_clock =
  initial_ptp_time :: ptp_time
  last_ptp_time :: ptp_time
  last_ptp_instant :: nat
  frequency_adjustment :: rat
  phase_offset_ns :: int
  last_returned :: duration
  resync_interval :: duration

type_synonym 'x reading = "('x, ptp_time) res"

definition with_resync_interval :: "'x reading \<Rightarrow> nat \<Rightarrow> duration \<Rightarrow> ('x clock_error, sync_clock) res" where
  "with_resync_interval reading now interval =
     rbind (map_err PtpClock reading) (\<lambda>initial.
     Ok \<lparr>initial_ptp_time = initial, last_ptp_time = initial, last_ptp_instant = now,
         frequency_adjustment = 1, phase_offset_ns = 0, last_returned = 0,
         resync_interval = interval\<rparr>)"

definition sync_clock_new :: "'x reading \<Rightarrow> nat \<Rightarrow> ('x clock_error, sync_clock) res" where
  "sync_clock_new reading now = with_resync_interval reading now 100000000"

text \<open>\<^verbatim>\<open>Instant::duration_since\<close> saturates at zero, as the subtraction of naturals does.\<close>

definition duration_since :: "nat \<Rightarrow> nat \<Rightarrow> duration" where
  "duration_since later earlier = later - earlier"

definition i128_nanos_to_duration :: "int \<Rightarrow> ('x clock_error, duration) res" where
  "i128_nanos_to_duration nanos =
     rbind (ensure (\<not> nanos < 0) (NegativeElapsed nanos)) (\<lambda>_.
     let secs = nanos div 1000000000; nsecs = nat (nanos mod 1000000000) in
     rbind (ensure (in_u64 secs) DurationOverflow) (\<lambda>_.
     Ok (nat secs * nsec_per_sec + nsecs)))"

definition checked_add_i128 :: "int \<Rightarrow> int \<Rightarrow> ('x clock_error, int) res" where
  "checked_add_i128 a b = (if in_i128 (a + b) then Ok (a + b) else Err DurationOverflow)"

definition compute_elapsed ::
    "sync_clock \<Rightarrow> nat \<Rightarrow> ('x clock_error, duration) res \<times> sync_clock" where
  "compute_elapsed c now =
     (let instant_since_sync = duration_since now (last_ptp_instant c);
          initial_ns = as_nanos (initial_ptp_time c);
          last_ns = as_nanos (last_ptp_time c);
          ptp_base_ns = last_ns - initial_ns;
          instant_ns = rnd (of_nat instant_since_sync);
          adjusted_instant_ns =
            sat_i128 (round_away (rnd (instant_ns * frequency_adjustment c)));
          outcome =
            rbind (checked_add_i128 ptp_base_ns adjusted_instant_ns) (\<lambda>elapsed_ns.
            rbind (checked_add_i128 elapsed_ns (phase_offset_ns c)) (\<lambda>elapsed_ns.
            rbind (i128_nanos_to_duration elapsed_ns) (\<lambda>d.
            if d \<le> last_returned c
            then ok_or MonotonicityLimit (dur_checked_add (last_returned c) 1)
            else Ok d))) in
      case outcome of
        Ok d \<Rightarrow> (Ok d, c\<lparr>last_returned := d\<rparr>)
      | Err e \<Rightarrow> (Err e, c)
      | Panic \<Rightarrow> (Panic, c))"

text \<open>The tuning constants of \<^verbatim>\<open>resync_ptp\<close>, as the doubles the literals denote.\<close>

definition PLL_ALPHA :: rat where "PLL_ALPHA = rnd (1 / 10)"
definition PHASE_ALPHA :: rat where "PHASE_ALPHA = rnd (1 / 10)"
definition FREQ_MIN :: rat where "FREQ_MIN = rnd (999 / 1000)"
definition FREQ_MAX :: rat where "FREQ_MAX = rnd (1001 / 1000)"
definition PHASE_OFFSET_MAX_NS :: int where "PHASE_OFFSET_MAX_NS = 100000"
definition LARGE_JUMP_THRESHOLD_NS :: rat where "LARGE_JUMP_THRESHOLD_NS = 1000000"

definition clamp :: "rat \<Rightarrow> rat \<Rightarrow> rat \<Rightarrow> rat" where
  "clamp lo hi x = (if x < lo then lo else if hi < x then hi else x)"

text \<open>The frequency filter and the phase filter of \<^verbatim>\<open>resync_ptp\<close>.\<close>

definition resync_frequency :: "rat \<Rightarrow> rat \<Rightarrow> rat \<Rightarrow> rat" where
  "resync_frequency freq instant_ns ptp_diff_ns =
     (if instant_ns > 1000000
      then let measured_frequency = rnd (ptp_diff_ns / instant_ns) in
        clamp FREQ_MIN FREQ_MAX
          (rnd (rnd (rnd (1 - PLL_ALPHA) * freq) + rnd (PLL_ALPHA * measured_frequency)))
      else freq)"

definition resync_phase :: "int \<Rightarrow> rat \<Rightarrow> int" where
  "resync_phase phase phase_error_ns =
     (let new_phase_offset =
            rnd (rnd (rnd (1 - PHASE_ALPHA) * rnd (of_int phase)) + rnd (PHASE_ALPHA * phase_error_ns)) in
      trunc_zero (clamp (- of_int PHASE_OFFSET_MAX_NS) (of_int PHASE_OFFSET_MAX_NS) new_phase_offset))"

definition resync_ptp ::
    "sync_clock \<Rightarrow> nat \<Rightarrow> 'x reading \<Rightarrow> ('x clock_error, unit) res \<times> sync_clock" where
  "resync_ptp c now reading =
     (case reading of
        Err e \<Rightarrow> (Err (PtpClock e), c)
      | Panic \<Rightarrow> (Panic, c)
      | Ok current_ptp \<Rightarrow>
          let instant_elapsed = duration_since now (last_ptp_instant c);
              instant_ns = rnd (of_nat instant_elapsed);
              ptp_diff_ns = rnd (of_int (as_nanos current_ptp - as_nanos (last_ptp_time c)));
              freq = resync_frequency (frequency_adjustment c) instant_ns ptp_diff_ns;
              predicted_ptp_ns = rnd (instant_ns * freq);
              phase_error_ns = rnd (ptp_diff_ns - predicted_ptp_ns) in
          if \<bar>phase_error_ns\<bar> > LARGE_JUMP_THRESHOLD_NS
          then (Ok (), c\<lparr>frequency_adjustment := 1, phase_offset_ns := 0,
                   last_ptp_time := current_ptp, last_ptp_instant := now\<rparr>)
          else (Ok (), c\<lparr>frequency_adjustment := freq,
                   phase_offset_ns := resync_phase (phase_offset_ns c) phase_error_ns,
                   last_ptp_time := current_ptp, last_ptp_instant := now\<rparr>))"

definition elapsed ::
    "sync_clock \<Rightarrow> nat \<Rightarrow> 'x reading \<Rightarrow> ('x clock_error, duration) res \<times> sync_clock" where
  "elapsed c now reading =
     (let instant_since_sync = duration_since now (last_ptp_instant c) in
      if resync_interval c \<le> instant_since_sync
      then (case resync_ptp c now reading of
              (Ok _, c') \<Rightarrow> compute_elapsed c' now
            | (Err e, c') \<Rightarrow> (Err e, c')
            | (Panic, c') \<Rightarrow> (Panic, c'))
      else compute_elapsed c now)"

definition elapsed_no_resync ::
    "sync_clock \<Rightarrow> nat \<Rightarrow> ('x clock_error, duration) res \<times> sync_clock" where
  "elapsed_no_resync c now = compute_elapsed c now"

definition sync_ptp_time ::
    "sync_clock \<Rightarrow> nat \<Rightarrow> 'x reading \<Rightarrow> ('x clock_error, ptp_time) res \<times> sync_clock" where
  "sync_ptp_time c now reading =
     (case elapsed c now reading of
        (r, c') \<Rightarrow>
          (rbind r (\<lambda>d.
           rbind (checked_add_i128 (as_nanos (initial_ptp_time c')) (int d)) (\<lambda>absolute_ns.
           ok_or DurationOverflow (from_ns_i128 absolute_ns))), c'))"

section \<open>The state invariant\<close>

definition clock_inv :: "sync_clock \<Rightarrow> bool" where
  "clock_inv c \<longleftrightarrow> wf_time (initial_ptp_time c) \<and> wf_time (last_ptp_time c) \<and>
     FREQ_MIN \<le> frequency_adjustment c \<and> frequency_adjustment c \<le> FREQ_MAX \<and>
     \<bar>phase_offset_ns c\<bar> \<le> PHASE_OFFSET_MAX_NS \<and> last_returned c \<le> duration_max"

definition reading_ok :: "'x reading \<Rightarrow> bool" where
  "reading_ok r \<longleftrightarrow> (\<forall>t. r = Ok t \<longrightarrow> wf_time t)"

lemma freq_bounds: "FREQ_MIN < 1" "1 < FREQ_MAX" "9989 / 10000 < FREQ_MIN" "FREQ_MAX < 10011 / 10000"
  using rnd_err [of "999 / 1000"] rnd_err [of "1001 / 1000"]
  unfolding FREQ_MIN_def FREQ_MAX_def abs_le_iff by (auto simp: field_simps)

lemma clamp_bounds: "lo \<le> hi \<Longrightarrow> lo \<le> clamp lo hi x \<and> clamp lo hi x \<le> hi"
  by (auto simp: clamp_def)

lemma trunc_zero_bounds: "\<bar>x\<bar> \<le> of_int n \<Longrightarrow> \<bar>trunc_zero x\<bar> \<le> n"
  by (auto simp: trunc_zero_def floor_le_iff abs_le_iff le_floor_iff) linarith+

section \<open>Single steps\<close>

lemma nanos_to_duration_Ok:
  "i128_nanos_to_duration n = Ok d \<longleftrightarrow> 0 \<le> n \<and> int d = n \<and> d \<le> duration_max"
proof -
  have div_nat: "nat (n div 1000000000) * 1000000000 + nat (n mod 1000000000) = nat n" if "0 \<le> n"
  proof -
    have "int (nat (n div 1000000000) * 1000000000 + nat (n mod 1000000000)) = n"
      using that by (simp add: pos_imp_zdiv_nonneg_iff)
    then show ?thesis using that by linarith
  qed
  have rng: "in_u64 (n div 1000000000) \<longleftrightarrow> nat n \<le> duration_max" if "0 \<le> n"
  proof -
    define q r where "q = n div 1000000000" and "r = n mod 1000000000"
    have "n = 1000000000 * q + r" "0 \<le> r" "r < 1000000000" by (simp_all add: q_def r_def)
    then have "q < 2 ^ 64 \<longleftrightarrow> n < 2 ^ 64 * 1000000000" by auto
    then have "n div 1000000000 < 2 ^ 64 \<longleftrightarrow> n < 2 ^ 64 * 1000000000" by (simp only: q_def)
    then show ?thesis using that
      by (auto simp: in_u64_def duration_max_def pos_imp_zdiv_nonneg_iff nat_le_iff)
  qed
  show ?thesis
    by (cases "0 \<le> n") (auto simp: i128_nanos_to_duration_def Let_def div_nat rng)
qed

lemma nanos_to_duration_not_Panic [simp]: "i128_nanos_to_duration n \<noteq> Panic"
  by (simp add: i128_nanos_to_duration_def rbind_eq_Panic Let_def)

lemma checked_add_i128_not_Panic [simp]: "checked_add_i128 a b \<noteq> Panic"
  by (simp add: checked_add_i128_def)

lemma checked_add_i128_Ok [simp]: "checked_add_i128 a b = Ok x \<longleftrightarrow> in_i128 (a + b) \<and> x = a + b"
  by (auto simp: checked_add_i128_def)

definition adjusted_instant :: "sync_clock \<Rightarrow> nat \<Rightarrow> int" where
  "adjusted_instant c now =
     sat_i128 (round_away (rnd (rnd (of_nat (duration_since now (last_ptp_instant c))) *
       frequency_adjustment c)))"

definition raw_elapsed :: "sync_clock \<Rightarrow> nat \<Rightarrow> int" where
  "raw_elapsed c now =
     as_nanos (last_ptp_time c) - as_nanos (initial_ptp_time c) + adjusted_instant c now +
     phase_offset_ns c"

text \<open>
  The value returned is the raw one, or one nanosecond after the previous; the only state that
  changes is the record of it, and only on success.
\<close>

lemma compute_elapsed_cases:
  obtains d where "compute_elapsed c now = (Ok d :: ('x clock_error, _) res, c\<lparr>last_returned := d\<rparr>)"
      "last_returned c < d" "d \<le> duration_max" "int d = raw_elapsed c now \<or> d = last_returned c + 1"
    | e where "compute_elapsed c now = (Err (e :: 'x clock_error), c)"
proof -
  define m where "m = rbind (checked_add_i128 (as_nanos (last_ptp_time c) - as_nanos (initial_ptp_time c))
      (adjusted_instant c now)) (\<lambda>elapsed_ns.
    rbind (checked_add_i128 elapsed_ns (phase_offset_ns c)) (\<lambda>elapsed_ns.
    rbind (i128_nanos_to_duration elapsed_ns :: ('x clock_error, duration) res) (\<lambda>d.
    if d \<le> last_returned c then ok_or MonotonicityLimit (dur_checked_add (last_returned c) 1)
    else Ok d)))"
  have eq: "compute_elapsed c now = (case m of Ok d \<Rightarrow> (Ok d, c\<lparr>last_returned := d\<rparr>)
      | Err e \<Rightarrow> (Err e, c) | Panic \<Rightarrow> (Panic, c))"
    by (simp add: compute_elapsed_def m_def adjusted_instant_def Let_def)
  show thesis
  proof (cases m)
    case (Ok d)
    then have "last_returned c < d \<and> d \<le> duration_max \<and>
        (int d = raw_elapsed c now \<or> d = last_returned c + 1)"
      by (auto simp: m_def raw_elapsed_def nanos_to_duration_Ok dur_checked_add_def
          split: if_splits)
    with Ok eq that(1) show thesis by simp
  next
    case (Err e)
    with eq that(2) show thesis by simp
  next
    case Panic
    then show thesis by (auto simp: m_def rbind_eq_Panic split: if_splits)
  qed
qed

lemma resync_ptp_cases:
  assumes "clock_inv c" "reading_ok reading"
  obtains t f ph where "reading = Ok t"
      "resync_ptp c now reading = (Ok (), c\<lparr>frequency_adjustment := f, phase_offset_ns := ph,
         last_ptp_time := t, last_ptp_instant := now\<rparr>)"
      "FREQ_MIN \<le> f" "f \<le> FREQ_MAX" "\<bar>ph\<bar> \<le> PHASE_OFFSET_MAX_NS"
    | r where "resync_ptp c now reading = (r, c)" "\<forall>u. r \<noteq> Ok u"
proof (cases reading)
  case (Ok t)
  have ph: "\<bar>resync_phase p x\<bar> \<le> PHASE_OFFSET_MAX_NS" for p x
    unfolding resync_phase_def Let_def
    by (intro trunc_zero_bounds) (auto simp: abs_le_iff PHASE_OFFSET_MAX_NS_def clamp_def)
  have fr: "FREQ_MIN \<le> resync_frequency (frequency_adjustment c) x y \<and>
      resync_frequency (frequency_adjustment c) x y \<le> FREQ_MAX" for x y
    using clamp_bounds [of FREQ_MIN FREQ_MAX] freq_bounds assms(1)
    by (auto simp: resync_frequency_def clock_inv_def Let_def)
  have one: "FREQ_MIN \<le> 1" "1 \<le> FREQ_MAX" "\<bar>0 :: int\<bar> \<le> PHASE_OFFSET_MAX_NS"
    using freq_bounds by (simp_all add: PHASE_OFFSET_MAX_NS_def)
  let ?i = "rnd (of_nat (duration_since now (last_ptp_instant c)))"
  let ?d = "rnd (of_int (as_nanos t - as_nanos (last_ptp_time c)))"
  let ?f = "resync_frequency (frequency_adjustment c) ?i ?d"
  let ?e = "rnd (?d - rnd (?i * ?f))"
  show thesis
  proof (cases "\<bar>?e\<bar> > LARGE_JUMP_THRESHOLD_NS")
    case True
    then show thesis using that(1) [where t = t and f = 1 and ph = 0] one Ok by (simp add: resync_ptp_def Let_def)
  next
    case False
    then show thesis
      using that(1) [where t = t and f = ?f and ph = "resync_phase (phase_offset_ns c) ?e"] fr ph Ok
      by (simp add: resync_ptp_def Let_def)
  qed
qed (use that(2) in \<open>auto simp: resync_ptp_def\<close>)

section \<open>Every operation keeps the invariant and advances\<close>

definition advances :: "sync_clock \<Rightarrow> ('e, duration) res \<Rightarrow> sync_clock \<Rightarrow> bool" where
  "advances c out c' \<longleftrightarrow> clock_inv c' \<and> initial_ptp_time c' = initial_ptp_time c \<and>
     (case out of Ok d \<Rightarrow> last_returned c < d \<and> last_returned c' = d
      | _ \<Rightarrow> last_returned c' = last_returned c)"

lemma compute_elapsed_advances:
  assumes "clock_inv c" "compute_elapsed c now = (out :: ('x clock_error, duration) res, c')"
  shows "advances c out c'"
  using assms by (cases rule: compute_elapsed_cases [of c now, where 'x = 'x])
    (auto simp: advances_def clock_inv_def)

lemma resync_ptp_inv:
  assumes "clock_inv c" "reading_ok reading" "resync_ptp c now reading = (out, c')"
  shows "clock_inv c' \<and> initial_ptp_time c' = initial_ptp_time c \<and>
    last_returned c' = last_returned c"
  using assms
  by (cases rule: resync_ptp_cases [OF assms(1,2), of now]) (auto simp: clock_inv_def reading_ok_def)

lemma elapsed_advances:
  assumes "clock_inv c" "reading_ok reading" "elapsed c now reading = (out, c')"
  shows "advances c out c'"
proof (cases "resync_interval c \<le> duration_since now (last_ptp_instant c)")
  case True
  obtain r c1 where r: "resync_ptp c now reading = (r, c1)" by (rule prod.exhaust)
  from resync_ptp_inv [OF assms(1,2) r] have c1: "clock_inv c1"
    "initial_ptp_time c1 = initial_ptp_time c" "last_returned c1 = last_returned c" by auto
  show ?thesis
  proof (cases r)
    case (Ok u)
    with True r assms(3) have "compute_elapsed c1 now = (out, c')" by (simp add: elapsed_def)
    from compute_elapsed_advances [OF c1(1) this] c1 show ?thesis
      by (cases out) (simp_all add: advances_def)
  qed (use True r c1 assms(3) in \<open>auto simp: elapsed_def advances_def\<close>)
next
  case False
  with assms(3) show ?thesis
    by (intro compute_elapsed_advances [OF assms(1), of now]) (simp add: elapsed_def)
qed

lemma sync_ptp_time_advances:
  assumes "clock_inv c" "reading_ok reading" "sync_ptp_time c now reading = (out, c')"
  shows "clock_inv c' \<and> initial_ptp_time c' = initial_ptp_time c \<and>
    last_returned c \<le> last_returned c' \<and>
    (\<forall>t. out = Ok t \<longrightarrow> wf_time t \<and> last_returned c < last_returned c' \<and>
       as_nanos t = as_nanos (initial_ptp_time c) + int (last_returned c'))"
proof -
  obtain r c1 where e: "elapsed c now reading = (r, c1)" by (rule prod.exhaust)
  from elapsed_advances [OF assms(1,2) e] have adv: "advances c r c1" .
  from assms(3) have "c' = c1" by (simp add: sync_ptp_time_def e)
  with adv assms(3) show ?thesis
    by (cases r) (auto simp: advances_def sync_ptp_time_def e from_ns_i128_Some)
qed

lemma sync_ptp_time_not_Panic:
  assumes "clock_inv c" "reading_ok reading" "reading \<noteq> Panic"
  shows "fst (sync_ptp_time c now reading) \<noteq> (Panic :: ('x clock_error, _) res)"
proof -
  have "fst (compute_elapsed c' now) \<noteq> (Panic :: ('x clock_error, _) res)" for c'
    by (cases rule: compute_elapsed_cases [of c' now, where 'x = 'x]) auto
  moreover have "fst (resync_ptp c now reading) \<noteq> Panic"
    using assms(3) by (cases reading) (auto simp: resync_ptp_def Let_def)
  ultimately have "fst (elapsed c now reading) \<noteq> Panic"
    by (auto simp: elapsed_def split: prod.splits res.splits)
  then show ?thesis
    by (auto simp: sync_ptp_time_def rbind_eq_Panic split: prod.splits)
qed

section \<open>Runs of a strictly increasing source\<close>

text \<open>
  The contract of a time source: every value it returns lies strictly above a mark in its state,
  which is then the value; a call without a value never lowers the mark.
\<close>

primrec run_outputs :: "('s \<Rightarrow> 'i \<Rightarrow> 'o option \<times> 's) \<Rightarrow> 's \<Rightarrow> 'i list \<Rightarrow> 'o list" where
  "run_outputs step s [] = []"
| "run_outputs step s (i # is) =
     (case step s i of (r, s') \<Rightarrow>
      case r of None \<Rightarrow> run_outputs step s' is | Some x \<Rightarrow> x # run_outputs step s' is)"

locale strict_source =
  fixes step :: "'s \<Rightarrow> 'i \<Rightarrow> 'o::linorder option \<times> 's" and inv :: "'s \<Rightarrow> bool"
    and ok :: "'i \<Rightarrow> bool" and above :: "'s \<Rightarrow> 'o \<Rightarrow> bool"
  assumes step_inv: "inv s \<Longrightarrow> ok i \<Longrightarrow> step s i = (r, s') \<Longrightarrow> inv s'"
    and step_above: "inv s \<Longrightarrow> ok i \<Longrightarrow> step s i = (Some x, s') \<Longrightarrow> above s x"
    and above_back: "inv s \<Longrightarrow> ok i \<Longrightarrow> step s i = (r, s') \<Longrightarrow> above s' y \<Longrightarrow> above s y"
    and above_less: "inv s \<Longrightarrow> ok i \<Longrightarrow> step s i = (Some x, s') \<Longrightarrow> above s' y \<Longrightarrow> x < y"
begin

lemma run_above: "inv s \<Longrightarrow> list_all ok is \<Longrightarrow> y \<in> set (run_outputs step s is) \<Longrightarrow> above s y"
proof (induction "is" arbitrary: s)
  case (Cons i "is")
  obtain r s' where st: "step s i = (r, s')" by (rule prod.exhaust)
  from Cons.prems st have inv': "inv s'" by (auto intro: step_inv)
  show ?case
  proof (cases r)
    case None
    with Cons.IH [OF inv'] Cons.prems st show ?thesis by (auto intro: above_back)
  next
    case (Some x)
    with Cons.IH [OF inv'] Cons.prems st show ?thesis by (auto intro: above_back step_above)
  qed
qed simp

theorem run_strict: "inv s \<Longrightarrow> list_all ok is \<Longrightarrow> sorted_wrt (<) (run_outputs step s is)"
proof (induction "is" arbitrary: s)
  case (Cons i "is")
  obtain r s' where st: "step s i = (r, s')" by (rule prod.exhaust)
  from Cons.prems st have inv': "inv s'" by (auto intro: step_inv)
  with Cons.IH [OF inv'] Cons.prems st show ?case
    by (cases r) (auto intro: above_less run_above)
qed simp

end

text \<open>The clock as a source of absolute PTP times, and of durations from its mixed operations.\<close>

definition ptp_step :: "sync_clock \<Rightarrow> nat \<times> 'x reading \<Rightarrow> ptp_time option \<times> sync_clock" where
  "ptp_step c i =
     (case sync_ptp_time c (fst i) (snd i) of (Ok t, c') \<Rightarrow> (Some t, c') | (_, c') \<Rightarrow> (None, c'))"

datatype 'x clock_op = Elapsed nat "'x reading" | ElapsedNoResync nat

primrec clock_op_ok :: "'x clock_op \<Rightarrow> bool" where
  "clock_op_ok (Elapsed now r) = reading_ok r"
| "clock_op_ok (ElapsedNoResync now) = True"

primrec clock_op_run ::
    "sync_clock \<Rightarrow> 'x clock_op \<Rightarrow> ('x clock_error, duration) res \<times> sync_clock" where
  "clock_op_run c (Elapsed now r) = elapsed c now r"
| "clock_op_run c (ElapsedNoResync now) = elapsed_no_resync c now"

definition clock_step :: "sync_clock \<Rightarrow> 'x clock_op \<Rightarrow> duration option \<times> sync_clock" where
  "clock_step c i = (case clock_op_run c i of (Ok d, c') \<Rightarrow> (Some d, c') | (_, c') \<Rightarrow> (None, c'))"

definition ptp_above :: "sync_clock \<Rightarrow> ptp_time \<Rightarrow> bool" where
  "ptp_above c t \<longleftrightarrow> wf_time t \<and> as_nanos (initial_ptp_time c) + int (last_returned c) < as_nanos t"

lemma clock_op_advances:
  "clock_inv c \<Longrightarrow> clock_op_ok i \<Longrightarrow> clock_op_run c i = (out, c') \<Longrightarrow> advances c out c'"
  by (cases i) (auto simp: elapsed_no_resync_def intro: elapsed_advances compute_elapsed_advances)

lemma clock_step_advances:
  assumes "clock_inv c" "clock_op_ok i" "clock_step c i = (r, c')"
  shows "clock_inv c' \<and> (case r of Some d \<Rightarrow> last_returned c < d \<and> last_returned c' = d
    | None \<Rightarrow> last_returned c' = last_returned c)"
proof -
  obtain out c1 where o: "clock_op_run c i = (out, c1)" by (rule prod.exhaust)
  from clock_op_advances [OF assms(1,2) o] assms(3) show ?thesis
    by (cases out) (auto simp: clock_step_def o advances_def)
qed

interpretation durations: strict_source clock_step clock_inv clock_op_ok
  "\<lambda>c d. last_returned c < (d :: duration)"
proof unfold_locales
  fix c i r c'
  assume "clock_inv c" "clock_op_ok i" "clock_step c i = (r, c')"
  note adv = clock_step_advances [OF this]
  from adv show "clock_inv c'" by simp
  from adv show "last_returned c < y" if "last_returned c' < y" for y
    using that by (auto split: option.splits)
next
  fix c i x c'
  assume "clock_inv c" "clock_op_ok i" "clock_step c i = (Some x, c')"
  note adv = clock_step_advances [OF this]
  from adv show "last_returned c < x" by simp
  from adv show "x < y" if "last_returned c' < y" for y using that by simp
qed

lemma ptp_step_advances:
  assumes "clock_inv c" "reading_ok (snd i)" "ptp_step c i = (r, c')"
  shows "clock_inv c' \<and> initial_ptp_time c' = initial_ptp_time c \<and>
    last_returned c \<le> last_returned c' \<and>
    (\<forall>t. r = Some t \<longrightarrow> wf_time t \<and> last_returned c < last_returned c' \<and>
       as_nanos t = as_nanos (initial_ptp_time c) + int (last_returned c'))"
proof -
  obtain out c1 where o: "sync_ptp_time c (fst i) (snd i) = (out, c1)" by (rule prod.exhaust)
  from sync_ptp_time_advances [OF assms(1,2) o] assms(3) show ?thesis
    by (cases out) (auto simp: ptp_step_def o)
qed

interpretation ptp_times: strict_source ptp_step clock_inv "\<lambda>i. reading_ok (snd i)" ptp_above
proof unfold_locales
  fix c and i :: "nat \<times> 'x reading" and r c'
  assume "clock_inv c" "reading_ok (snd i)" "ptp_step c i = (r, c')"
  note adv = ptp_step_advances [OF this]
  from adv show "clock_inv c'" by simp
  from adv show "ptp_above c y" if "ptp_above c' y" for y using that by (auto simp: ptp_above_def)
next
  fix c and i :: "nat \<times> 'x reading" and x c'
  assume "clock_inv c" "reading_ok (snd i)" "ptp_step c i = (Some x, c')"
  note adv = ptp_step_advances [OF this]
  from adv show "ptp_above c x" by (auto simp: ptp_above_def)
  show "x < y" if "ptp_above c' y" for y
  proof -
    from adv that have "wf_time x" "wf_time y" "as_nanos x < as_nanos y" by (auto simp: ptp_above_def)
    then show "x < y" using ptp_time_le_iff [of y x] by (simp add: not_le [symmetric])
  qed
qed

section \<open>Accuracy\<close>

lemma rnd_bounds: "0 \<le> x \<Longrightarrow> x * (1 - 1 / 2 ^ 53) \<le> rnd x \<and> rnd x \<le> x * (1 + 1 / 2 ^ 53)"
  using rnd_err [of x] unfolding abs_le_iff by (simp add: algebra_simps)

lemma predicted_err:
  assumes "0 \<le> x" "FREQ_MIN \<le> f" "f \<le> FREQ_MAX"
  shows "\<bar>rnd (rnd x * f) - x\<bar> \<le> x * (12 / 10000)"
proof -
  define a where "a = rnd x"
  have f: "9989 / 10000 \<le> f" "f \<le> 10011 / 10000" using assms(2,3) freq_bounds by auto
  have a: "x * (1 - 1 / 2 ^ 53) \<le> a" "a \<le> x * (1 + 1 / 2 ^ 53)"
    using rnd_bounds [OF assms(1)] by (simp_all add: a_def)
  have a0: "0 \<le> a" by (rule order_trans [OF _ a(1)]) (use assms(1) in simp)
  have lo: "x * (1 - 1 / 2 ^ 53) * (9989 / 10000) \<le> a * f"
    using a(1) f(1) assms(1) a0 by (intro mult_mono) simp_all
  have hi: "a * f \<le> x * (1 + 1 / 2 ^ 53) * (10011 / 10000)"
    using a(2) f a0 assms(1) by (intro mult_mono) simp_all
  have p0: "0 \<le> a * f" using a0 f by simp
  note b = rnd_bounds [OF p0]
  have "rnd (a * f) \<le> x * (1 + 1 / 2 ^ 53) * (10011 / 10000) * (1 + 1 / 2 ^ 53)"
    by (rule order_trans [OF b [THEN conjunct2]], rule mult_right_mono [OF hi]) simp
  also have "\<dots> = x * ((1 + 1 / 2 ^ 53) * (10011 / 10000) * (1 + 1 / 2 ^ 53))" by simp
  also have "\<dots> \<le> x * (10012 / 10000)" using assms(1) by (intro mult_left_mono) simp_all
  finally have up: "rnd (a * f) \<le> x * (10012 / 10000)" .
  have "x * (9988 / 10000) \<le> x * ((1 - 1 / 2 ^ 53) * (9989 / 10000) * (1 - 1 / 2 ^ 53))"
    using assms(1) by (intro mult_left_mono) simp_all
  also have "\<dots> = x * (1 - 1 / 2 ^ 53) * (9989 / 10000) * (1 - 1 / 2 ^ 53)" by simp
  also have "\<dots> \<le> rnd (a * f)"
    by (rule order_trans [OF mult_right_mono [OF lo] b [THEN conjunct1]]) simp
  finally have "x * (9988 / 10000) \<le> rnd (a * f)" .
  with up show ?thesis unfolding a_def [symmetric] abs_le_iff by linarith
qed

lemma round_away_err: "\<bar>of_int (round_away x) - x\<bar> \<le> 1 / 2"
  unfolding round_away_def abs_le_iff by (auto; linarith)

lemma adjusted_instant_err:
  assumes "clock_inv c" "duration_since now (last_ptp_instant c) \<le> duration_max"
  shows "\<bar>of_int (adjusted_instant c now) - of_nat (duration_since now (last_ptp_instant c)) :: rat\<bar>
    \<le> of_nat (duration_since now (last_ptp_instant c)) * (12 / 10000) + 1 / 2"
proof -
  define n where "n = duration_since now (last_ptp_instant c)"
  define y where "y = rnd (rnd (of_nat n) * frequency_adjustment c)"
  have y: "\<bar>y - of_nat n\<bar> \<le> of_nat n * (12 / 10000)"
    using predicted_err [of "of_nat n" "frequency_adjustment c"] assms(1)
    by (simp add: y_def clock_inv_def)
  have r: "\<bar>of_int (round_away y) - y\<bar> \<le> 1 / 2" by (rule round_away_err)
  have "(of_nat n :: rat) \<le> of_nat duration_max" using assms(2) by (simp only: n_def of_nat_le_iff)
  then have n: "(of_nat n :: rat) \<le> 2 ^ 100" by (simp add: duration_max_def)
  with y r have "\<bar>of_int (round_away y) :: rat\<bar> \<le> 2 ^ 101" unfolding abs_le_iff by (simp; linarith)
  then have "\<bar>of_int (round_away y) :: rat\<bar> \<le> of_int (2 ^ 101)" by simp
  then have "\<bar>round_away y\<bar> \<le> 2 ^ 101" by (simp only: of_int_abs [symmetric] of_int_le_iff)
  then have "sat_i128 (round_away y) = round_away y"
    by (intro sat_i128_id) (auto simp: in_i128_def abs_le_iff)
  with y r show ?thesis
    unfolding adjusted_instant_def n_def [symmetric] y_def [symmetric] abs_le_iff by linarith
qed

lemma compute_elapsed_accurate:
  assumes "clock_inv c" "duration_since now (last_ptp_instant c) \<le> duration_max"
    and "compute_elapsed c now = (Ok d :: ('x clock_error, _) res, c')"
  shows "c' = c\<lparr>last_returned := d\<rparr> \<and> (d = last_returned c + 1 \<or>
      \<bar>of_nat d - of_int (as_nanos (last_ptp_time c) - as_nanos (initial_ptp_time c) +
          int (duration_since now (last_ptp_instant c))) :: rat\<bar>
        \<le> of_nat (duration_since now (last_ptp_instant c)) * (12 / 10000) + 100000 + 1 / 2)"
proof (cases rule: compute_elapsed_cases [of c now, where 'x = 'x])
  case (1 d')
  with assms(3) have c': "c' = c\<lparr>last_returned := d\<rparr>" "d' = d" by auto
  define n where "n = duration_since now (last_ptp_instant c)"
  define a where "a = as_nanos (last_ptp_time c) - as_nanos (initial_ptp_time c)"
  have ad: "\<bar>of_int (adjusted_instant c now) - of_nat n :: rat\<bar> \<le> of_nat n * (12 / 10000) + 1 / 2"
    unfolding n_def by (rule adjusted_instant_err [OF assms(1,2)])
  have "of_int \<bar>phase_offset_ns c\<bar> \<le> (of_int 100000 :: rat)"
    using assms(1) by (simp only: of_int_le_iff clock_inv_def PHASE_OFFSET_MAX_NS_def)
  then have ph: "\<bar>of_int (phase_offset_ns c)\<bar> \<le> (100000 :: rat)" by simp
  have "\<bar>of_nat d - of_int (a + int n) :: rat\<bar> \<le> of_nat n * (12 / 10000) + 100000 + 1 / 2"
    if "int d = raw_elapsed c now"
  proof -
    have "of_nat d - of_int (a + int n) =
        (of_int (adjusted_instant c now) - of_nat n) + (of_int (phase_offset_ns c) :: rat)"
    proof -
      have "(of_nat d :: rat) = of_int (int d)" by simp
      also have "\<dots> = of_int (a + adjusted_instant c now + phase_offset_ns c)"
        unfolding that raw_elapsed_def a_def ..
      finally show ?thesis by simp
    qed
    then show ?thesis
      using order_trans [OF abs_triangle_ineq add_mono [OF ad ph]] by (simp add: add.commute add.left_commute)
  qed
  with 1(4) c' show ?thesis unfolding n_def a_def by auto
qed (use assms(3) in simp)

lemma elapsed_split:
  assumes "clock_inv c" "reading_ok reading" "duration_since now (last_ptp_instant c) \<le> duration_max"
    and "elapsed c now reading = (Ok d :: ('x clock_error, _) res, c')"
  obtains c1 where "clock_inv c1" "initial_ptp_time c1 = initial_ptp_time c"
      "last_returned c1 = last_returned c" "duration_since now (last_ptp_instant c1) \<le> duration_max"
      "compute_elapsed c1 now = (Ok d :: ('x clock_error, _) res, c')"
      "if resync_interval c \<le> duration_since now (last_ptp_instant c)
       then reading = Ok (last_ptp_time c1) \<and> last_ptp_instant c1 = now else c1 = c"
proof (cases "resync_interval c \<le> duration_since now (last_ptp_instant c)")
  case True
  obtain r c1 where r: "resync_ptp c now reading = (r, c1)" by (rule prod.exhaust)
  with True assms(4) have u: "r = Ok ()" "compute_elapsed c1 now = (Ok d :: ('x clock_error, _) res, c')"
    by (cases r; simp add: elapsed_def)+
  from resync_ptp_inv [OF assms(1,2) r] r u(1)
  have "clock_inv c1 \<and> initial_ptp_time c1 = initial_ptp_time c \<and> last_returned c1 = last_returned c \<and>
      reading = Ok (last_ptp_time c1) \<and> last_ptp_instant c1 = now"
    by (cases rule: resync_ptp_cases [OF assms(1,2), of now]) auto
  then show thesis using that [of c1] u(2) True by (simp add: duration_since_def)
next
  case False
  with assms show thesis by (intro that [of c]) (simp_all add: elapsed_def)
qed

section \<open>Properties\<close>

text \<open>C5: The durations a clock returns are strictly increasing, over every sequence of its
  operations, with or without resynchronisation, whatever the local instants (even going backwards)
  and PTP readings (failures and steps included), and across failed calls.\<close>

theorem clock_strictly_monotonic:
  assumes "clock_inv c" "list_all clock_op_ok ops"
  shows "sorted_wrt (<) (run_outputs clock_step c ops)"
  by (rule durations.run_strict [OF assms])

definition sample_clock :: sync_clock where
  "sample_clock = \<lparr>initial_ptp_time = PtpTime 5 0, last_ptp_time = PtpTime 5 0,
     last_ptp_instant = 1000, frequency_adjustment = 1, phase_offset_ns = 0, last_returned = 0,
     resync_interval = 100000000\<rparr>"

lemma sample_clock_inv: "clock_inv sample_clock"
  using freq_bounds
  by (simp add: clock_inv_def sample_clock_def wf_time_def in_i64_def PHASE_OFFSET_MAX_NS_def)

theorem clock_strictly_monotonic_witness:
  "sorted_wrt (<) (run_outputs clock_step sample_clock
     [ElapsedNoResync 2000, Elapsed 1500 (Err ()), Elapsed 300000000 (Ok (PtpTime 4 999999999))])"
  by (rule clock_strictly_monotonic [OF sample_clock_inv]) (simp add: reading_ok_def wf_time_def in_i64_def)

text \<open>C15: The absolute PTP times a clock returns are strictly increasing in the order of \<^verbatim>\<open>PtpTime\<close>.\<close>

theorem ptp_times_strictly_monotonic:
  assumes "clock_inv c" "list_all (\<lambda>i. reading_ok (snd i)) ops"
  shows "sorted_wrt (<) (run_outputs ptp_step c ops)"
  by (rule ptp_times.run_strict [OF assms])

theorem ptp_times_strictly_monotonic_witness:
  "sorted_wrt (<) (run_outputs ptp_step sample_clock
     [(2000, Err ()), (1500, Err ()), (300000000, Ok (PtpTime 4 999999999))])"
  by (rule ptp_times_strictly_monotonic [OF sample_clock_inv])
    (simp add: reading_ok_def wf_time_def in_i64_def)

text \<open>C8: From its creation on, through every sequence of operations, a clock's frequency factor stays
  within 0.11 percent of one, its phase correction within 100 microseconds, and its times are
  normalised.\<close>

theorem clock_state_bounded:
  assumes "with_resync_interval reading now interval = Ok c" "reading_ok reading"
    and "list_all clock_op_ok ops"
  shows "let c' = fold (\<lambda>i c. snd (clock_step c i)) ops c in
    clock_inv c' \<and> \<bar>frequency_adjustment c' - 1\<bar> \<le> 11 / 10000 \<and> \<bar>phase_offset_ns c'\<bar> \<le> 100000"
proof -
  have c: "clock_inv c" using assms(1,2) freq_bounds
    by (auto simp: with_resync_interval_def clock_inv_def reading_ok_def PHASE_OFFSET_MAX_NS_def)
  have "clock_inv (fold (\<lambda>i c. snd (clock_step c i)) ops c)"
    using c assms(3)
  proof (induction ops arbitrary: c)
    case (Cons i ops)
    obtain r c1 where "clock_step c i = (r, c1)" by (rule prod.exhaust)
    with Cons clock_step_advances [of c i r c1] show ?case by simp
  qed simp
  then show ?thesis using freq_bounds
    unfolding clock_inv_def Let_def abs_le_iff PHASE_OFFSET_MAX_NS_def by auto
qed

theorem clock_state_bounded_witness:
  "\<exists>c. with_resync_interval (Ok (PtpTime 5 0) :: unit reading) 1000 0 = Ok c \<and>
    clock_inv (fold (\<lambda>i c. snd (clock_step c i)) [Elapsed 5000000 (Ok (PtpTime 5 5000100) :: unit reading)] c)"
  using clock_state_bounded [of "Ok (PtpTime 5 0) :: unit reading" 1000 0 _
      "[Elapsed 5000000 (Ok (PtpTime 5 5000100))]"]
  by (auto simp: with_resync_interval_def reading_ok_def wf_time_def in_i64_def Let_def)





end
