(* ===== verification/WavData.thy ===== *)
theory WavData
  imports BitIO
begin

text \<open>
  The data of \<^verbatim>\<open>src/audio/wav.rs\<close>: RIFF chunks, the \<^verbatim>\<open>fmt\<close> header with its encoding and decoding,
  little-endian fields, and exact reads and writes of byte streams.
\<close>

section \<open>Byte streams and little-endian fields\<close>

text \<open>
  A \<^verbatim>\<open>Read\<close> is the bytes it still has; \<^verbatim>\<open>read_exact\<close> fails with \<^verbatim>\<open>UnexpectedEof\<close> when they are too few.
  A \<^verbatim>\<open>Write\<close> is the bytes written, with the capacity of a bounded sink.
\<close>

type_synonym sink = "byte list \<times> nat option"

definition read_exact :: "nat \<Rightarrow> byte list \<Rightarrow> (io_error, byte list \<times> byte list) res" where
  "read_exact n s = (if n \<le> length s then Ok (take n s, drop n s) else Err UnexpectedEof)"

definition write_all :: "byte list \<Rightarrow> sink \<Rightarrow> (io_error, sink) res" where
  "write_all bs w =
     (if fits (snd w) (length (fst w) + length bs) then Ok (fst w @ bs, snd w) else Err WriteZero)"

definition u16_to_le :: "u16 \<Rightarrow> byte list" where
  "u16_to_le x = [of_nat (unat x mod 256), of_nat (unat x div 256)]"

definition u16_from_le :: "byte \<Rightarrow> byte \<Rightarrow> u16" where
  "u16_from_le a b = of_nat (unat a + 256 * unat b)"

definition u32_to_le :: "u32 \<Rightarrow> byte list" where
  "u32_to_le x =
     [of_nat (unat x mod 256), of_nat (unat x div 2 ^ 8 mod 256),
      of_nat (unat x div 2 ^ 16 mod 256), of_nat (unat x div 2 ^ 24)]"

definition u32_from_le :: "byte \<Rightarrow> byte \<Rightarrow> byte \<Rightarrow> byte \<Rightarrow> u32" where
  "u32_from_le a b c d = of_nat (unat a + 2 ^ 8 * unat b + 2 ^ 16 * unat c + 2 ^ 24 * unat d)"

fun u32_of_list :: "byte list \<Rightarrow> ('e, u32) res" where
  "u32_of_list [a, b, c, d] = Ok (u32_from_le a b c d)"
| "u32_of_list _ = Panic"

lemma length_u16_to_le [simp]: "length (u16_to_le x) = 2"
  by (simp add: u16_to_le_def)

lemma length_u32_to_le [simp]: "length (u32_to_le x) = 4"
  by (simp add: u32_to_le_def)

lemma u16_from_to_le:
  "u16_from_le (of_nat (unat x mod 256)) (of_nat (unat x div 256)) = x"
  using unat_u16_lt [of x] by (simp add: u16_from_le_def less_mult_imp_div_less)

lemma u32_from_to_le:
  "u32_from_le (of_nat (unat x mod 256)) (of_nat (unat x div 2 ^ 8 mod 256))
     (of_nat (unat x div 2 ^ 16 mod 256)) (of_nat (unat x div 2 ^ 24)) = x"
proof -
  define n where "n = unat x"
  have n: "n < 4294967296" by (simp add: n_def unat_u32_lt)
  define a b c where "a = n div 256" and "b = a div 256" and "c = b div 256"
  have eqs: "n = 256 * a + n mod 256" "a = 256 * b + a mod 256" "b = 256 * c + b mod 256"
    unfolding a_def b_def c_def by simp_all
  have divs: "n div 2 ^ 8 = a" "n div 2 ^ 16 = b" "n div 2 ^ 24 = c"
    unfolding a_def b_def c_def by (simp_all add: div_mult2_eq [symmetric])
  have "c < 256" using n divs(3) by (simp add: less_mult_imp_div_less)
  then have "u32_from_le (of_nat (n mod 256)) (of_nat (a mod 256)) (of_nat (b mod 256)) (of_nat c)
      = of_nat (n mod 256 + 256 * (a mod 256) + 65536 * (b mod 256) + 16777216 * c)"
    by (simp add: u32_from_le_def)
  also have "n mod 256 + 256 * (a mod 256) + 65536 * (b mod 256) + 16777216 * c = n"
    using eqs by linarith
  also have "of_nat n = x" by (simp add: n_def)
  finally show ?thesis unfolding n_def [symmetric] divs .
qed

lemma u32_of_list_to_le [simp]: "u32_of_list (u32_to_le x) = Ok x"
  unfolding u32_to_le_def u32_of_list.simps u32_from_to_le ..

lemma u32_of_list_Ok: "length bs = 4 \<Longrightarrow> \<exists>x. (u32_of_list bs :: ('e, u32) res) = Ok x"
  by (cases bs rule: u32_of_list.cases) auto

lemma read_exact_append [simp]: "n = length bs \<Longrightarrow> read_exact n (bs @ t) = Ok (bs, t)"
  by (simp add: read_exact_def)

lemma read_exact_Ok: "read_exact n s = Ok (bs, t) \<longleftrightarrow> s = bs @ t \<and> length bs = n"
  by (auto simp: read_exact_def)

section \<open>Chunks and headers\<close>

definition RIFF :: arr4 where "RIFF = (0x52, 0x49, 0x46, 0x46)"
definition WAVE :: arr4 where "WAVE = (0x57, 0x41, 0x56, 0x45)"
definition FMT :: arr4 where "FMT = (0x66, 0x6D, 0x74, 0x20)"
definition DATA :: arr4 where "DATA = (0x64, 0x61, 0x74, 0x61)"

definition WAVE_FORMAT_EXTENSIBLE :: u16 where
  "WAVE_FORMAT_EXTENSIBLE = 0xFFFE"

definition KS_SUBFORMAT_GUID_SUFFIX :: "byte list" where
  "KS_SUBFORMAT_GUID_SUFFIX =
     [0x00, 0x00, 0x00, 0x00, 0x10, 0x00, 0x80, 0x00, 0x00, 0xAA, 0x00, 0x38, 0x9B, 0x71]"

definition u32_max :: u32 where
  "u32_max = 0xFFFFFFFF"

datatype wav_error =
    InvalidMagic arr4 arr4
  | InvalidChunkSize arr4 u32 "u32 \<times> u32"
  | DataBeforeFmt
  | MissingFmtChunk
  | MissingDataChunk
  | WavIo io_error

record wav_chunk =
  chunk_id :: arr4
  chunk_data :: "byte list"

record chunk_header =
  hdr_chunk_id :: arr4
  hdr_chunk_size :: u32

datatype wav_audio_format = WavPcm | WavIeeeFloat | WavOther u16

definition wav_format_from :: "u16 \<Rightarrow> wav_audio_format" where
  "wav_format_from v = (if v = 1 then WavPcm else if v = 3 then WavIeeeFloat else WavOther v)"

primrec wav_format_u16 :: "wav_audio_format \<Rightarrow> u16" where
  "wav_format_u16 WavPcm = 1"
| "wav_format_u16 WavIeeeFloat = 3"
| "wav_format_u16 (WavOther v) = v"

record wav_header =
  wav_channels :: u16
  wav_sample_rate :: u32
  bits_per_sample :: u16
  valid_bits_per_sample :: u16
  audio_format :: wav_audio_format

definition found_size :: "byte list \<Rightarrow> u32" where
  "found_size d = (if length d < 2 ^ 32 then of_nat (length d) else u32_max)"

definition from_fmt_chunk_unchecked :: "bool \<Rightarrow> wav_chunk \<Rightarrow> (wav_error, wav_header) res" where
  "from_fmt_chunk_unchecked dbg chunk =
     (let d = chunk_data chunk in
      rbind (debug_assert dbg (chunk_id chunk = FMT)) (\<lambda>_.
      rbind (ensure (\<not> length d < 16)
        (InvalidChunkSize (chunk_id chunk) (found_size d) (16, u32_max))) (\<lambda>_.
      let raw_audio_format = wav_format_from (u16_from_le (d ! 0) (d ! 1));
          bits = u16_from_le (d ! 14) (d ! 15) in
      rbind (if raw_audio_format = WavOther WAVE_FORMAT_EXTENSIBLE then
               rbind (ensure (\<not> length d < 40)
                 (InvalidChunkSize (chunk_id chunk) (found_size d) (40, u32_max))) (\<lambda>_.
               let raw_valid_bits = u16_from_le (d ! 18) (d ! 19);
                   valid_bits = (if raw_valid_bits = 0 then bits else raw_valid_bits);
                   subformat = take 16 (drop 24 d);
                   fmt = (if drop 2 subformat = KS_SUBFORMAT_GUID_SUFFIX
                          then wav_format_from (u16_from_le (subformat ! 0) (subformat ! 1))
                          else WavOther (u16_from_le (subformat ! 0) (subformat ! 1)))
               in Ok (fmt, valid_bits))
             else Ok (raw_audio_format, bits)) (\<lambda>(fmt, valid_bits).
      Ok \<lparr>wav_channels = u16_from_le (d ! 2) (d ! 3),
          wav_sample_rate = u32_from_le (d ! 4) (d ! 5) (d ! 6) (d ! 7),
          bits_per_sample = bits, valid_bits_per_sample = valid_bits, audio_format = fmt\<rparr>))))"

definition needs_extensible_format :: "wav_header \<Rightarrow> bool" where
  "needs_extensible_format h \<longleftrightarrow> valid_bits_per_sample h \<noteq> bits_per_sample h \<or>
     2 < wav_channels h \<or> audio_format h = WavPcm \<and> 16 < bits_per_sample h"

definition extensible_fmt_extension :: "wav_header \<Rightarrow> byte list" where
  "extensible_fmt_extension h =
     u16_to_le 22 @ u16_to_le (valid_bits_per_sample h) @ u32_to_le 0 @
     u16_to_le (wav_format_u16 (audio_format h)) @ KS_SUBFORMAT_GUID_SUFFIX"

definition into_wav_chunk :: "bool \<Rightarrow> wav_header \<Rightarrow> byte list \<Rightarrow> ('e, wav_chunk) res" where
  "into_wav_chunk dbg h fmt_extension =
     (let needs_extensible = 24 \<le> length fmt_extension \<or> needs_extensible_format h;
          extension = (if fmt_extension = [] \<and> needs_extensible then extensible_fmt_extension h
                       else fmt_extension);
          format_tag = (if needs_extensible then WAVE_FORMAT_EXTENSIBLE
                        else wav_format_u16 (audio_format h)) in
      rbind (mul_u32 dbg (wav_sample_rate h) (ucast (wav_channels h))) (\<lambda>p.
      rbind (mul_u32 dbg p (ucast (bits_per_sample h div 8))) (\<lambda>byte_rate.
      rbind (mul_u16 dbg (wav_channels h) (bits_per_sample h div 8)) (\<lambda>block_align.
      Ok \<lparr>chunk_id = FMT,
          chunk_data = u16_to_le format_tag @ u16_to_le (wav_channels h) @
            u32_to_le (wav_sample_rate h) @ u32_to_le byte_rate @ u16_to_le block_align @
            u16_to_le (bits_per_sample h) @ extension\<rparr>))))"

section \<open>The header round trip\<close>

definition canonical_format :: "wav_audio_format \<Rightarrow> bool" where
  "canonical_format f \<longleftrightarrow> wav_format_from (wav_format_u16 f) = f"

definition written_extension :: "wav_header \<Rightarrow> byte list \<Rightarrow> byte list" where
  "written_extension h ext =
     (if ext = [] \<and> needs_extensible_format h then extensible_fmt_extension h else ext)"

definition ext_describes :: "wav_header \<Rightarrow> byte list \<Rightarrow> bool" where
  "ext_describes h ext \<longleftrightarrow> 24 \<le> length ext \<and>
     (let v = u16_from_le (ext ! 2) (ext ! 3); n = u16_from_le (ext ! 8) (ext ! 9) in
      valid_bits_per_sample h = (if v = 0 then bits_per_sample h else v) \<and>
      audio_format h = (if take 14 (drop 10 ext) = KS_SUBFORMAT_GUID_SUFFIX then wav_format_from n
                        else WavOther n))"

text \<open>
  The headers a \<^verbatim>\<open>fmt\<close> chunk can hold with the given extension: classic ones, those for which the
  extension is generated, and those whose extension describes them.
\<close>

definition fmt_ok :: "wav_header \<Rightarrow> byte list \<Rightarrow> bool" where
  "fmt_ok h ext \<longleftrightarrow>
     (if length ext < 24 \<and> \<not> needs_extensible_format h
      then canonical_format (audio_format h) \<and> audio_format h \<noteq> WavOther WAVE_FORMAT_EXTENSIBLE
      else if ext = [] then canonical_format (audio_format h) \<and>
        (valid_bits_per_sample h \<noteq> 0 \<or> bits_per_sample h = 0)
      else ext_describes h ext)"

lemma u16_le_cases:
  obtains a b where "u16_to_le x = [a, b]" "u16_from_le a b = x"
  using u16_from_to_le [of x] by (simp add: u16_to_le_def)

lemma u32_le_cases:
  obtains a b c d where "u32_to_le x = [a, b, c, d]" "u32_from_le a b c d = x"
  using u32_from_to_le [of x] by (simp only: u32_to_le_def)

lemma fmt_base_fields:
  assumes "chunk_data c = u16_to_le tag @ u16_to_le ch @ u32_to_le rate @ u32_to_le br @
    u16_to_le ba @ u16_to_le bits @ ext" "chunk_id c = FMT"
  shows "from_fmt_chunk_unchecked dbg c =
    (if wav_format_from tag \<noteq> WavOther WAVE_FORMAT_EXTENSIBLE
     then Ok \<lparr>wav_channels = ch, wav_sample_rate = rate, bits_per_sample = bits,
             valid_bits_per_sample = bits, audio_format = wav_format_from tag\<rparr>
     else if length ext < 24
     then Err (InvalidChunkSize FMT (found_size (chunk_data c)) (40, u32_max))
     else let v = u16_from_le (ext ! 2) (ext ! 3); n = u16_from_le (ext ! 8) (ext ! 9) in
       Ok \<lparr>wav_channels = ch, wav_sample_rate = rate, bits_per_sample = bits,
          valid_bits_per_sample = (if v = 0 then bits else v),
          audio_format = (if take 14 (drop 10 ext) = KS_SUBFORMAT_GUID_SUFFIX
             then wav_format_from n else WavOther n)\<rparr>)"
proof -
  obtain t0 t1 where t: "u16_to_le tag = [t0, t1]" "u16_from_le t0 t1 = tag" by (rule u16_le_cases)
  obtain c0 c1 where c: "u16_to_le ch = [c0, c1]" "u16_from_le c0 c1 = ch" by (rule u16_le_cases)
  obtain r0 r1 r2 r3 where r: "u32_to_le rate = [r0, r1, r2, r3]" "u32_from_le r0 r1 r2 r3 = rate"
    by (rule u32_le_cases)
  obtain y0 y1 y2 y3 where y: "u32_to_le br = [y0, y1, y2, y3]" by (rule u32_le_cases)
  obtain a0 a1 where a: "u16_to_le ba = [a0, a1]" by (rule u16_le_cases)
  obtain b0 b1 where b: "u16_to_le bits = [b0, b1]" "u16_from_le b0 b1 = bits" by (rule u16_le_cases)
  have d: "chunk_data c = t0 # t1 # c0 # c1 # r0 # r1 # r2 # r3 # y0 # y1 # y2 # y3 # a0 # a1 #
      b0 # b1 # ext"
    by (simp add: assms t c r y a b)
  have sub: "take 16 (drop 24 (chunk_data c)) = take 16 (drop 8 ext)" by (simp add: d)
  have sub2: "drop 2 (take 16 (drop 8 ext)) = take 14 (drop 10 ext)" by (simp add: drop_take)
  have nth: "24 \<le> length ext \<Longrightarrow> take 16 (drop 8 ext) ! 0 = ext ! 8"
    "24 \<le> length ext \<Longrightarrow> take 16 (drop 8 ext) ! 1 = ext ! 9" by simp_all
  show ?thesis
    unfolding from_fmt_chunk_unchecked_def Let_def sub sub2
    by (simp add: d assms(2) t c r b nth ensure_def)
qed

lemma into_wav_chunk_Ok:
  assumes "into_wav_chunk dbg h ext = Ok c"
  obtains br ba where "chunk_id c = FMT" "chunk_data c =
    u16_to_le (if 24 \<le> length ext \<or> needs_extensible_format h then WAVE_FORMAT_EXTENSIBLE
               else wav_format_u16 (audio_format h)) @
    u16_to_le (wav_channels h) @ u32_to_le (wav_sample_rate h) @ u32_to_le br @ u16_to_le ba @
    u16_to_le (bits_per_sample h) @ written_extension h ext"
proof -
  have "(if ext = [] \<and> (24 \<le> length ext \<or> needs_extensible_format h)
      then extensible_fmt_extension h else ext) = written_extension h ext"
    by (auto simp: written_extension_def)
  with assms that show thesis by (auto simp: into_wav_chunk_def Let_def)
qed

lemma extensible_describes:
  assumes "canonical_format (audio_format h)" "valid_bits_per_sample h \<noteq> 0 \<or> bits_per_sample h = 0"
  shows "ext_describes h (extensible_fmt_extension h)"
proof -
  obtain v0 v1 where v: "u16_to_le (valid_bits_per_sample h) = [v0, v1]"
    "u16_from_le v0 v1 = valid_bits_per_sample h" by (rule u16_le_cases)
  obtain f0 f1 where f: "u16_to_le (wav_format_u16 (audio_format h)) = [f0, f1]"
    "u16_from_le f0 f1 = wav_format_u16 (audio_format h)" by (rule u16_le_cases)
  obtain s0 s1 where s: "u16_to_le 22 = [s0, s1]" by (rule u16_le_cases)
  obtain m0 m1 m2 m3 where m: "u32_to_le 0 = [m0, m1, m2, m3]" by (rule u32_le_cases)
  show ?thesis
    using assms unfolding ext_describes_def extensible_fmt_extension_def v f s m Let_def
    by (auto simp: v f KS_SUBFORMAT_GUID_SUFFIX_def canonical_format_def)
qed

lemma wav_format_from_extensible: "wav_format_from WAVE_FORMAT_EXTENSIBLE = WavOther WAVE_FORMAT_EXTENSIBLE"
  by (simp add: wav_format_from_def WAVE_FORMAT_EXTENSIBLE_def)

lemma drop16_fmt:
  "drop 16 (u16_to_le tag @ u16_to_le ch @ u32_to_le rate @ u32_to_le br @ u16_to_le ba @
     u16_to_le bits @ ext) = ext"
  by simp

lemma fmt_chunk_roundtrip:
  assumes "into_wav_chunk dbg h ext = Ok c" "fmt_ok h ext"
  shows "from_fmt_chunk_unchecked dbg' c = Ok h \<and> drop 16 (chunk_data c) = written_extension h ext"
proof -
  from into_wav_chunk_Ok [OF assms(1)] obtain br ba where c: "chunk_id c = FMT" "chunk_data c =
    u16_to_le (if 24 \<le> length ext \<or> needs_extensible_format h then WAVE_FORMAT_EXTENSIBLE
               else wav_format_u16 (audio_format h)) @
    u16_to_le (wav_channels h) @ u32_to_le (wav_sample_rate h) @ u32_to_le br @ u16_to_le ba @
    u16_to_le (bits_per_sample h) @ written_extension h ext" .
  note dec = fmt_base_fields [OF c(2,1), of dbg']
  have "from_fmt_chunk_unchecked dbg' c = Ok h"
  proof (cases "length ext < 24 \<and> \<not> needs_extensible_format h")
    case True
    then have "valid_bits_per_sample h = bits_per_sample h" by (simp add: needs_extensible_format_def)
    then show ?thesis using True assms(2)
      by (cases h) (auto simp: dec fmt_ok_def canonical_format_def)
  next
    case False
    then have "ext_describes h (written_extension h ext)"
      using assms(2) extensible_describes [of h]
      by (cases "ext = []") (auto simp: fmt_ok_def written_extension_def)
    then show ?thesis using False
      by (cases h) (auto simp: dec wav_format_from_extensible ext_describes_def Let_def)
  qed
  then show ?thesis unfolding c(2) drop16_fmt by simp
qed

text \<open>
  A header that needs the extensible layout but comes with a short non-empty extension is written
  as a chunk its own decoder refuses.
\<close>

lemma fmt_chunk_unreadable:
  assumes "into_wav_chunk dbg h ext = Ok c" "needs_extensible_format h" "ext \<noteq> []" "length ext < 24"
  shows "from_fmt_chunk_unchecked dbg' c =
    Err (InvalidChunkSize FMT (found_size (chunk_data c)) (40, u32_max))"
proof -
  from into_wav_chunk_Ok [OF assms(1)] obtain br ba where c: "chunk_id c = FMT" "chunk_data c =
    u16_to_le (if 24 \<le> length ext \<or> needs_extensible_format h then WAVE_FORMAT_EXTENSIBLE
               else wav_format_u16 (audio_format h)) @
    u16_to_le (wav_channels h) @ u32_to_le (wav_sample_rate h) @ u32_to_le br @ u16_to_le ba @
    u16_to_le (bits_per_sample h) @ written_extension h ext" .
  from assms(2-4) show ?thesis
    by (simp add: fmt_base_fields [OF c(2,1)] wav_format_from_extensible written_extension_def)
qed

end
