(* ===== verification/Wav.thy ===== *)
theory Wav
  imports WavData
begin

text \<open>
  \<^verbatim>\<open>src/audio/wav.rs\<close>: reading and writing chunks, the streaming preamble and whole WAV files. The
  readers loop over chunks; every chunk takes at least its eight header bytes, so they terminate.
\<close>

section \<open>Chunks\<close>

text \<open>
  \<^verbatim>\<open>ChunkHeader::read\<close>: the end of the input inside the four identifier bytes is the regular end of
  the chunk list; it leaves nothing to read.
\<close>

definition chunk_header_read ::
    "byte list \<Rightarrow> (wav_error, chunk_header option \<times> byte list) res" where
  "chunk_header_read s =
     (case read_exact 4 s of
        Ok (idb, s) \<Rightarrow>
          rbind (arr4_of idb) (\<lambda>cid.
          rbind (map_err WavIo (read_exact 4 s)) (\<lambda>(size_buf, s).
          rbind (u32_of_list size_buf) (\<lambda>size.
          Ok (Some \<lparr>hdr_chunk_id = cid, hdr_chunk_size = size\<rparr>, s))))
      | Err e \<Rightarrow> if e = UnexpectedEof then Ok (None, []) else Err (WavIo e)
      | Panic \<Rightarrow> Panic)"

definition skip_chunk_padding :: "byte list \<Rightarrow> u32 \<Rightarrow> (io_error, byte list) res" where
  "skip_chunk_padding s sz =
     (if sz mod 2 = 1 then rbind (read_exact 1 s) (\<lambda>(_, s). Ok s) else Ok s)"

definition chunk_read :: "byte list \<Rightarrow> chunk_header \<Rightarrow> (wav_error, wav_chunk \<times> byte list) res" where
  "chunk_read s h =
     rbind (map_err WavIo (read_exact (unat (hdr_chunk_size h)) s)) (\<lambda>(d, s).
     rbind (map_err WavIo (skip_chunk_padding s (hdr_chunk_size h))) (\<lambda>s.
     Ok (\<lparr>chunk_id = hdr_chunk_id h, chunk_data = d\<rparr>, s)))"

definition chunk_write :: "wav_chunk \<Rightarrow> sink \<Rightarrow> (io_error, sink) res" where
  "chunk_write c w =
     rbind (ensure (length (chunk_data c) < 2 ^ 32) InvalidInput) (\<lambda>_.
     rbind (write_all (arr4_list (chunk_id c)) w) (\<lambda>w.
     rbind (write_all (u32_to_le (of_nat (length (chunk_data c)))) w) (\<lambda>w.
     rbind (write_all (chunk_data c) w) (\<lambda>w.
     if length (chunk_data c) mod 2 = 1 then write_all [0] w else Ok w))))"

definition serialized_size :: "wav_chunk \<Rightarrow> nat" where
  "serialized_size c = 8 + length (chunk_data c) + length (chunk_data c) mod 2"

primrec chunks_write :: "wav_chunk list \<Rightarrow> sink \<Rightarrow> (io_error, sink) res" where
  "chunks_write [] w = Ok w"
| "chunks_write (c # cs) w = rbind (chunk_write c w) (chunks_write cs)"

section \<open>The preamble\<close>

record wav_preamble =
  pre_chunks_before_fmt :: "wav_chunk list"
  pre_header :: wav_header
  pre_fmt_extension :: "byte list"
  pre_chunks_before_data :: "wav_chunk list"
  data_size :: u32

definition read_riff_header :: "byte list \<Rightarrow> (wav_error, byte list) res" where
  "read_riff_header s =
     rbind (map_err WavIo (read_exact 4 s)) (\<lambda>(b, s).
     rbind (arr4_of b) (\<lambda>buf.
     rbind (ensure (buf = RIFF) (InvalidMagic buf RIFF)) (\<lambda>_.
     rbind (map_err WavIo (read_exact 4 s)) (\<lambda>(_, s).
     rbind (map_err WavIo (read_exact 4 s)) (\<lambda>(b, s).
     rbind (arr4_of b) (\<lambda>buf.
     rbind (ensure (buf = WAVE) (InvalidMagic buf WAVE)) (\<lambda>_. Ok s)))))))"

definition write_riff_header :: "u32 \<Rightarrow> sink \<Rightarrow> (io_error, sink) res" where
  "write_riff_header sz w =
     rbind (write_all (arr4_list RIFF) w) (\<lambda>w.
     rbind (write_all (u32_to_le sz) w) (\<lambda>w.
     write_all (arr4_list WAVE) w))"

lemma chunk_header_read_shorter:
  "chunk_header_read s = Ok (Some h, t) \<Longrightarrow> length t + 8 = length s"
  by (auto simp: chunk_header_read_def read_exact_def split: res.splits if_splits)

lemma skip_chunk_padding_le: "skip_chunk_padding s n = Ok t \<Longrightarrow> length t \<le> length s"
  by (auto simp: skip_chunk_padding_def read_exact_def split: if_splits)

lemma chunk_read_le: "chunk_read s h = Ok (c, t) \<Longrightarrow> length t \<le> length s"
  by (auto simp: chunk_read_def read_exact_def split: if_splits dest!: skip_chunk_padding_le)

text \<open>The loop of \<^verbatim>\<open>WavPreamble::read\<close> over its four mutable locals.\<close>

function preamble_loop ::
    "bool \<Rightarrow> wav_chunk list \<Rightarrow> wav_header option \<Rightarrow> byte list \<Rightarrow> wav_chunk list \<Rightarrow> byte list \<Rightarrow>
     (wav_error, wav_preamble \<times> byte list) res" where
  "preamble_loop dbg before_fmt header fmt_extension before_data s =
     rbind (chunk_header_read s) (\<lambda>(ch, s1).
     case ch of
       None \<Rightarrow> (if header \<noteq> None then Err MissingDataChunk else Err MissingFmtChunk)
     | Some ch \<Rightarrow>
         if hdr_chunk_id ch = DATA then
           (case header of
              None \<Rightarrow> Err DataBeforeFmt
            | Some decoded \<Rightarrow>
                Ok (\<lparr>pre_chunks_before_fmt = before_fmt, pre_header = decoded,
                     pre_fmt_extension = fmt_extension, pre_chunks_before_data = before_data,
                     data_size = hdr_chunk_size ch\<rparr>, s1))
         else
           rbind (chunk_read s1 ch) (\<lambda>(chunk, s2).
           if chunk_id chunk = FMT then
             rbind (from_fmt_chunk_unchecked dbg chunk) (\<lambda>decoded.
             preamble_loop dbg before_fmt (Some decoded) (drop 16 (chunk_data chunk)) before_data s2)
           else if header \<noteq> None then
             preamble_loop dbg before_fmt header fmt_extension (before_data @ [chunk]) s2
           else preamble_loop dbg (before_fmt @ [chunk]) header fmt_extension before_data s2))"
  by pat_completeness auto

termination
  by (relation "measure (\<lambda>(_, _, _, _, _, s). length s)")
    (auto dest!: chunk_header_read_shorter chunk_read_le)

definition preamble_read :: "bool \<Rightarrow> byte list \<Rightarrow> (wav_error, wav_preamble \<times> byte list) res" where
  "preamble_read dbg s = rbind (read_riff_header s) (preamble_loop dbg [] None [] [])"

definition preamble_write_stream :: "bool \<Rightarrow> wav_preamble \<Rightarrow> sink \<Rightarrow> (io_error, sink) res" where
  "preamble_write_stream dbg p w =
     rbind (write_riff_header 0xFFFFFFFF w) (\<lambda>w.
     rbind (chunks_write (pre_chunks_before_fmt p) w) (\<lambda>w.
     rbind (into_wav_chunk dbg (pre_header p) (pre_fmt_extension p)) (\<lambda>fmt.
     rbind (chunk_write fmt w) (\<lambda>w.
     rbind (chunks_write (pre_chunks_before_data p) w) (\<lambda>w.
     rbind (write_all (arr4_list DATA) w) (\<lambda>w.
     write_all (u32_to_le 0xFFFFFFFF) w))))))"

section \<open>Whole files\<close>

record wav =
  chunks_before_fmt :: "wav_chunk list"
  header :: wav_header
  fmt_extension :: "byte list"
  chunks_before_data :: "wav_chunk list"
  wav_data :: "byte list"
  chunks_after_data :: "wav_chunk list"

definition from_header_and_data :: "wav_header \<Rightarrow> byte list \<Rightarrow> wav" where
  "from_header_and_data h d =
     \<lparr>chunks_before_fmt = [], header = h, fmt_extension = [], chunks_before_data = [],
      wav_data = d, chunks_after_data = []\<rparr>"

function chunks_read :: "byte list \<Rightarrow> (wav_error, wav_chunk list \<times> byte list) res" where
  "chunks_read s =
     rbind (chunk_header_read s) (\<lambda>(ch, s1).
     case ch of
       None \<Rightarrow> Ok ([], s1)
     | Some ch \<Rightarrow>
         rbind (chunk_read s1 ch) (\<lambda>(c, s2).
         rbind (chunks_read s2) (\<lambda>(cs, s3). Ok (c # cs, s3))))"
  by pat_completeness auto

termination
  by (relation "measure length") (auto dest!: chunk_header_read_shorter chunk_read_le)

definition wav_read :: "bool \<Rightarrow> byte list \<Rightarrow> (wav_error, wav \<times> byte list) res" where
  "wav_read dbg s =
     rbind (preamble_read dbg s) (\<lambda>(p, s).
     rbind (map_err WavIo (read_exact (unat (data_size p)) s)) (\<lambda>(d, s).
     rbind (map_err WavIo (skip_chunk_padding s (data_size p))) (\<lambda>s.
     rbind (chunks_read s) (\<lambda>(after_data, s).
     Ok (\<lparr>chunks_before_fmt = pre_chunks_before_fmt p, header = pre_header p,
          fmt_extension = pre_fmt_extension p, chunks_before_data = pre_chunks_before_data p,
          wav_data = d, chunks_after_data = after_data\<rparr>, s)))))"

definition riff_size :: "wav \<Rightarrow> wav_chunk \<Rightarrow> wav_chunk \<Rightarrow> nat" where
  "riff_size v fmt_chunk data_chunk =
     4 + sum_list (map serialized_size (chunks_before_fmt v)) + serialized_size fmt_chunk +
     sum_list (map serialized_size (chunks_before_data v)) + serialized_size data_chunk +
     sum_list (map serialized_size (chunks_after_data v))"

definition wav_write :: "bool \<Rightarrow> wav \<Rightarrow> sink \<Rightarrow> (io_error, sink) res" where
  "wav_write dbg v w =
     rbind (into_wav_chunk dbg (header v) (fmt_extension v)) (\<lambda>fmt_chunk.
     let data_chunk = \<lparr>chunk_id = DATA, chunk_data = wav_data v\<rparr>;
         size = riff_size v fmt_chunk data_chunk in
     rbind (ensure (size < 2 ^ 32) InvalidInput) (\<lambda>_.
     rbind (write_riff_header (of_nat size) w) (\<lambda>w.
     rbind (chunks_write (chunks_before_fmt v) w) (\<lambda>w.
     rbind (chunk_write fmt_chunk w) (\<lambda>w.
     rbind (chunks_write (chunks_before_data v) w) (\<lambda>w.
     rbind (chunk_write data_chunk w) (\<lambda>w.
     chunks_write (chunks_after_data v) w)))))))"

declare preamble_loop.simps [simp del] chunks_read.simps [simp del]

section \<open>The serialized form\<close>

definition padding :: "nat \<Rightarrow> byte list" where
  "padding n = (if n mod 2 = 1 then [0] else [])"

definition chunk_bytes :: "wav_chunk \<Rightarrow> byte list" where
  "chunk_bytes c = arr4_list (chunk_id c) @ u32_to_le (of_nat (length (chunk_data c))) @
     chunk_data c @ padding (length (chunk_data c))"

definition chunk_ok :: "wav_chunk \<Rightarrow> bool" where
  "chunk_ok c \<longleftrightarrow> length (chunk_data c) < 2 ^ 32"

abbreviation chunks_bytes :: "wav_chunk list \<Rightarrow> byte list" where
  "chunks_bytes cs \<equiv> concat (map chunk_bytes cs)"

lemma arr4_of_list [simp]: "arr4_of (arr4_list a) = Ok a"
  by simp

lemma length_chunk_bytes [simp]: "length (chunk_bytes c) = serialized_size c"
  by (auto simp: chunk_bytes_def padding_def serialized_size_def)

lemma length_chunks_bytes: "length (chunks_bytes cs) = sum_list (map serialized_size cs)"
  by (induction cs) auto

lemma write_all_Ok: "write_all bs w = Ok w' \<Longrightarrow> w' = (fst w @ bs, snd w)"
  by (simp add: write_all_def split: if_splits)

lemma chunk_write_Ok:
  "chunk_write c w = Ok w' \<Longrightarrow> w' = (fst w @ chunk_bytes c, snd w) \<and> chunk_ok c"
  by (auto simp: chunk_write_def chunk_bytes_def padding_def chunk_ok_def
      split: if_splits dest!: write_all_Ok)

lemma chunks_write_Ok:
  "chunks_write cs w = Ok w' \<Longrightarrow> w' = (fst w @ chunks_bytes cs, snd w) \<and> (\<forall>c\<in>set cs. chunk_ok c)"
  by (induction cs arbitrary: w) (fastforce dest!: chunk_write_Ok)+

lemma write_riff_header_Ok:
  "write_riff_header n w = Ok w' \<Longrightarrow>
   w' = (fst w @ arr4_list RIFF @ u32_to_le n @ arr4_list WAVE, snd w)"
  by (auto simp: write_riff_header_def dest!: write_all_Ok)

lemma skip_padding:
  "n < 2 ^ 32 \<Longrightarrow> skip_chunk_padding (padding n @ t) (of_nat n) = Ok t"
proof -
  assume n: "n < 2 ^ 32"
  then have "(of_nat n :: u32) mod 2 = 1 \<longleftrightarrow> n mod 2 = 1"
    by (simp add: word_unat_eq_iff unat_mod_distrib)
  then show ?thesis by (simp add: skip_chunk_padding_def padding_def read_exact_def)
qed

lemma chunk_header_read_bytes:
  "chunk_header_read (arr4_list i @ u32_to_le n @ t) =
   Ok (Some \<lparr>hdr_chunk_id = i, hdr_chunk_size = n\<rparr>, t)"
  by (simp add: chunk_header_read_def)

lemma chunk_read_bytes:
  assumes "chunk_ok c"
  shows "chunk_read (chunk_data c @ padding (length (chunk_data c)) @ t)
      \<lparr>hdr_chunk_id = chunk_id c, hdr_chunk_size = of_nat (length (chunk_data c))\<rparr> = Ok (c, t)"
  using assms by (simp add: chunk_read_def skip_padding chunk_ok_def)

lemma chunk_header_read_chunk:
  "chunk_header_read (chunk_bytes c @ t) =
   Ok (Some \<lparr>hdr_chunk_id = chunk_id c, hdr_chunk_size = of_nat (length (chunk_data c))\<rparr>,
       chunk_data c @ padding (length (chunk_data c)) @ t)"
  by (simp add: chunk_bytes_def chunk_header_read_bytes)

lemma chunk_header_read_Nil [simp]: "chunk_header_read [] = Ok (None, [])"
  by (simp add: chunk_header_read_def read_exact_def)

lemma chunks_read_bytes:
  "\<forall>c\<in>set cs. chunk_ok c \<Longrightarrow> chunks_read (chunks_bytes cs) = Ok (cs, [])"
proof (induction cs)
  case Nil
  show ?case by (subst chunks_read.simps) simp
next
  case (Cons c cs)
  then show ?case
    by (subst chunks_read.simps) (simp add: chunk_header_read_chunk chunk_read_bytes)
qed

lemma preamble_loop_before_fmt:
  "\<forall>c\<in>set cs. chunk_ok c \<and> chunk_id c \<noteq> FMT \<and> chunk_id c \<noteq> DATA \<Longrightarrow>
   preamble_loop dbg bf None ext bd (chunks_bytes cs @ t) = preamble_loop dbg (bf @ cs) None ext bd t"
proof (induction cs arbitrary: bf)
  case (Cons c cs)
  then show ?case
    by (subst preamble_loop.simps) (simp add: chunk_header_read_chunk chunk_read_bytes)
qed simp

lemma preamble_loop_before_data:
  "\<forall>c\<in>set cs. chunk_ok c \<and> chunk_id c \<noteq> FMT \<and> chunk_id c \<noteq> DATA \<Longrightarrow>
   preamble_loop dbg bf (Some h) ext bd (chunks_bytes cs @ t) =
   preamble_loop dbg bf (Some h) ext (bd @ cs) t"
proof (induction cs arbitrary: bd)
  case (Cons c cs)
  then show ?case
    by (subst preamble_loop.simps) (simp add: chunk_header_read_chunk chunk_read_bytes)
qed simp

lemma preamble_loop_fmt:
  assumes "into_wav_chunk dbg h ext = Ok c" "fmt_ok h ext" "chunk_ok c"
  shows "preamble_loop dbg' bf hdr0 ext0 bd (chunk_bytes c @ t) =
    preamble_loop dbg' bf (Some h) (written_extension h ext) bd t"
proof -
  from assms(1) have i: "chunk_id c = FMT" by (auto elim: into_wav_chunk_Ok)
  moreover have "FMT \<noteq> DATA" by (simp add: FMT_def DATA_def)
  moreover note chunk_read_bytes [OF assms(3), of t, unfolded i]
  ultimately show ?thesis
    using fmt_chunk_roundtrip [OF assms(1,2), of dbg']
    by (subst preamble_loop.simps) (simp add: chunk_header_read_chunk)
qed

lemma preamble_loop_data:
  "preamble_loop dbg bf (Some h) ext bd (arr4_list DATA @ u32_to_le n @ t) =
   Ok (\<lparr>pre_chunks_before_fmt = bf, pre_header = h, pre_fmt_extension = ext,
        pre_chunks_before_data = bd, data_size = n\<rparr>, t)"
  by (subst preamble_loop.simps) (simp add: chunk_header_read_bytes)

lemma read_riff_header_bytes:
  "read_riff_header (arr4_list RIFF @ u32_to_le n @ arr4_list WAVE @ t) = Ok t"
  by (simp add: read_riff_header_def)

section \<open>Writing, then reading\<close>

definition plain_chunk :: "wav_chunk \<Rightarrow> bool" where
  "plain_chunk c \<longleftrightarrow> chunk_id c \<noteq> FMT \<and> chunk_id c \<noteq> DATA"

definition wav_ok :: "wav \<Rightarrow> bool" where
  "wav_ok v \<longleftrightarrow> fmt_ok (header v) (fmt_extension v) \<and>
     list_all plain_chunk (chunks_before_fmt v) \<and> list_all plain_chunk (chunks_before_data v)"

definition wav_bytes :: "wav \<Rightarrow> wav_chunk \<Rightarrow> byte list" where
  "wav_bytes v fmt_chunk =
     (let data_chunk = \<lparr>chunk_id = DATA, chunk_data = wav_data v\<rparr> in
      arr4_list RIFF @ u32_to_le (of_nat (riff_size v fmt_chunk data_chunk)) @ arr4_list WAVE @
      chunks_bytes (chunks_before_fmt v) @ chunk_bytes fmt_chunk @
      chunks_bytes (chunks_before_data v) @ chunk_bytes data_chunk @
      chunks_bytes (chunks_after_data v))"

lemma wav_write_Ok:
  assumes "wav_write dbg v w = Ok w'"
  obtains c where "into_wav_chunk dbg (header v) (fmt_extension v) = (Ok c :: (io_error, _) res)"
    "w' = (fst w @ wav_bytes v c, snd w)"
    "riff_size v c \<lparr>chunk_id = DATA, chunk_data = wav_data v\<rparr> < 2 ^ 32" "chunk_ok c"
    "\<forall>c\<in>set (chunks_before_fmt v). chunk_ok c" "\<forall>c\<in>set (chunks_before_data v). chunk_ok c"
    "\<forall>c\<in>set (chunks_after_data v). chunk_ok c" "length (wav_data v) < 2 ^ 32"
  using assms
  by (auto simp: wav_write_def wav_bytes_def Let_def chunk_ok_def [where c = "\<lparr>chunk_id = DATA, chunk_data = wav_data v\<rparr>"]
      dest!: write_riff_header_Ok chunks_write_Ok chunk_write_Ok)

lemma length_wav_bytes:
  "length (wav_bytes v c) = 8 + riff_size v c \<lparr>chunk_id = DATA, chunk_data = wav_data v\<rparr>"
  by (simp add: wav_bytes_def riff_size_def Let_def length_chunks_bytes)

lemma preamble_read_written:
  assumes "into_wav_chunk dbg (header v) (fmt_extension v) = Ok c" "wav_ok v" "chunk_ok c"
    "\<forall>c\<in>set (chunks_before_fmt v). chunk_ok c" "\<forall>c\<in>set (chunks_before_data v). chunk_ok c"
  shows "preamble_read dbg' (arr4_list RIFF @ u32_to_le m @ arr4_list WAVE @
      chunks_bytes (chunks_before_fmt v) @ chunk_bytes c @ chunks_bytes (chunks_before_data v) @
      arr4_list DATA @ u32_to_le n @ t) =
    Ok (\<lparr>pre_chunks_before_fmt = chunks_before_fmt v, pre_header = header v,
         pre_fmt_extension = written_extension (header v) (fmt_extension v),
         pre_chunks_before_data = chunks_before_data v, data_size = n\<rparr>, t)"
  using assms
  unfolding preamble_read_def read_riff_header_bytes wav_ok_def list_all_iff plain_chunk_def
  by (simp add: preamble_loop_before_fmt preamble_loop_before_data preamble_loop_data
      preamble_loop_fmt [OF assms(1)])

lemma wav_read_written:
  assumes "into_wav_chunk dbg (header v) (fmt_extension v) = Ok c" "wav_ok v" "chunk_ok c"
    "\<forall>c\<in>set (chunks_before_fmt v). chunk_ok c" "\<forall>c\<in>set (chunks_before_data v). chunk_ok c"
    "\<forall>c\<in>set (chunks_after_data v). chunk_ok c" "length (wav_data v) < 2 ^ 32"
  shows "wav_read dbg' (wav_bytes v c) =
    Ok (v\<lparr>fmt_extension := written_extension (header v) (fmt_extension v)\<rparr>, [])"
proof -
  have b: "wav_bytes v c = arr4_list RIFF @
      u32_to_le (of_nat (riff_size v c \<lparr>chunk_id = DATA, chunk_data = wav_data v\<rparr>)) @
      arr4_list WAVE @ chunks_bytes (chunks_before_fmt v) @ chunk_bytes c @
      chunks_bytes (chunks_before_data v) @ arr4_list DATA @
      u32_to_le (of_nat (length (wav_data v))) @ wav_data v @ padding (length (wav_data v)) @
      chunks_bytes (chunks_after_data v)"
    by (simp add: wav_bytes_def chunk_bytes_def [where c = "\<lparr>chunk_id = DATA, chunk_data = wav_data v\<rparr>"]
        Let_def)
  show ?thesis
    unfolding wav_read_def b preamble_read_written [OF assms(1-5)]
    using assms(6,7) by (simp add: skip_padding chunks_read_bytes)
qed

section \<open>What a successful read returns\<close>

lemma chunk_read_ok: "chunk_read s h = Ok (c, t) \<Longrightarrow> chunk_ok c \<and> chunk_id c = hdr_chunk_id h"
  using unat_u32_lt [of "hdr_chunk_size h"]
  by (auto simp: chunk_read_def read_exact_Ok chunk_ok_def)

lemma preamble_loop_chunks:
  assumes "preamble_loop dbg bf hdr ext bd s = Ok (p, t)"
    and "list_all (\<lambda>c. plain_chunk c \<and> chunk_ok c) bf" "list_all (\<lambda>c. plain_chunk c \<and> chunk_ok c) bd"
  shows "list_all (\<lambda>c. plain_chunk c \<and> chunk_ok c) (pre_chunks_before_fmt p) \<and>
    list_all (\<lambda>c. plain_chunk c \<and> chunk_ok c) (pre_chunks_before_data p)"
  using assms
proof (induction dbg bf hdr ext bd s rule: preamble_loop.induct)
  case (1 dbg bf hdr ext bd s)
  from "1.prems"(1) obtain ch s1 where ch: "chunk_header_read s = Ok (Some ch, s1)"
    by (subst (asm) preamble_loop.simps) (auto split: option.splits if_splits)
  show ?case
  proof (cases "hdr_chunk_id ch = DATA")
    case True
    with "1.prems" ch show ?thesis
      by (subst (asm) preamble_loop.simps) (auto split: option.splits)
  next
    case False
    with "1.prems"(1) ch obtain c s2 where c: "chunk_read s1 ch = Ok (c, s2)"
      by (subst (asm) preamble_loop.simps) auto
    note IH = "1.IH" [OF ch refl refl False c refl]
    from chunk_read_ok [OF c] have ok: "chunk_ok c" "chunk_id c \<noteq> DATA" using False by auto
    show ?thesis
    proof (cases "chunk_id c = FMT")
      case True
      with "1.prems"(1) ch c False obtain d where "from_fmt_chunk_unchecked dbg c = Ok d"
        "preamble_loop dbg bf (Some d) (drop 16 (chunk_data c)) bd s2 = Ok (p, t)"
        by (subst (asm) preamble_loop.simps) auto
      with IH(1) True "1.prems"(2,3) show ?thesis by blast
    next
      case nf: False
      with "1.prems" ch c False ok IH(2,3) show ?thesis
        by (subst (asm) preamble_loop.simps) (auto simp: plain_chunk_def split: if_splits)
    qed
  qed
qed

lemma wav_read_chunks:
  assumes "wav_read dbg s = Ok (v, t)"
  shows "list_all plain_chunk (chunks_before_fmt v) \<and> list_all plain_chunk (chunks_before_data v)"
proof -
  from assms obtain p s1 where "preamble_read dbg s = Ok (p, s1)"
    and v: "chunks_before_fmt v = pre_chunks_before_fmt p" "chunks_before_data v = pre_chunks_before_data p"
    unfolding wav_read_def by auto
  then obtain s0 where "preamble_loop dbg [] None [] [] s0 = Ok (p, s1)"
    by (auto simp: preamble_read_def)
  from preamble_loop_chunks [OF this] show ?thesis by (auto simp: v list_all_iff)
qed

section \<open>No read panics\<close>

lemma read_exact_not_Panic [simp]: "read_exact n s \<noteq> Panic"
  by (simp add: read_exact_def)

lemma skip_chunk_padding_not_Panic [simp]: "skip_chunk_padding s n \<noteq> Panic"
  by (simp add: skip_chunk_padding_def rbind_eq_Panic)

lemma chunk_header_read_not_Panic [simp]: "chunk_header_read s \<noteq> Panic"
proof -
  have "arr4_of bs \<noteq> (Panic :: (wav_error, arr4) res)" if "length bs = 4" for bs
    using arr4_of_Ok [OF that, where 'e = wav_error] by auto
  moreover have "u32_of_list bs \<noteq> (Panic :: (wav_error, u32) res)" if "length bs = 4" for bs
    using u32_of_list_Ok [OF that, where 'e = wav_error] by auto
  ultimately show ?thesis
    by (auto simp: chunk_header_read_def rbind_eq_Panic read_exact_Ok split: res.splits)
qed

lemma chunk_read_not_Panic [simp]: "chunk_read s h \<noteq> Panic"
  by (auto simp: chunk_read_def rbind_eq_Panic)

lemma from_fmt_chunk_not_Panic: "chunk_id c = FMT \<Longrightarrow> from_fmt_chunk_unchecked dbg c \<noteq> Panic"
  by (simp add: from_fmt_chunk_unchecked_def rbind_eq_Panic Let_def)

lemma preamble_loop_not_Panic: "preamble_loop dbg bf hdr ext bd s \<noteq> Panic"
proof (induction dbg bf hdr ext bd s rule: preamble_loop.induct)
  case (1 dbg bf hdr ext bd s)
  then show ?case
    by (subst preamble_loop.simps)
      (auto simp: rbind_eq_Panic from_fmt_chunk_not_Panic split: option.splits)
qed

lemma chunks_read_not_Panic: "chunks_read s \<noteq> Panic"
proof (induction s rule: chunks_read.induct)
  case (1 s)
  then show ?case
    by (subst chunks_read.simps) (auto simp: rbind_eq_Panic split: option.splits)
qed

lemma read_riff_header_not_Panic [simp]: "read_riff_header s \<noteq> Panic"
proof -
  have "arr4_of bs \<noteq> (Panic :: (wav_error, arr4) res)" if "length bs = 4" for bs
    using arr4_of_Ok [OF that, where 'e = wav_error] by auto
  then show ?thesis by (auto simp: read_riff_header_def rbind_eq_Panic read_exact_Ok)
qed

section \<open>Writing into a buffer\<close>

lemma write_all_vec [simp]: "write_all bs (s, None) = Ok (s @ bs, None)"
  by (simp add: write_all_def)

lemma chunk_write_vec:
  "chunk_write c (s, None) =
   (if chunk_ok c then Ok (s @ chunk_bytes c, None) else Err InvalidInput)"
  by (simp add: chunk_write_def chunk_ok_def chunk_bytes_def padding_def ensure_def)

lemma chunks_write_vec:
  "\<forall>c\<in>set cs. chunk_ok c \<Longrightarrow> chunks_write cs (s, None) = Ok (s @ chunks_bytes cs, None)"
  by (induction cs arbitrary: s) (auto simp: chunk_write_vec)

lemma chunk_ok_of_size: "serialized_size c < 2 ^ 32 \<Longrightarrow> chunk_ok c"
  by (simp add: serialized_size_def chunk_ok_def)

lemma chunks_ok_of_size: "sum_list (map serialized_size cs) < 2 ^ 32 \<Longrightarrow> \<forall>c\<in>set cs. chunk_ok c"
  by (induction cs) (auto simp: chunk_ok_of_size)

lemma wav_write_vec:
  assumes "into_wav_chunk dbg (header v) (fmt_extension v) = (Ok c :: (io_error, _) res)"
    and "riff_size v c \<lparr>chunk_id = DATA, chunk_data = wav_data v\<rparr> < 2 ^ 32"
  shows "wav_write dbg v ([], None) = Ok (wav_bytes v c, None)"
proof -
  let ?d = "\<lparr>chunk_id = DATA, chunk_data = wav_data v\<rparr>"
  have "\<forall>c\<in>set (chunks_before_fmt v). chunk_ok c" "\<forall>c\<in>set (chunks_before_data v). chunk_ok c"
    "\<forall>c\<in>set (chunks_after_data v). chunk_ok c" "chunk_ok c" "chunk_ok ?d"
    using assms(2) unfolding riff_size_def by (rule_tac chunks_ok_of_size chunk_ok_of_size; simp)+
  with assms show ?thesis
    by (simp add: wav_write_def wav_bytes_def Let_def write_riff_header_def chunks_write_vec
        chunk_write_vec)
qed

section \<open>Properties\<close>


definition sample_wav :: wav where
  "sample_wav =
     \<lparr>chunks_before_fmt = [\<lparr>chunk_id = (0x4C, 0x49, 0x53, 0x54), chunk_data = [1, 2, 3]\<rparr>],
      header = \<lparr>wav_channels = 1, wav_sample_rate = 48000, bits_per_sample = 24,
        valid_bits_per_sample = 20, audio_format = WavPcm\<rparr>,
      fmt_extension = [], chunks_before_data = [], wav_data = [1, 2, 0], chunks_after_data = []\<rparr>"

lemma sample_wav_ok: "wav_ok sample_wav"
  by (simp add: wav_ok_def sample_wav_def fmt_ok_def needs_extensible_format_def
      canonical_format_def wav_format_from_def plain_chunk_def FMT_def DATA_def)

lemma sample_wav_write: "\<exists>out. wav_write True sample_wav ([], None) = Ok (out, None)"
proof -
  obtain c where c: "into_wav_chunk True (header sample_wav) (fmt_extension sample_wav)
      = (Ok c :: (io_error, _) res)"
    by (simp add: into_wav_chunk_def sample_wav_def mul_u32_def mul_u16_def Let_def)
  then have "length (chunk_data c) = 40"
    by (rule into_wav_chunk_Ok)
      (simp add: sample_wav_def written_extension_def needs_extensible_format_def
        extensible_fmt_extension_def KS_SUBFORMAT_GUID_SUFFIX_def)
  then have "riff_size sample_wav c \<lparr>chunk_id = DATA, chunk_data = wav_data sample_wav\<rparr> < 2 ^ 32"
    by (simp add: riff_size_def serialized_size_def sample_wav_def)
  from wav_write_vec [OF c this] show ?thesis by blast
qed


text \<open>C19: The outcome of a write into a growing buffer, completely: a panic only from the overflow
  checks of the byte rate and block size in a debug build, an \<^verbatim>\<open>InvalidInput\<close> error exactly when the
  file does not fit its 32-bit size field, and otherwise a file whose size field is its length less
  eight.\<close>

theorem wav_write_outcome:
  "case into_wav_chunk dbg (header v) (fmt_extension v) of
     Ok c \<Rightarrow>
       (let n = riff_size v c \<lparr>chunk_id = DATA, chunk_data = wav_data v\<rparr> in
        if n < 2 ^ 32
        then \<exists>out. wav_write dbg v ([], None) = Ok (out, None) \<and> length out = n + 8 \<and>
               take 12 out = arr4_list RIFF @ u32_to_le (of_nat n) @ arr4_list WAVE
        else wav_write dbg v ([], None) = Err InvalidInput)
   | Err e \<Rightarrow> wav_write dbg v ([], None) = Err (e :: io_error)
   | Panic \<Rightarrow> wav_write dbg v ([], None) = Panic"
proof (cases "into_wav_chunk dbg (header v) (fmt_extension v) :: (io_error, _) res")
  case (Ok c)
  show ?thesis
  proof (cases "riff_size v c \<lparr>chunk_id = DATA, chunk_data = wav_data v\<rparr> < 2 ^ 32")
    case True
    from wav_write_vec [OF Ok True] True show ?thesis
      by (simp add: Ok Let_def length_wav_bytes) (simp add: wav_bytes_def Let_def)
  qed (simp add: Ok wav_write_def ensure_def Let_def)
qed (simp_all add: wav_write_def)


text \<open>C24: A header that needs the extensible layout, with a short non-empty extension (a 24-bit PCM
  file whose \<^verbatim>\<open>fmt\<close> chunk ends with the two-byte \<^verbatim>\<open>cbSize\<close> field, as read from disk), is written as a
  file that the reader refuses.\<close>

theorem wav_short_extension_unreadable:
  assumes "wav_write dbg v ([], k) = Ok (out, k')" "list_all plain_chunk (chunks_before_fmt v)"
    and "needs_extensible_format (header v)" "fmt_extension v \<noteq> []" "length (fmt_extension v) < 24"
  shows "\<exists>n. wav_read dbg' out = Err (InvalidChunkSize FMT n (40, u32_max))"
proof -
  from wav_write_Ok [OF assms(1)] obtain c
    where c: "into_wav_chunk dbg (header v) (fmt_extension v) = (Ok c :: (io_error, _) res)"
      "out = wav_bytes v c" "chunk_ok c" "\<forall>c\<in>set (chunks_before_fmt v). chunk_ok c"
    by auto
  from c(1) have i: "chunk_id c = FMT" by (auto elim: into_wav_chunk_Ok)
  have "FMT \<noteq> DATA" by (simp add: FMT_def DATA_def)
  with fmt_chunk_unreadable [OF c(1) assms(3-5), of dbg'] i
  have "preamble_loop dbg' bf None [] [] (chunk_bytes c @ t) =
      Err (InvalidChunkSize FMT (found_size (chunk_data c)) (40, u32_max))" for bf t
    using chunk_read_bytes [OF c(3), of t, unfolded i]
    by (subst preamble_loop.simps) (simp add: chunk_header_read_chunk)
  with c(4) assms(2) show ?thesis
    unfolding c(2) wav_read_def preamble_read_def wav_bytes_def Let_def read_riff_header_bytes
    by (simp add: preamble_loop_before_fmt list_all_iff plain_chunk_def)
qed

definition cbsize_wav :: wav where
  "cbsize_wav =
     \<lparr>chunks_before_fmt = [],
      header = \<lparr>wav_channels = 2, wav_sample_rate = 48000, bits_per_sample = 24,
        valid_bits_per_sample = 24, audio_format = WavPcm\<rparr>,
      fmt_extension = [0, 0], chunks_before_data = [], wav_data = [1, 2, 3, 4, 5, 6],
      chunks_after_data = []\<rparr>"

theorem wav_short_extension_unreadable_witness:
  "\<exists>out n. wav_write True cbsize_wav ([], None) = Ok (out, None) \<and>
    wav_read True out = Err (InvalidChunkSize FMT n (40, u32_max))"
proof -
  obtain c where c: "into_wav_chunk True (header cbsize_wav) (fmt_extension cbsize_wav)
      = (Ok c :: (io_error, _) res)"
    by (simp add: into_wav_chunk_def cbsize_wav_def mul_u32_def mul_u16_def Let_def)
  then have "length (chunk_data c) = 18"
    by (rule into_wav_chunk_Ok) (simp add: cbsize_wav_def written_extension_def)
  then have "riff_size cbsize_wav c \<lparr>chunk_id = DATA, chunk_data = wav_data cbsize_wav\<rparr> < 2 ^ 32"
    by (simp add: riff_size_def serialized_size_def cbsize_wav_def)
  from wav_write_vec [OF c this]
  have w: "wav_write True cbsize_wav ([], None) = Ok (wav_bytes cbsize_wav c, None)" by simp
  have "needs_extensible_format (header cbsize_wav)"
    by (simp add: cbsize_wav_def needs_extensible_format_def)
  from wav_short_extension_unreadable [OF w _ this] w show ?thesis
    by (auto simp: cbsize_wav_def)
qed

end
