(* ===== verification/Pcm.thy ===== *)
theory Pcm
  imports StreamHeader WavData
begin

text \<open>
  \<^verbatim>\<open>src/avtp/formats/aaf/pcm.rs\<close> and \<^verbatim>\<open>src/avtp/formats/aaf/aes3.rs\<close>, with the format tag and the raw
  container of \<^verbatim>\<open>src/avtp/formats/aaf/common.rs\<close> they rest on: PCM parameters, their validation, and
  their packing into the three format-specific bytes.
\<close>

section \<open>Formats and sample rates\<close>

datatype aaf_format = AafUser | AafFloat32Bit | AafInt32Bit | AafInt24Bit | AafInt16Bit | AafAES3_32Bit

primrec aaf_format_u8 :: "aaf_format \<Rightarrow> byte" where
  "aaf_format_u8 AafUser = 0x00"
| "aaf_format_u8 AafFloat32Bit = 0x01"
| "aaf_format_u8 AafInt32Bit = 0x02"
| "aaf_format_u8 AafInt24Bit = 0x03"
| "aaf_format_u8 AafInt16Bit = 0x04"
| "aaf_format_u8 AafAES3_32Bit = 0x05"

definition aaf_format_try_from :: "byte \<Rightarrow> (byte, aaf_format) res" where
  "aaf_format_try_from b = ok_or b (find (\<lambda>f. aaf_format_u8 f = b)
     [AafUser, AafFloat32Bit, AafInt32Bit, AafInt24Bit, AafInt16Bit, AafAES3_32Bit])"

datatype pcm_format = User | Float32Bit | Int32Bit | Int24Bit | Int16Bit

primrec pcm_format_u8 :: "pcm_format \<Rightarrow> byte" where
  "pcm_format_u8 User = 0x00"
| "pcm_format_u8 Float32Bit = 0x01"
| "pcm_format_u8 Int32Bit = 0x02"
| "pcm_format_u8 Int24Bit = 0x03"
| "pcm_format_u8 Int16Bit = 0x04"

definition pcm_format_try_from :: "byte \<Rightarrow> (byte, pcm_format) res" where
  "pcm_format_try_from b = ok_or b (find (\<lambda>f. pcm_format_u8 f = b)
     [User, Float32Bit, Int32Bit, Int24Bit, Int16Bit])"

primrec word_size :: "pcm_format \<Rightarrow> nat option" where
  "word_size User = None"
| "word_size Float32Bit = Some 32"
| "word_size Int32Bit = Some 32"
| "word_size Int24Bit = Some 24"
| "word_size Int16Bit = Some 16"

datatype unsupported_wav_encoding =
    UnsupportedBitDepth u16
  | InvalidFloatBitDepth u16
  | UnsupportedAudioFormat wav_audio_format

definition from_wav_header :: "wav_header \<Rightarrow> (unsupported_wav_encoding, pcm_format) res" where
  "from_wav_header h =
     (case audio_format h of
        WavPcm \<Rightarrow>
          if bits_per_sample h = 16 then Ok Int16Bit
          else if bits_per_sample h = 24 then Ok Int24Bit
          else if bits_per_sample h = 32 then Ok Int32Bit
          else Err (UnsupportedBitDepth (bits_per_sample h))
      | WavIeeeFloat \<Rightarrow>
          if bits_per_sample h = 32 then Ok Float32Bit
          else Err (InvalidFloatBitDepth (bits_per_sample h))
      | WavOther n \<Rightarrow> Err (UnsupportedAudioFormat (audio_format h)))"

datatype sample_rate =
    UserSpecified | KHz8 | KHz16 | KHz32 | KHz44_1 | KHz48 | KHz88_2 | KHz96 | KHz176_4 | KHz192
  | KHz24

primrec sample_rate_u8 :: "sample_rate \<Rightarrow> byte" where
  "sample_rate_u8 UserSpecified = 0x0"
| "sample_rate_u8 KHz8 = 0x1"
| "sample_rate_u8 KHz16 = 0x2"
| "sample_rate_u8 KHz32 = 0x3"
| "sample_rate_u8 KHz44_1 = 0x4"
| "sample_rate_u8 KHz48 = 0x5"
| "sample_rate_u8 KHz88_2 = 0x6"
| "sample_rate_u8 KHz96 = 0x7"
| "sample_rate_u8 KHz176_4 = 0x8"
| "sample_rate_u8 KHz192 = 0x9"
| "sample_rate_u8 KHz24 = 0xA"

definition sample_rates :: "sample_rate list" where
  "sample_rates = [UserSpecified, KHz8, KHz16, KHz32, KHz44_1, KHz48, KHz88_2, KHz96, KHz176_4,
     KHz192, KHz24]"

definition sample_rate_try_from :: "byte \<Rightarrow> (byte, sample_rate) res" where
  "sample_rate_try_from b = ok_or b (find (\<lambda>r. sample_rate_u8 r = b) sample_rates)"

definition from_hz :: "u32 \<Rightarrow> sample_rate option" where
  "from_hz hz =
     (if hz = 8000 then Some KHz8
      else if hz = 16000 then Some KHz16
      else if hz = 24000 then Some KHz24
      else if hz = 32000 then Some KHz32
      else if hz = 44100 then Some KHz44_1
      else if hz = 48000 then Some KHz48
      else if hz = 88200 then Some KHz88_2
      else if hz = 96000 then Some KHz96
      else if hz = 176400 then Some KHz176_4
      else if hz = 192000 then Some KHz192
      else None)"

primrec rate :: "sample_rate \<Rightarrow> u32 option" where
  "rate UserSpecified = None"
| "rate KHz8 = Some 8000"
| "rate KHz16 = Some 16000"
| "rate KHz32 = Some 32000"
| "rate KHz44_1 = Some 44100"
| "rate KHz48 = Some 48000"
| "rate KHz88_2 = Some 88200"
| "rate KHz96 = Some 96000"
| "rate KHz176_4 = Some 176400"
| "rate KHz192 = Some 192000"
| "rate KHz24 = Some 24000"

text \<open>\<^verbatim>\<open>u4::new\<close> panics above 15; every discriminant is below.\<close>

definition protocol_value :: "sample_rate \<Rightarrow> ('e, 4 word) res" where
  "protocol_value r = uint_new (unat (sample_rate_u8 r))"

section \<open>The raw container\<close>

record aaf_specific_data =
  sd_format :: aaf_format
  aaf_format_specific_data_1 :: arr3
  asfd :: "3 word"
  aaf_format_specific_data_2 :: byte
  aaf_format_specific_payload :: "byte list"

datatype invalid_aes3_aaf = NonAes3Format aaf_format

datatype aaf_aes3 = AafAes3 (aes3_data: aaf_specific_data)

definition aes3_from_specific :: "aaf_specific_data \<Rightarrow> (invalid_aes3_aaf, aaf_aes3) res" where
  "aes3_from_specific d =
     (if sd_format d \<in> {AafUser, AafFloat32Bit, AafInt32Bit, AafInt24Bit, AafInt16Bit}
      then Err (NonAes3Format (sd_format d)) else Ok (AafAes3 d))"

definition aes3_into_specific :: "aaf_aes3 \<Rightarrow> aaf_specific_data" where
  "aes3_into_specific a = aes3_data a"

section \<open>PCM parameters\<close>

datatype invalid_pcm_aaf =
    NonPcmFormat aaf_format
  | SampleRateReserved "4 word"
  | BitDepthInvalid byte pcm_format
  | BitDepthZero
  | ChannelsPerFrameZero
  | PayloadSizeInvalid nat nat
  | PcmPayloadTooLarge nat

record aaf_pcm =
  nominal_sample_rate :: sample_rate
  channels_per_frame :: "10 word"
  pcm_fmt :: pcm_format
  bit_depth :: byte
  pcm_payload :: "byte list"

definition validated_bit_depth :: "byte \<Rightarrow> pcm_format \<Rightarrow> (invalid_pcm_aaf, byte) res" where
  "validated_bit_depth d f =
     rbind (ensure (d \<noteq> 0) BitDepthZero) (\<lambda>_.
     rbind (ensure (\<not> (f = Float32Bit \<and> d \<noteq> 32)) (BitDepthInvalid d f)) (\<lambda>_.
     rbind (ensure (case word_size f of None \<Rightarrow> True | Some n \<Rightarrow> \<not> n < unat d) (BitDepthInvalid d f)) (\<lambda>_.
     Ok d)))"

definition validate_payload_size ::
    "bool \<Rightarrow> pcm_format \<Rightarrow> nat \<Rightarrow> 10 word \<Rightarrow> (invalid_pcm_aaf, unit) res" where
  "validate_payload_size dbg f payload_len channels =
     rbind (ensure (payload_len \<le> u16_max) (PcmPayloadTooLarge payload_len)) (\<lambda>_.
     case word_size f of
       None \<Rightarrow> Ok ()
     | Some word_size_bits \<Rightarrow>
         rbind (debug_assert dbg (word_size_bits mod 8 = 0)) (\<lambda>_.
         let frame_size = word_size_bits div 8 * unat channels in
         rbind (debug_assert dbg (frame_size \<noteq> 0)) (\<lambda>_.
         rbind (expect (if frame_size = 0 then None else Some (payload_len mod frame_size))) (\<lambda>m.
         ensure (m = 0) (PayloadSizeInvalid payload_len frame_size)))))"

definition pcm_new ::
    "bool \<Rightarrow> sample_rate \<Rightarrow> 10 word \<Rightarrow> pcm_format \<Rightarrow> byte \<Rightarrow> byte list \<Rightarrow> (invalid_pcm_aaf, aaf_pcm) res" where
  "pcm_new dbg sr ch f d payload =
     rbind (validated_bit_depth d f) (\<lambda>d.
     rbind (ensure (ch \<noteq> 0) ChannelsPerFrameZero) (\<lambda>_.
     rbind (validate_payload_size dbg f (length payload) ch) (\<lambda>_.
     Ok \<lparr>nominal_sample_rate = sr, channels_per_frame = ch, pcm_fmt = f, bit_depth = d,
         pcm_payload = payload\<rparr>)))"

definition pcm_from_specific ::
    "bool \<Rightarrow> 'r bit_read_ops \<Rightarrow> aaf_specific_data \<Rightarrow> (invalid_pcm_aaf, aaf_pcm) res" where
  "pcm_from_specific dbg R d =
     rbind (map_err (\<lambda>_. NonPcmFormat (sd_format d))
       (pcm_format_try_from (aaf_format_u8 (sd_format d)))) (\<lambda>f.
     let r = rd_slice R (arr3_list (aaf_format_specific_data_1 d)) in
     rbind (unwrap (rd_bits R 4 r)) (\<lambda>(nsr, r).
     let nsr = (uint_new_unchecked nsr :: 4 word) in
     rbind (unwrap (rd_bits R 2 r)) (\<lambda>(_, r).
     rbind (unwrap (rd_bits R 10 r)) (\<lambda>(ch, r).
     let ch = (uint_new_unchecked ch :: 10 word) in
     rbind (unwrap (rd_bits R 8 r)) (\<lambda>(bd, r).
     let bd = (of_nat bd :: byte) in
     rbind (debug_assert dbg (rd_aligned R r)) (\<lambda>_.
     rbind (case sample_rate_try_from (of_nat (unat nsr)) of
              Ok sr \<Rightarrow> Ok sr
            | Err e \<Rightarrow> rbind (uint_new (unat e)) (\<lambda>v. Err (SampleRateReserved v))
            | Panic \<Rightarrow> Panic) (\<lambda>sr.
     rbind (validated_bit_depth bd f) (\<lambda>bd.
     rbind (ensure (ch \<noteq> 0) ChannelsPerFrameZero) (\<lambda>_.
     rbind (validate_payload_size dbg f (length (aaf_format_specific_payload d)) ch) (\<lambda>_.
     Ok \<lparr>nominal_sample_rate = sr, channels_per_frame = ch, pcm_fmt = f, bit_depth = bd,
         pcm_payload = aaf_format_specific_payload d\<rparr>))))))))))"

definition pcm_into_specific ::
    "bool \<Rightarrow> 'w bit_write_ops \<Rightarrow> aaf_pcm \<Rightarrow> ('e, aaf_specific_data) res" where
  "pcm_into_specific dbg W p =
     (let w = wr_slice W 3 in
      rbind (protocol_value (nominal_sample_rate p)) (\<lambda>nsr.
      rbind (unwrap (wr_bits W 4 (unat nsr) w)) (\<lambda>w.
      rbind (unwrap (wr_bits W 2 0 w)) (\<lambda>w.
      rbind (unwrap (wr_bits W 10 (unat (channels_per_frame p)) w)) (\<lambda>w.
      rbind (unwrap (wr_bits W 8 (unat (bit_depth p)) w)) (\<lambda>w.
      rbind (debug_assert dbg (wr_aligned W w)) (\<lambda>_.
      rbind (arr3_of (wr_buffer W w)) (\<lambda>data1.
      rbind (unwrap (aaf_format_try_from (pcm_format_u8 (pcm_fmt p)))) (\<lambda>f.
      Ok \<lparr>sd_format = f, aaf_format_specific_data_1 = data1, asfd = 0,
          aaf_format_specific_data_2 = 0, aaf_format_specific_payload = pcm_payload p\<rparr>)))))))))"

definition set_nominal_sample_rate :: "sample_rate \<Rightarrow> aaf_pcm \<Rightarrow> aaf_pcm" where
  "set_nominal_sample_rate sr p = p\<lparr>nominal_sample_rate := sr\<rparr>"

definition sample_count :: "bool \<Rightarrow> aaf_pcm \<Rightarrow> ('e, nat option) res" where
  "sample_count dbg p =
     (case word_size (pcm_fmt p) of
        None \<Rightarrow> Ok None
      | Some word_size_bits \<Rightarrow>
          rbind (debug_assert dbg (word_size_bits mod 8 = 0)) (\<lambda>_.
          let frame_size = word_size_bits div 8 * unat (channels_per_frame p);
              n = length (pcm_payload p) in
          rbind (debug_assert dbg (n mod frame_size = 0)) (\<lambda>_.
          rbind (expect (if frame_size = 0 then None else Some (n div frame_size))) (\<lambda>k.
          Ok (Some k)))))"

section \<open>Tags\<close>

lemma aaf_format_try_from_u8 [simp]: "aaf_format_try_from (aaf_format_u8 f) = Ok f"
  by (cases f) (simp_all add: aaf_format_try_from_def)

lemma aaf_format_of_pcm [simp]:
  "aaf_format_try_from (pcm_format_u8 f) = Ok (case f of User \<Rightarrow> AafUser | Float32Bit \<Rightarrow> AafFloat32Bit
     | Int32Bit \<Rightarrow> AafInt32Bit | Int24Bit \<Rightarrow> AafInt24Bit | Int16Bit \<Rightarrow> AafInt16Bit)"
  by (cases f) (simp_all add: aaf_format_try_from_def)

lemma pcm_format_try_from_u8 [simp]: "pcm_format_try_from (pcm_format_u8 f) = Ok f"
  by (cases f) (simp_all add: pcm_format_try_from_def)

lemma sample_rate_try_from_u8 [simp]: "sample_rate_try_from (sample_rate_u8 r) = Ok r"
  by (cases r) (simp_all add: sample_rate_try_from_def sample_rates_def)

lemma sample_rate_try_from_not_Panic [simp]: "sample_rate_try_from b \<noteq> Panic"
  by (simp add: sample_rate_try_from_def)

lemma sample_rate_try_from_Err: "sample_rate_try_from b = Err e \<Longrightarrow> e = b"
  by (simp add: sample_rate_try_from_def ok_or_eq_Err)

lemma unat_sample_rate_u8: "unat (sample_rate_u8 r) < 16"
  by (cases r) simp_all

lemma protocol_value_Ok: "protocol_value r = Ok (of_nat (unat (sample_rate_u8 r)))"
  using unat_sample_rate_u8 [of r] by (simp add: protocol_value_def uint_new_def)

lemma rate_from_hz: "from_hz hz = Some r \<longleftrightarrow> rate r = Some hz"
  by (cases r) (auto simp: from_hz_def)

section \<open>The invariant of PCM payloads\<close>

definition frame_bytes :: "pcm_format \<Rightarrow> 10 word \<Rightarrow> nat option" where
  "frame_bytes f ch = map_option (\<lambda>n. n div 8 * unat ch) (word_size f)"

definition pcm_wf :: "aaf_pcm \<Rightarrow> bool" where
  "pcm_wf p \<longleftrightarrow> bit_depth p \<noteq> 0 \<and> (pcm_fmt p = Float32Bit \<longrightarrow> bit_depth p = 32) \<and>
     (case word_size (pcm_fmt p) of None \<Rightarrow> True | Some n \<Rightarrow> unat (bit_depth p) \<le> n) \<and>
     channels_per_frame p \<noteq> 0 \<and> length (pcm_payload p) \<le> u16_max \<and>
     (case frame_bytes (pcm_fmt p) (channels_per_frame p) of None \<Rightarrow> True
        | Some k \<Rightarrow> length (pcm_payload p) mod k = 0)"

lemma word_size_octets: "word_size f = Some n \<Longrightarrow> n mod 8 = 0 \<and> 0 < n div 8"
  by (cases f) auto

lemma validate_payload_size_eq:
  assumes "ch \<noteq> 0"
  shows "validate_payload_size dbg f n ch =
    rbind (ensure (n \<le> u16_max) (PcmPayloadTooLarge n)) (\<lambda>_.
    case frame_bytes f ch of None \<Rightarrow> Ok () | Some k \<Rightarrow> ensure (n mod k = 0) (PayloadSizeInvalid n k))"
proof -
  have "0 < unat ch" using assms by (simp add: unat_gt_0)
  then show ?thesis
    by (cases f) (simp_all add: validate_payload_size_def frame_bytes_def Let_def)
qed

lemma pcm_new_Ok_iff:
  "pcm_new dbg sr ch f d payload = Ok p \<longleftrightarrow>
   p = \<lparr>nominal_sample_rate = sr, channels_per_frame = ch, pcm_fmt = f, bit_depth = d,
        pcm_payload = payload\<rparr> \<and> pcm_wf p"
  by (auto simp: pcm_new_def validate_payload_size_eq validated_bit_depth_def pcm_wf_def
      not_less frame_bytes_def split: option.splits)

lemma pcm_new_not_Panic: "pcm_new dbg sr ch f d payload \<noteq> Panic"
  by (auto simp: pcm_new_def rbind_eq_Panic validate_payload_size_eq validated_bit_depth_def
      split: option.splits)

section \<open>The packed fields\<close>

text \<open>
  What \<^verbatim>\<open>from_specific\<close> computes, on the bytes themselves: the sample rate is the upper nibble of the
  first, the channels are its two lowest bits and the second, the bit depth is the third.
\<close>

definition pcm_decode :: "bool \<Rightarrow> aaf_specific_data \<Rightarrow> (invalid_pcm_aaf, aaf_pcm) res" where
  "pcm_decode dbg d =
     (case aaf_format_specific_data_1 d of (a, b, c) \<Rightarrow>
      rbind (map_err (\<lambda>_. NonPcmFormat (sd_format d))
        (pcm_format_try_from (aaf_format_u8 (sd_format d)))) (\<lambda>f.
      rbind (map_err (\<lambda>e. SampleRateReserved (of_nat (unat e)))
        (sample_rate_try_from (of_nat (unat a div 16)))) (\<lambda>sr.
      pcm_new dbg sr (of_nat (unat a mod 4 * 256 + unat b)) f c (aaf_format_specific_payload d))))"

lemma three_bytes_fields:
  "bytes_bits [a, b, c] = nat_bits 4 (unat a div 16) @ nat_bits 2 (unat a div 4 mod 4) @
     nat_bits 10 (unat a mod 4 * 256 + unat b) @ nat_bits 8 (unat c)"
proof -
  have m: "nat_bits 2 (v mod 4) = nat_bits 2 v" for v using nat_bits_mod [of 2 v] by simp
  have "nat_bits 10 (unat a mod 4 * 256 + unat b) =
      nat_bits 2 (unat a mod 4) @ nat_bits 8 (unat b)"
    using nat_bits_append [of "unat b" 8 2 "unat a mod 4"] unat_byte_lt [of b] by simp
  moreover have "nat_bits 8 (unat a) = nat_bits 4 (unat a div 16) @
      nat_bits 2 (unat a div 4) @ nat_bits 2 (unat a)"
    using nat_bits_add [of 6 2 "unat a"] nat_bits_add [of 4 2 "unat a div 4"]
    by (simp add: div_mult2_eq [symmetric])
  ultimately show ?thesis by (simp add: word_bits_def m)
qed

context bit_reader_laws
begin

lemma rd_bits_unwrap:
  "rest r = nat_bits n v @ t \<Longrightarrow> v < 2 ^ n \<Longrightarrow>
   (\<And>r'. rest r' = t \<Longrightarrow> k v r' = y) \<Longrightarrow> rbind (unwrap (rd_bits R n r)) (\<lambda>(v, r). k v r) = y"
  using rd_bits_yields [of r n v t] by (auto simp: yields_def)

lemma pcm_from_specific_eq: "pcm_from_specific dbg R d = pcm_decode dbg d"
proof -
  obtain a b c where abc: "aaf_format_specific_data_1 d = (a, b, c)" by (rule prod_cases3)
  have b4: "unat a div 16 < 2 ^ 4" using unat_byte_lt [of a] by (simp add: less_mult_imp_div_less)
  have b10: "unat a mod 4 * 256 + unat b < 2 ^ 10"
  proof -
    have "unat a mod 4 < 4" by simp
    then show ?thesis using unat_byte_lt [of b] by simp
  qed
  have sr: "(case sample_rate_try_from (of_nat (unat (of_nat (unat a div 16) :: 4 word))) of
      Ok sr \<Rightarrow> Ok sr | Err e \<Rightarrow> rbind (uint_new (unat e)) (\<lambda>v. Err (SampleRateReserved v))
      | Panic \<Rightarrow> Panic) = map_err (\<lambda>e. SampleRateReserved (of_nat (unat e)))
        (sample_rate_try_from (of_nat (unat a div 16)))"
    using b4 by (auto simp: uint_new_def split: res.split dest: sample_rate_try_from_Err)
  have r0: "rest (rd_slice R (arr3_list (aaf_format_specific_data_1 d))) =
      nat_bits 4 (unat a div 16) @ nat_bits 2 (unat a div 4 mod 4) @
      nat_bits 10 (unat a mod 4 * 256 + unat b) @ nat_bits 8 (unat c) @ []"
    unfolding rest_slice abc arr3_list.simps three_bytes_fields by simp
  show ?thesis
  proof (cases "pcm_format_try_from (aaf_format_u8 (sd_format d))")
    case (Ok f)
    show ?thesis
      unfolding pcm_from_specific_def pcm_decode_def abc Ok map_err.simps rbind.simps prod.case
        Let_def uint_new_unchecked_def
      apply (rule rd_bits_unwrap, rule r0 [unfolded abc], rule b4)
      apply (rule rd_bits_unwrap, assumption, simp)
      apply (rule rd_bits_unwrap, assumption, rule b10)
      apply (rule rd_bits_unwrap, assumption, simp add: unat_byte_lt)
      apply (subst sr, simp add: aligned_iff pcm_new_def)
      done
  qed (simp_all add: pcm_from_specific_def pcm_decode_def abc)
qed

end

lemma packed_arith:
  assumes "n < 16" "m < 1024"
  shows "unat (of_nat (n * 16 + m div 256) :: byte) div 16 = n"
    and "unat (of_nat (n * 16 + m div 256) :: byte) div 4 mod 4 = 0"
    and "unat (of_nat (n * 16 + m div 256) :: byte) mod 4 * 256 + unat (of_nat m :: byte) = m"
proof -
  define q where "q = m div 256"
  have q: "q < 4" using assms(2) by (simp add: q_def)
  then have a: "unat (of_nat (n * 16 + q) :: byte) = n * 16 + q"
    using assms(1) by (intro unat_of_nat_small) simp
  have b: "unat (of_nat m :: byte) = m mod 256" by (simp add: unat_of_nat)
  show "unat (of_nat (n * 16 + m div 256) :: byte) div 16 = n"
    unfolding q_def [symmetric] a using q by (intro div_nat_eqI) simp_all
  have "(n * 16 + q) div 4 = n * 4" using q by (intro div_nat_eqI) simp_all
  then show "unat (of_nat (n * 16 + m div 256) :: byte) div 4 mod 4 = 0"
    unfolding q_def [symmetric] a by simp
  have "n * 16 + q = q + 4 * (n * 4)" by simp
  then have "(n * 16 + q) mod 4 = q" using q by (simp only: mod_mult_self2) simp
  then show "unat (of_nat (n * 16 + m div 256) :: byte) mod 4 * 256 + unat (of_nat m :: byte) = m"
    unfolding q_def [symmetric] a b by (simp add: q_def)
qed

lemma packed_fields:
  assumes "n < 16" "m < 1024"
  shows "nat_bits 4 n @ nat_bits 2 0 @ nat_bits 10 m @ nat_bits 8 (unat c) =
    bytes_bits [of_nat (n * 16 + m div 256), of_nat m, c]"
  unfolding three_bytes_fields packed_arith [OF assms] ..

definition pcm_pack :: "aaf_pcm \<Rightarrow> aaf_specific_data" where
  "pcm_pack p =
     \<lparr>sd_format = (case pcm_fmt p of User \<Rightarrow> AafUser | Float32Bit \<Rightarrow> AafFloat32Bit
        | Int32Bit \<Rightarrow> AafInt32Bit | Int24Bit \<Rightarrow> AafInt24Bit | Int16Bit \<Rightarrow> AafInt16Bit),
      aaf_format_specific_data_1 =
        (of_nat (unat (sample_rate_u8 (nominal_sample_rate p)) * 16 +
                 unat (channels_per_frame p) div 256),
         of_nat (unat (channels_per_frame p)), bit_depth p),
      asfd = 0, aaf_format_specific_data_2 = 0, aaf_format_specific_payload = pcm_payload p\<rparr>"

lemma unat_u10_lt: "unat (c :: 10 word) < 1024"
  using unat_lt_exp [of c] by simp

lemma pcm_format_of_aaf:
  "pcm_format_try_from (aaf_format_u8 (case f of User \<Rightarrow> AafUser | Float32Bit \<Rightarrow> AafFloat32Bit
     | Int32Bit \<Rightarrow> AafInt32Bit | Int24Bit \<Rightarrow> AafInt24Bit | Int16Bit \<Rightarrow> AafInt16Bit)) = Ok f"
  by (cases f) (simp_all add: pcm_format_try_from_def)

lemma pcm_decode_pack: "pcm_wf p \<Longrightarrow> pcm_decode dbg (pcm_pack p) = Ok p"
proof -
  assume wf: "pcm_wf p"
  note arith = packed_arith [OF unat_sample_rate_u8 [of "nominal_sample_rate p"]
      unat_u10_lt [of "channels_per_frame p"]]
  have sr: "of_nat (unat (sample_rate_u8 r)) = sample_rate_u8 r" for r by simp
  show ?thesis
    unfolding pcm_decode_def pcm_pack_def aaf_specific_data.select_convs prod.case
      pcm_format_of_aaf map_err.simps rbind.simps arith sr sample_rate_try_from_u8 pcm_new_Ok_iff
    using wf by simp
qed

lemma pcm_decode_wf: "pcm_decode dbg d = Ok p \<Longrightarrow> pcm_wf p \<and> pcm_payload p = aaf_format_specific_payload d"
  by (auto simp: pcm_decode_def pcm_new_Ok_iff split: prod.splits)

lemma pcm_decode_not_Panic: "pcm_decode dbg d \<noteq> Panic"
  by (auto simp: pcm_decode_def rbind_eq_Panic pcm_new_not_Panic pcm_format_try_from_def
      split: prod.splits)

context bit_writer_laws
begin

lemma wr_bits_unwrap:
  "snk w = (s, k) \<Longrightarrow> fits k N \<Longrightarrow> v < 2 ^ n \<and> length s + n \<le> N \<Longrightarrow>
   (\<And>w. snk w = (s @ nat_bits n v, k) \<Longrightarrow> f w = y) \<Longrightarrow> rbind (unwrap (wr_bits W n v w)) f = y"
  using wr_bits_within [of w s k N v n] by (auto simp: emits_def)

lemma pcm_into_specific_eq: "pcm_into_specific dbg W p = Ok (pcm_pack p)"
proof -
  define n where "n = unat (sample_rate_u8 (nominal_sample_rate p))"
  define m where "m = unat (channels_per_frame p)"
  have n: "n < 16" by (simp add: n_def unat_sample_rate_u8)
  have m: "m < 1024" using unat_lt_exp [of "channels_per_frame p"] by (simp add: m_def)
  have n4: "unat (of_nat n :: 4 word) = n" using n by simp
  have f: "fits (Some (8 * 3)) 24" by simp
  show ?thesis
    unfolding pcm_into_specific_def pcm_pack_def Let_def protocol_value_Ok rbind.simps
      n_def [symmetric] m_def [symmetric] n4
    apply (rule wr_bits_unwrap, rule snk_slice, rule f, use n in simp)
    apply (rule wr_bits_unwrap, assumption, rule f, simp)
    apply (rule wr_bits_unwrap, assumption, rule f, use m in simp)
    apply (rule wr_bits_unwrap, assumption, rule f, simp add: unat_byte_lt)
    apply (simp add: wr_aligned_iff wr_buffer_full packed_fields [OF n m])
    done
qed

end

section \<open>Properties\<close>

text \<open>A PCM payload is accepted exactly when it satisfies every constraint of the format, and the
  number of samples per channel counted in an accepted payload is exact: that many frames of one word
  per channel fill the payload. Only the user format, which has no word size, has no count. Neither
  construction nor counting panics, with or without debug assertions.\<close>

theorem pcm_sample_count_exact:
  assumes "pcm_new dbg sr ch f d payload = Ok p"
  shows "pcm_wf p \<and> pcm_payload p = payload \<and>
    (case word_size f of
       None \<Rightarrow> (sample_count dbg' p :: ('e, _) res) = Ok None
     | Some bits \<Rightarrow> \<exists>k. (sample_count dbg' p :: ('e, _) res) = Ok (Some k) \<and>
         length payload = k * (unat ch * (bits div 8)))"
proof -
  from assms have p: "pcm_fmt p = f" "channels_per_frame p = ch" "pcm_payload p = payload" "pcm_wf p"
    by (auto simp: pcm_new_Ok_iff)
  then have ch: "0 < unat ch" by (simp add: pcm_wf_def unat_gt_0)
  show ?thesis
  proof (cases "word_size f")
    case None
    with p show ?thesis by (simp add: sample_count_def)
  next
    case (Some n)
    note w = word_size_octets [OF Some]
    from p Some have z: "length payload mod (n div 8 * unat ch) = 0"
      by (simp add: pcm_wf_def frame_bytes_def)
    then have "length payload = length payload div (n div 8 * unat ch) * (n div 8 * unat ch)"
      using div_mult_mod_eq [of "length payload" "n div 8 * unat ch"] by simp
    with p Some w ch z show ?thesis
      by (simp add: sample_count_def Let_def mult.commute)
  qed
qed

theorem pcm_sample_count_exact_witness:
  "\<exists>p k. pcm_new True KHz48 2 Int16Bit 16 [1, 2, 3, 4, 5, 6, 7, 8] = Ok p \<and>
    (sample_count True p :: (unit, _) res) = Ok (Some k) \<and> 8 = k * 4"
proof -
  obtain p where "pcm_new True KHz48 2 Int16Bit 16 [1, 2, 3, 4, 5, 6, 7, 8] = Ok p"
    by (simp add: pcm_new_Ok_iff pcm_wf_def frame_bytes_def u16_max_def)
  from pcm_sample_count_exact [OF this, of True, where 'e = unit] this show ?thesis by auto
qed

text \<open>Which error rejects PCM parameters: the first constraint they violate, in the order bit
  depth zero, bit depth too large for the format, no channels, payload too large, payload not a whole
  number of frames; every violation is reported, none panics.\<close>

theorem pcm_new_rejects:
  "case pcm_new dbg sr ch f d payload of
     Ok p \<Rightarrow> pcm_wf p
   | Err e \<Rightarrow> e \<in> {BitDepthZero, BitDepthInvalid d f, ChannelsPerFrameZero, PcmPayloadTooLarge (length payload)} \<union>
       {PayloadSizeInvalid (length payload) k |k. frame_bytes f ch = Some k \<and> length payload mod k \<noteq> 0} \<and>
       \<not> pcm_wf \<lparr>nominal_sample_rate = sr, channels_per_frame = ch, pcm_fmt = f, bit_depth = d,
                pcm_payload = payload\<rparr> \<and>
       (e = BitDepthZero \<longleftrightarrow> d = 0)
   | Panic \<Rightarrow> False"
  by (auto simp: pcm_new_def validate_payload_size_eq validated_bit_depth_def pcm_wf_def ensure_def
      not_less frame_bytes_def split: option.splits)

end
