(* ===== verification/Aaf.thy ===== *)
theory Aaf
  imports Avtpdu Pcm
begin

text \<open>
  \<^verbatim>\<open>src/avtp/formats/aaf/common.rs\<close>: the AAF view of a stream header, a tagged union of PCM and AES3
  payloads, with its validation and its conversions from and to \<^verbatim>\<open>StreamHeader\<close>.
\<close>

section \<open>Data\<close>

datatype aaf_format_specific_error = PcmError invalid_pcm_aaf | Aes3Error invalid_aes3_aaf

datatype invalid_aaf =
    InvalidSubtype subtype
  | StreamIdInvalid
  | UnsupportedVersion "3 word"
  | FormatReserved byte
  | FormatSpecificError aaf_format_specific_error

datatype aaf_variant = PcmVariant aaf_pcm | Aes3Variant aaf_aes3

record aaf =
  stream_data :: generic_stream_data
  format_data :: aaf_variant
  sparse_timestamp :: bool
  event_flags :: "4 word"

primrec variant_into_specific ::
    "bool \<Rightarrow> 'w bit_write_ops \<Rightarrow> aaf_variant \<Rightarrow> ('e, aaf_specific_data) res" where
  "variant_into_specific dbg W (PcmVariant p) = pcm_into_specific dbg W p"
| "variant_into_specific dbg W (Aes3Variant a) = Ok (aes3_into_specific a)"

definition variant_try_from ::
    "bool \<Rightarrow> 'r bit_read_ops \<Rightarrow> aaf_specific_data \<Rightarrow> (aaf_format_specific_error, aaf_variant) res" where
  "variant_try_from dbg R d =
     (if sd_format d \<in> {AafUser, AafFloat32Bit, AafInt32Bit, AafInt24Bit, AafInt16Bit}
      then rbind (map_err PcmError (pcm_from_specific dbg R d)) (\<lambda>p. Ok (PcmVariant p))
      else rbind (map_err Aes3Error (aes3_from_specific d)) (\<lambda>a. Ok (Aes3Variant a)))"

definition validate_stream_data :: "generic_stream_data \<Rightarrow> (invalid_aaf, unit) res" where
  "validate_stream_data g =
     rbind (ensure (subtype (common g) = AAF) (InvalidSubtype (subtype (common g)))) (\<lambda>_.
     rbind (ensure (stream_id_valid g) StreamIdInvalid) (\<lambda>_.
     ensure (version (common g) = 0) (UnsupportedVersion (version (common g)))))"

definition aaf_new ::
    "generic_stream_data \<Rightarrow> aaf_variant \<Rightarrow> bool \<Rightarrow> 4 word \<Rightarrow> (invalid_aaf, aaf) res" where
  "aaf_new g f sp evt =
     rbind (validate_stream_data g) (\<lambda>_.
     Ok \<lparr>stream_data = g, format_data = f, sparse_timestamp = sp, event_flags = evt\<rparr>)"

definition set_stream_data :: "generic_stream_data \<Rightarrow> aaf \<Rightarrow> (invalid_aaf, aaf) res" where
  "set_stream_data g a = rbind (validate_stream_data g) (\<lambda>_. Ok (a\<lparr>stream_data := g\<rparr>))"

definition aaf_try_from ::
    "bool \<Rightarrow> 'r bit_read_ops \<Rightarrow> stream_header \<Rightarrow> (invalid_aaf, aaf) res" where
  "aaf_try_from dbg R h =
     rbind (validate_stream_data (generic h)) (\<lambda>_.
     let (fmt, f1, f2, f3) = format_specific_data_2 (specific h);
         r = rd_slice R (arr2_list (format_specific_data_3 (specific h))) in
     rbind (unwrap (rd_bits R 3 r)) (\<lambda>(v, r).
     let asfd' = (uint_new_unchecked v :: 3 word) in
     rbind (unwrap (rd_bits R 1 r)) (\<lambda>(v, r).
     let sp = (v = 1) in
     rbind (unwrap (rd_bits R 4 r)) (\<lambda>(v, r).
     let evt = (uint_new_unchecked v :: 4 word) in
     rbind (unwrap (rd_bits R 8 r)) (\<lambda>(v, r).
     let data2 = (of_nat v :: byte) in
     rbind (debug_assert dbg (rd_aligned R r)) (\<lambda>_.
     rbind (map_err FormatReserved (aaf_format_try_from fmt)) (\<lambda>fmt.
     rbind (map_err FormatSpecificError (variant_try_from dbg R
       \<lparr>sd_format = fmt, aaf_format_specific_data_1 = (f1, f2, f3), asfd = asfd',
        aaf_format_specific_data_2 = data2,
        aaf_format_specific_payload = stream_data_payload (specific h)\<rparr>)) (\<lambda>v.
     Ok \<lparr>stream_data = generic h, format_data = v, sparse_timestamp = sp, event_flags = evt\<rparr>))))))))"

definition aaf_into_header :: "bool \<Rightarrow> 'w bit_write_ops \<Rightarrow> aaf \<Rightarrow> ('e, stream_header) res" where
  "aaf_into_header dbg W a =
     (let w = wr_slice W 2 in
      rbind (variant_into_specific dbg W (format_data a)) (\<lambda>d.
      rbind (unwrap (wr_bits W 3 (unat (asfd d)) w)) (\<lambda>w.
      rbind (unwrap (wr_bits W 1 (of_bool (sparse_timestamp a)) w)) (\<lambda>w.
      rbind (unwrap (wr_bits W 4 (unat (event_flags a)) w)) (\<lambda>w.
      rbind (unwrap (wr_bits W 8 (unat (aaf_format_specific_data_2 d)) w)) (\<lambda>w.
      rbind (arr2_of (wr_buffer W w)) (\<lambda>buffer.
      let (d1, d2, d3) = aaf_format_specific_data_1 d in
      rbind (unwrap (specific_new_unchecked 0 0 (aaf_format_u8 (sd_format d), d1, d2, d3) buffer
        (aaf_format_specific_payload d))) (\<lambda>s.
      Ok \<lparr>generic = stream_data a, specific = s\<rparr>))))))))"

section \<open>The conversions on bytes\<close>

definition variant_decode ::
    "bool \<Rightarrow> aaf_specific_data \<Rightarrow> (aaf_format_specific_error, aaf_variant) res" where
  "variant_decode dbg d =
     (if sd_format d = AafAES3_32Bit then Ok (Aes3Variant (AafAes3 d))
      else rbind (map_err PcmError (pcm_decode dbg d)) (\<lambda>p. Ok (PcmVariant p)))"

text \<open>
  The reserved fields of the stream header play no role; the second-to-last format byte holds three
  reserved bits, the sparse flag and the event flags.
\<close>

definition aaf_decode :: "bool \<Rightarrow> stream_header \<Rightarrow> (invalid_aaf, aaf) res" where
  "aaf_decode dbg h =
     rbind (validate_stream_data (generic h)) (\<lambda>_.
     let (fmt, f1, f2, f3) = format_specific_data_2 (specific h);
         (x, y) = format_specific_data_3 (specific h) in
     rbind (map_err FormatReserved (aaf_format_try_from fmt)) (\<lambda>fmt.
     rbind (map_err FormatSpecificError (variant_decode dbg
       \<lparr>sd_format = fmt, aaf_format_specific_data_1 = (f1, f2, f3),
        asfd = of_nat (unat x div 32), aaf_format_specific_data_2 = y,
        aaf_format_specific_payload = stream_data_payload (specific h)\<rparr>)) (\<lambda>v.
     Ok \<lparr>stream_data = generic h, format_data = v, sparse_timestamp = odd (unat x div 16),
         event_flags = of_nat (unat x mod 16)\<rparr>)))"

primrec variant_pack :: "aaf_variant \<Rightarrow> aaf_specific_data" where
  "variant_pack (PcmVariant p) = pcm_pack p"
| "variant_pack (Aes3Variant a) = aes3_data a"

definition aaf_encode :: "aaf \<Rightarrow> stream_header" where
  "aaf_encode a =
     (let d = variant_pack (format_data a); (d1, d2, d3) = aaf_format_specific_data_1 d in
      \<lparr>generic = stream_data a,
       specific = \<lparr>format_specific_data = 0, format_specific_data_1 = 0,
         format_specific_data_2 = (aaf_format_u8 (sd_format d), d1, d2, d3),
         format_specific_data_3 =
           (of_nat (unat (asfd d) * 32 + of_bool (sparse_timestamp a) * 16 + unat (event_flags a)),
            aaf_format_specific_data_2 d),
         stream_data_payload = aaf_format_specific_payload d\<rparr>\<rparr>)"

lemma two_bytes_fields:
  "bytes_bits [x, y] = nat_bits 3 (unat x div 32) @ nat_bits 1 (of_bool (odd (unat x div 16))) @
     nat_bits 4 (unat x mod 16) @ nat_bits 8 (unat y)"
proof -
  have "nat_bits 8 (unat x) = nat_bits 3 (unat x div 32) @ nat_bits 1 (unat x div 16) @
      nat_bits 4 (unat x)"
    using nat_bits_add [of 4 4 "unat x"] nat_bits_add [of 3 1 "unat x div 16"]
    by (simp add: div_mult2_eq [symmetric])
  moreover have "nat_bits 4 (unat x mod 16) = nat_bits 4 (unat x)"
    using nat_bits_mod [of 4 "unat x"] by simp
  ultimately show ?thesis by (simp add: word_bits_def)
qed

lemma variant_decode_eq:
  "bit_reader_laws R rest \<Longrightarrow> variant_try_from dbg R d = variant_decode dbg d"
  by (cases "sd_format d")
    (simp_all add: variant_try_from_def variant_decode_def aes3_from_specific_def
      bit_reader_laws.pcm_from_specific_eq)

lemma aaf_try_from_eq:
  assumes R: "bit_reader_laws R rest"
  shows "aaf_try_from dbg R h = aaf_decode dbg h"
proof (cases "validate_stream_data (generic h)")
  case (Ok u)
  obtain fmt f1 f2 f3 where f: "format_specific_data_2 (specific h) = (fmt, f1, f2, f3)"
    by (rule prod_cases4)
  obtain x y where xy: "format_specific_data_3 (specific h) = (x, y)" by (rule prod.exhaust)
  have r0: "rest (rd_slice R (arr2_list (x, y))) = nat_bits 3 (unat x div 32) @
      nat_bits 1 (of_bool (odd (unat x div 16))) @ nat_bits 4 (unat x mod 16) @
      nat_bits 8 (unat y) @ []"
    unfolding bit_reader_laws.rest_slice [OF R] arr2_list.simps two_bytes_fields by simp
  have lt: "unat x div 32 < 2 ^ 3" using unat_byte_lt [of x] by (simp add: less_mult_imp_div_less)
  have tv: "(of_bool b = (1 :: nat)) = b" for b by simp
  note step = bit_reader_laws.rd_bits_unwrap [OF R]
  show ?thesis
    unfolding aaf_try_from_def aaf_decode_def f xy Ok Let_def prod.case rbind.simps
      uint_new_unchecked_def variant_decode_eq [OF R]
    apply (rule step, rule r0, rule lt)
    apply (rule step, assumption, simp)
    apply (rule step, assumption, simp)
    apply (rule step, assumption, simp add: unat_byte_lt)
    apply (simp add: bit_reader_laws.aligned_iff [OF R] tv)
    done
qed (simp_all add: aaf_try_from_def aaf_decode_def)

lemma event_byte:
  assumes "a < 8" "e < 16"
  shows "unat (of_nat (a * 32 + of_bool b * 16 + e) :: byte) div 32 = a"
    and "odd (unat (of_nat (a * 32 + of_bool b * 16 + e) :: byte) div 16) = b"
    and "unat (of_nat (a * 32 + of_bool b * 16 + e) :: byte) mod 16 = e"
proof -
  have u: "unat (of_nat (a * 32 + of_bool b * 16 + e) :: byte) = a * 32 + of_bool b * 16 + e"
    using assms by (intro unat_of_nat_small) (cases b; simp)
  show "unat (of_nat (a * 32 + of_bool b * 16 + e) :: byte) div 32 = a"
    unfolding u using assms by (cases b) (auto intro: div_nat_eqI)
  have "(a * 32 + of_bool b * 16 + e) div 16 = a * 2 + of_bool b"
    using assms by (intro div_nat_eqI) (cases b; simp)+
  then show "odd (unat (of_nat (a * 32 + of_bool b * 16 + e) :: byte) div 16) = b"
    unfolding u by simp
  have "a * 32 + of_bool b * 16 + e = e + 16 * (a * 2 + of_bool b)" by simp
  then show "unat (of_nat (a * 32 + of_bool b * 16 + e) :: byte) mod 16 = e"
    unfolding u using assms by (simp only: mod_mult_self2) simp
qed

lemma unat_u3_lt: "unat (c :: 3 word) < 8"
  using unat_lt_exp [of c] by simp

lemma unat_u4_lt: "unat (c :: 4 word) < 16"
  using unat_lt_exp [of c] by simp

definition variant_payload :: "aaf_variant \<Rightarrow> byte list" where
  "variant_payload v = aaf_format_specific_payload (variant_pack v)"

lemma aaf_into_header_eq:
  assumes W: "bit_writer_laws W snk" and len: "length (variant_payload (format_data a)) \<le> u16_max"
  shows "aaf_into_header dbg W a = Ok (aaf_encode a)"
proof -
  have v: "variant_into_specific dbg W (format_data a) = Ok (variant_pack (format_data a))"
    using bit_writer_laws.pcm_into_specific_eq [OF W]
    by (cases "format_data a") (simp_all add: aes3_into_specific_def)
  define d where "d = variant_pack (format_data a)"
  obtain d1 d2 d3 where d123: "aaf_format_specific_data_1 d = (d1, d2, d3)" by (rule prod_cases3)
  have packed: "nat_bits 3 (unat (asfd d)) @ nat_bits 1 (of_bool (sparse_timestamp a)) @
      nat_bits 4 (unat (event_flags a)) @ nat_bits 8 (unat (aaf_format_specific_data_2 d)) =
      bytes_bits [of_nat (unat (asfd d) * 32 + of_bool (sparse_timestamp a) * 16 +
        unat (event_flags a)), aaf_format_specific_data_2 d]"
    unfolding two_bytes_fields event_byte [OF unat_u3_lt unat_u4_lt] ..
  have f: "fits (Some (8 * 2)) 16" by simp
  note step = bit_writer_laws.wr_bits_unwrap [OF W]
  show ?thesis
    unfolding aaf_into_header_def Let_def v rbind.simps d_def [symmetric] d123 prod.case
    apply (rule step, rule bit_writer_laws.snk_slice [OF W], rule f, simp add: unat_u3_lt)
    apply (rule step, assumption, rule f, simp)
    apply (rule step, assumption, rule f, simp add: unat_u4_lt)
    apply (rule step, assumption, rule f, simp add: unat_byte_lt)
    apply (subst bit_writer_laws.wr_buffer_full [OF W], assumption, simp, simp)
    using len packed
    apply (simp add: specific_new_unchecked_def aaf_encode_def d_def [symmetric] d123
        variant_payload_def Let_def)
    done
qed

section \<open>The invariant and the round trip\<close>

definition aaf_stream_ok :: "generic_stream_data \<Rightarrow> bool" where
  "aaf_stream_ok g \<longleftrightarrow> subtype (common g) = AAF \<and> stream_id_valid g \<and> version (common g) = 0"

primrec variant_wf :: "aaf_variant \<Rightarrow> bool" where
  "variant_wf (PcmVariant p) = pcm_wf p"
| "variant_wf (Aes3Variant a) = (sd_format (aes3_data a) = AafAES3_32Bit \<and>
     length (aaf_format_specific_payload (aes3_data a)) \<le> u16_max)"

definition aaf_wf :: "aaf \<Rightarrow> bool" where
  "aaf_wf a \<longleftrightarrow> aaf_stream_ok (stream_data a) \<and> variant_wf (format_data a)"

lemma validate_stream_data_Ok [simp]: "validate_stream_data g = Ok u \<longleftrightarrow> aaf_stream_ok g"
  by (auto simp: validate_stream_data_def aaf_stream_ok_def)

lemma validate_stream_data_not_Panic [simp]: "validate_stream_data g \<noteq> Panic"
  by (simp add: validate_stream_data_def rbind_eq_Panic)

lemma variant_wf_payload: "variant_wf v \<Longrightarrow> length (variant_payload v) \<le> u16_max"
  by (cases v) (auto simp: variant_payload_def pcm_wf_def pcm_pack_def)

lemma variant_decode_pack: "variant_wf v \<Longrightarrow> variant_decode dbg (variant_pack v) = Ok v"
proof (cases v)
  case (PcmVariant p)
  moreover have "sd_format (pcm_pack p) \<noteq> AafAES3_32Bit"
    by (simp add: pcm_pack_def split: pcm_format.split)
  moreover assume "variant_wf v"
  ultimately show ?thesis by (simp add: variant_decode_def pcm_decode_pack)
next
  case (Aes3Variant a)
  moreover assume "variant_wf v"
  ultimately show ?thesis by (cases a) (simp add: variant_decode_def)
qed

lemma variant_decode_wf:
  "variant_decode dbg d = Ok v \<Longrightarrow> length (aaf_format_specific_payload d) \<le> u16_max \<Longrightarrow>
   variant_wf v \<and> variant_payload v = aaf_format_specific_payload d"
  by (auto simp: variant_decode_def variant_payload_def pcm_pack_def split: if_splits
      dest: pcm_decode_wf)

lemma aaf_decode_encode:
  assumes "aaf_wf a"
  shows "aaf_decode dbg (aaf_encode a) = Ok a"
proof -
  define d where "d = variant_pack (format_data a)"
  obtain d1 d2 d3 where d123: "aaf_format_specific_data_1 d = (d1, d2, d3)" by (rule prod_cases3)
  have d: "\<lparr>sd_format = sd_format d, aaf_format_specific_data_1 = (d1, d2, d3), asfd = asfd d,
      aaf_format_specific_data_2 = aaf_format_specific_data_2 d,
      aaf_format_specific_payload = aaf_format_specific_payload d\<rparr> = d"
    by (simp flip: d123)
  have v: "variant_decode dbg d = Ok (format_data a)"
    using assms by (simp add: d_def aaf_wf_def variant_decode_pack)
  have ok: "validate_stream_data (stream_data a) = Ok ()" using assms by (simp add: aaf_wf_def)
  have w: "(of_nat (unat (asfd d)) :: 3 word) = asfd d"
    "(of_nat (unat (event_flags a)) :: 4 word) = event_flags a" by simp_all
  show ?thesis
    unfolding aaf_decode_def aaf_encode_def Let_def d_def [symmetric] d123 prod.case
      stream_header.select_convs specific_stream_data.select_convs ok rbind.simps
      aaf_format_try_from_u8 map_err.simps event_byte [OF unat_u3_lt unat_u4_lt] w d v
    by simp
qed

lemma aaf_decode_wf:
  assumes "aaf_decode dbg h = Ok a" "stream_wf h"
  shows "aaf_wf a \<and> stream_data a = generic h \<and>
    variant_payload (format_data a) = stream_data_payload (specific h)"
  using assms
  by (auto simp: aaf_decode_def aaf_wf_def stream_wf_def Let_def split: prod.splits
      dest: variant_decode_wf)

lemma aaf_decode_not_Panic: "aaf_decode dbg h \<noteq> Panic"
  by (auto simp: aaf_decode_def variant_decode_def aaf_format_try_from_def rbind_eq_Panic
      pcm_decode_not_Panic Let_def split: prod.splits)

lemma aaf_encode_wf:
  "aaf_wf a \<Longrightarrow> stream_wf (aaf_encode a) \<and> generic (aaf_encode a) = stream_data a"
  using variant_wf_payload [of "format_data a"]
  by (auto simp: aaf_encode_def stream_wf_def aaf_wf_def variant_payload_def Let_def
      split: prod.split)

section \<open>Properties\<close>

text \<open>C22: The bit-level parser of AAF stream headers computes a function of the header bytes alone:
  the reference definition \<open>aaf_decode\<close>, on every branch, with the same errors in the same order, and
  it never panics.\<close>

theorem aaf_try_from_reference:
  assumes "bit_reader_laws R rest"
  shows "aaf_try_from dbg R h = aaf_decode dbg h \<and> aaf_try_from dbg R h \<noteq> Panic"
  using aaf_try_from_eq [OF assms] aaf_decode_not_Panic by simp

theorem aaf_try_from_reference_witness:
  "aaf_try_from True mem_reader sample_header = aaf_decode True sample_header"
  using aaf_try_from_reference [OF mem_rd.bit_reader_laws_axioms] by blast

text \<open>C10: A well-formed AAF payload survives the conversion to a stream header and back, and the
  header it becomes is one the AVTPDU codec accepts.\<close>

theorem aaf_header_roundtrip:
  assumes "bit_writer_laws W snk" "bit_reader_laws R rest" "aaf_wf a"
  shows "\<exists>h. aaf_into_header dbg W a = (Ok h :: ('e, _) res) \<and> pdu_decodable (Stream h) \<and>
    aaf_try_from dbg' R h = Ok a"
proof -
  have "aaf_into_header dbg W a = (Ok (aaf_encode a) :: ('e, _) res)"
    using assms(3) by (intro aaf_into_header_eq [OF assms(1)] variant_wf_payload)
      (simp add: aaf_wf_def)
  moreover have "pdu_decodable (Stream (aaf_encode a))"
    using aaf_encode_wf [OF assms(3)] assms(3) by (simp add: pdu_defs aaf_wf_def aaf_stream_ok_def)
  moreover have "aaf_try_from dbg' R (aaf_encode a) = Ok a"
    using aaf_try_from_eq [OF assms(2)] aaf_decode_encode [OF assms(3)] by simp
  ultimately show ?thesis by blast
qed

definition sample_aaf :: aaf where
  "sample_aaf = \<lparr>stream_data = generic sample_header,
     format_data = PcmVariant \<lparr>nominal_sample_rate = KHz48, channels_per_frame = 2,
       pcm_fmt = Int16Bit, bit_depth = 16, pcm_payload = [1, 2, 3, 4]\<rparr>,
     sparse_timestamp = False, event_flags = 3\<rparr>"

lemma sample_aaf_wf: "aaf_wf sample_aaf"
  by (simp add: aaf_wf_def sample_aaf_def sample_header_def aaf_stream_ok_def stream_id_valid_def
      pcm_wf_def frame_bytes_def u16_max_def)

theorem aaf_header_roundtrip_witness:
  "\<exists>h. aaf_into_header True mem_writer sample_aaf = (Ok h :: (io_error, _) res) \<and>
    pdu_decodable (Stream h) \<and> aaf_try_from True mem_reader h = Ok sample_aaf"
  by (rule aaf_header_roundtrip [OF mem_wr.bit_writer_laws_axioms mem_rd.bit_reader_laws_axioms
        sample_aaf_wf])

end
