(* ===== verification/AafStream.thy ===== *)
theory AafStream
  imports Aaf Synchronizer
begin

text \<open>
  \<^verbatim>\<open>src/avtp/formats/aaf/stream.rs\<close> and \<^verbatim>\<open>src/avtp/stream.rs\<close>: the AAF PCM talker, which turns audio
  payloads into packets stamped with PTP time, and the listener, which filters packets and counts the
  ones that were lost. Both return their result with the new state, which differs from the old one
  also on some errors.
\<close>

section \<open>Stream filters\<close>

datatype stream_filter = AnyStream | MacOnly mac_addr | Exact stream_id

primrec filter_matches :: "stream_filter \<Rightarrow> stream_id \<Rightarrow> bool" where
  "filter_matches AnyStream i = True"
| "filter_matches (MacOnly mac) i = (mac_address i = mac)"
| "filter_matches (Exact i') i = (i = i')"

section \<open>The talker\<close>

datatype talker_config_error = ConfigBitDepthZero | ConfigChannelsPerFrameZero

datatype 'x talker_error = TalkerPcm invalid_pcm_aaf | Clock "'x clock_error"

record aaf_pcm_talker =
  tk_stream_id :: stream_id
  tk_format :: pcm_format
  tk_sample_rate :: sample_rate
  tk_channels :: "10 word"
  tk_bit_depth :: byte
  tk_sequence_num :: byte
  tk_ptp_clock :: sync_clock
  playback_delay_ns :: u32

definition talker_new ::
    "bool \<Rightarrow> stream_id \<Rightarrow> pcm_format \<Rightarrow> sample_rate \<Rightarrow> 10 word \<Rightarrow> byte \<Rightarrow> sync_clock \<Rightarrow> u32 \<Rightarrow>
     (talker_config_error, aaf_pcm_talker) res" where
  "talker_new dbg sid f sr ch bd clk playback_delay_ms =
     rbind (ensure (bd \<noteq> 0) ConfigBitDepthZero) (\<lambda>_.
     rbind (ensure (ch \<noteq> 0) ConfigChannelsPerFrameZero) (\<lambda>_.
     rbind (mul_u32 dbg playback_delay_ms 1000000) (\<lambda>delay.
     Ok \<lparr>tk_stream_id = sid, tk_format = f, tk_sample_rate = sr, tk_channels = ch,
         tk_bit_depth = bd, tk_sequence_num = 0, tk_ptp_clock = clk, playback_delay_ns = delay\<rparr>)))"

definition build_packet ::
    "bool \<Rightarrow> 'w bit_write_ops \<Rightarrow> nat \<Rightarrow> 'x reading \<Rightarrow> byte list \<Rightarrow> aaf_pcm_talker \<Rightarrow>
     ('x talker_error, avtpdu) res \<times> aaf_pcm_talker" where
  "build_packet dbg W now reading payload tk =
     (case sync_ptp_time (tk_ptp_clock tk) now reading of
        (Err e, clk) \<Rightarrow> (Err (Clock e), tk\<lparr>tk_ptp_clock := clk\<rparr>)
      | (Panic, clk) \<Rightarrow> (Panic, tk\<lparr>tk_ptp_clock := clk\<rparr>)
      | (Ok ptp_time, clk) \<Rightarrow>
          let tk = tk\<lparr>tk_ptp_clock := clk\<rparr>;
              timestamp = ts_wrapping_add (ts_from_ptp ptp_time) (playback_delay_ns tk);
              packet =
                rbind (map_err TalkerPcm (pcm_new dbg (tk_sample_rate tk) (tk_channels tk)
                  (tk_format tk) (tk_bit_depth tk) payload)) (\<lambda>pcm.
                let common = \<lparr>subtype = AAF, header_specific_bit = True, version = 0\<rparr>;
                    generic = generic_new_unchecked common False True (tk_sequence_num tk) False
                      (tk_stream_id tk) timestamp in
                rbind (unwrap (aaf_new generic (PcmVariant pcm) False 0)) (\<lambda>aaf.
                aaf_into_header dbg W aaf)) in
          case packet of
            Ok stream_header \<Rightarrow>
              (Ok (Stream stream_header), tk\<lparr>tk_sequence_num := tk_sequence_num tk + 1\<rparr>)
          | Err e \<Rightarrow> (Err e, tk)
          | Panic \<Rightarrow> (Panic, tk))"

section \<open>The listener\<close>

record received_pcm =
  rx_avtp_timestamp :: avtp_timestamp
  rx_seq_num :: byte
  payload_be :: "byte list"
  rx_sample_rate :: sample_rate
  rx_channels :: "10 word"
  rx_bit_depth :: byte
  rx_format :: pcm_format
  packets_lost :: u32

record aaf_pcm_listener =
  ln_filter :: stream_filter
  expected_seq :: "byte option"

definition listener_new :: "stream_id option \<Rightarrow> aaf_pcm_listener" where
  "listener_new sid =
     \<lparr>ln_filter = (case sid of Some i \<Rightarrow> Exact i | None \<Rightarrow> AnyStream), expected_seq = None\<rparr>"

definition listener_new_with_mac_filter :: "mac_addr \<Rightarrow> aaf_pcm_listener" where
  "listener_new_with_mac_filter mac = \<lparr>ln_filter = MacOnly mac, expected_seq = None\<rparr>"

definition process ::
    "bool \<Rightarrow> 'r bit_read_ops \<Rightarrow> avtpdu \<Rightarrow> aaf_pcm_listener \<Rightarrow>
     (invalid_aaf, received_pcm option) res \<times> aaf_pcm_listener" where
  "process dbg R pdu l =
     (case pdu of
        Stream h \<Rightarrow>
          (case aaf_try_from dbg R h of
             Err e \<Rightarrow> (Err e, l)
           | Panic \<Rightarrow> (Panic, l)
           | Ok aaf \<Rightarrow>
               if \<not> filter_matches (ln_filter l) (stream_id (stream_data aaf)) then (Ok None, l)
               else
                 (case format_data aaf of
                    Aes3Variant _ \<Rightarrow> (Ok None, l)
                  | PcmVariant pcm \<Rightarrow>
                      let seq_num = sequence_num (stream_data aaf);
                          lost = (case expected_seq l of
                              None \<Rightarrow> 0
                            | Some expected \<Rightarrow> ucast (seq_num - expected)) in
                      (Ok (Some \<lparr>rx_avtp_timestamp = avtp_timestamp (stream_data aaf),
                           rx_seq_num = seq_num, payload_be = pcm_payload pcm,
                           rx_sample_rate = nominal_sample_rate pcm,
                           rx_channels = channels_per_frame pcm, rx_bit_depth = bit_depth pcm,
                           rx_format = pcm_fmt pcm, packets_lost = lost\<rparr>),
                       l\<lparr>expected_seq := Some (seq_num + 1)\<rparr>)))
      | Control _ \<Rightarrow> (Ok None, l)
      | Alternative _ \<Rightarrow> (Ok None, l))"

section \<open>Single packets\<close>

text \<open>The AAF value a talker sends and the frame a listener makes of a PCM packet.\<close>

definition sent_aaf :: "aaf_pcm_talker \<Rightarrow> ptp_time \<Rightarrow> byte list \<Rightarrow> aaf" where
  "sent_aaf tk t payload =
     \<lparr>stream_data = \<lparr>common = \<lparr>subtype = AAF, header_specific_bit = True, version = 0\<rparr>,
        media_clock_restart = False, avtp_timestamp_valid = True,
        sequence_num = tk_sequence_num tk, timestamp_uncertain = False,
        stream_id = tk_stream_id tk,
        avtp_timestamp = ts_wrapping_add (ts_from_ptp t) (playback_delay_ns tk)\<rparr>,
      format_data = PcmVariant \<lparr>nominal_sample_rate = tk_sample_rate tk,
        channels_per_frame = tk_channels tk, pcm_fmt = tk_format tk, bit_depth = tk_bit_depth tk,
        pcm_payload = payload\<rparr>,
      sparse_timestamp = False, event_flags = 0\<rparr>"

definition frame_of :: "byte option \<Rightarrow> aaf_pcm_talker \<Rightarrow> ptp_time \<Rightarrow> byte list \<Rightarrow> received_pcm" where
  "frame_of expected tk t payload =
     \<lparr>rx_avtp_timestamp = ts_wrapping_add (ts_from_ptp t) (playback_delay_ns tk),
      rx_seq_num = tk_sequence_num tk, payload_be = payload, rx_sample_rate = tk_sample_rate tk,
      rx_channels = tk_channels tk, rx_bit_depth = tk_bit_depth tk, rx_format = tk_format tk,
      packets_lost = (case expected of None \<Rightarrow> 0 | Some e \<Rightarrow> ucast (tk_sequence_num tk - e))\<rparr>"

lemma build_packet_eq:
  fixes reading :: "'x reading"
  assumes "bit_writer_laws W snk"
  shows "build_packet dbg W now reading payload tk =
    (case sync_ptp_time (tk_ptp_clock tk) now reading of
       (Err e, clk) \<Rightarrow> (Err (Clock e), tk\<lparr>tk_ptp_clock := clk\<rparr>)
     | (Panic, clk) \<Rightarrow> (Panic, tk\<lparr>tk_ptp_clock := clk\<rparr>)
     | (Ok t, clk) \<Rightarrow>
         (case pcm_new dbg (tk_sample_rate tk) (tk_channels tk) (tk_format tk) (tk_bit_depth tk) payload of
            Ok _ \<Rightarrow> (Ok (Stream (aaf_encode (sent_aaf tk t payload))),
              tk\<lparr>tk_ptp_clock := clk, tk_sequence_num := tk_sequence_num tk + 1\<rparr>)
          | Err e \<Rightarrow> (Err (TalkerPcm e), tk\<lparr>tk_ptp_clock := clk\<rparr>)
          | Panic \<Rightarrow> (Panic, tk\<lparr>tk_ptp_clock := clk\<rparr>)))"
proof -
  have into: "aaf_into_header dbg W (sent_aaf tk t payload) =
      (Ok (aaf_encode (sent_aaf tk t payload)) :: ('x talker_error, _) res)"
    if "pcm_new dbg (tk_sample_rate tk) (tk_channels tk) (tk_format tk) (tk_bit_depth tk) payload = Ok p"
    for t p
    using that by (intro aaf_into_header_eq [OF assms])
      (auto simp: pcm_new_Ok_iff pcm_wf_def sent_aaf_def variant_payload_def pcm_pack_def)
  have new: "aaf_new (generic_new_unchecked \<lparr>subtype = AAF, header_specific_bit = True, version = 0\<rparr>
      False True (tk_sequence_num tk) False (tk_stream_id tk) ts) v False 0 =
    (Ok \<lparr>stream_data = generic_new_unchecked \<lparr>subtype = AAF, header_specific_bit = True, version = 0\<rparr>
      False True (tk_sequence_num tk) False (tk_stream_id tk) ts, format_data = v,
      sparse_timestamp = False, event_flags = 0\<rparr>)" for ts v
    by (simp add: aaf_new_def generic_new_unchecked_def validate_stream_data_def stream_id_valid_def)
  show ?thesis
  proof (cases "sync_ptp_time (tk_ptp_clock tk) now reading")
    case (Pair r clk)
    show ?thesis
    proof (cases "\<exists>t p. r = Ok t \<and> pcm_new dbg (tk_sample_rate tk) (tk_channels tk) (tk_format tk)
        (tk_bit_depth tk) payload = Ok p")
      case True
      then obtain t p where r: "r = Ok t" and p: "pcm_new dbg (tk_sample_rate tk) (tk_channels tk)
          (tk_format tk) (tk_bit_depth tk) payload = Ok p" by blast
      from p have "\<lparr>stream_data = generic_new_unchecked
          \<lparr>subtype = AAF, header_specific_bit = True, version = 0\<rparr> False True (tk_sequence_num tk)
          False (tk_stream_id tk) (ts_wrapping_add (ts_from_ptp t) (playback_delay_ns tk)),
          format_data = PcmVariant p, sparse_timestamp = False, event_flags = 0\<rparr> = sent_aaf tk t payload"
        by (auto simp: pcm_new_Ok_iff sent_aaf_def generic_new_unchecked_def)
      with r p Pair into [OF p, of t] show ?thesis
        by (simp add: build_packet_def Let_def new)
    next
      case False
      with Pair show ?thesis
        by (auto simp: build_packet_def Let_def pcm_new_not_Panic split: res.split)
    qed
  qed
qed

lemma sent_aaf_wf:
  "pcm_new dbg (tk_sample_rate tk) (tk_channels tk) (tk_format tk) (tk_bit_depth tk) payload = Ok p \<Longrightarrow>
   aaf_wf (sent_aaf tk t payload)"
  by (auto simp: pcm_new_Ok_iff aaf_wf_def aaf_stream_ok_def stream_id_valid_def sent_aaf_def)

lemma build_packet_Ok:
  assumes "bit_writer_laws W snk" "build_packet dbg W now reading payload tk = (Ok pdu, tk')"
  obtains t clk where "sync_ptp_time (tk_ptp_clock tk) now reading = (Ok t, clk)"
    "pdu = Stream (aaf_encode (sent_aaf tk t payload))" "aaf_wf (sent_aaf tk t payload)"
    "tk' = tk\<lparr>tk_ptp_clock := clk, tk_sequence_num := tk_sequence_num tk + 1\<rparr>"
  using assms(2) unfolding build_packet_eq [OF assms(1)]
  by (auto split: prod.splits res.splits dest: sent_aaf_wf)

lemma build_packet_clock:
  assumes "bit_writer_laws W snk" "sync_ptp_time (tk_ptp_clock tk) now reading = (r, clk)"
    and "build_packet dbg W now reading payload tk = (out, tk')"
  shows "tk' = tk\<lparr>tk_ptp_clock := clk, tk_sequence_num := tk_sequence_num tk +
      (case out of Ok _ \<Rightarrow> 1 | _ \<Rightarrow> 0)\<rparr>"
  using assms(3) unfolding build_packet_eq [OF assms(1)] assms(2)
  by (auto split: res.splits)

text \<open>A listener sees a sent packet as the frame it carries.\<close>

lemma process_sent:
  assumes "bit_reader_laws R rest" "aaf_wf (sent_aaf tk t payload)"
    and "filter_matches (ln_filter l) (tk_stream_id tk)"
  shows "process dbg R (Stream (aaf_encode (sent_aaf tk t payload))) l =
    (Ok (Some (frame_of (expected_seq l) tk t payload)),
     l\<lparr>expected_seq := Some (tk_sequence_num tk + 1)\<rparr>)"
  using aaf_decode_encode [OF assms(2), of dbg] assms(3)
  by (simp add: process_def aaf_try_from_eq [OF assms(1)])
    (simp add: sent_aaf_def frame_of_def Let_def split: option.split)

text \<open>The listener's state changes only when it returns a frame.\<close>

lemma process_cases:
  assumes "bit_reader_laws R rest"
  obtains f n where "process dbg R pdu l = (Ok (Some f), l\<lparr>expected_seq := Some (n + 1)\<rparr>)"
      "rx_seq_num f = n"
      "packets_lost f = (case expected_seq l of None \<Rightarrow> 0 | Some e \<Rightarrow> ucast (n - e))"
    | "process dbg R pdu l = (Ok None, l)"
    | e where "process dbg R pdu l = (Err e, l)"
proof (cases pdu)
  case (Stream h)
  show thesis
  proof (cases "aaf_try_from dbg R h")
    case (Ok a)
    note eq = Stream Ok process_def
    show thesis
    proof (cases "filter_matches (ln_filter l) (stream_id (stream_data a))")
      case True
      show thesis
      proof (cases "format_data a")
        case (PcmVariant p)
        show thesis by (rule that(1), simp add: eq True PcmVariant Let_def, simp, simp)
      qed (use that(2) True in \<open>simp add: eq\<close>)
    qed (use that(2) in \<open>simp add: eq\<close>)
  next
    case Panic
    then show thesis by (simp add: aaf_try_from_eq [OF assms] aaf_decode_not_Panic)
  qed (use Stream that in \<open>simp add: process_def\<close>)
qed (use that in \<open>simp_all add: process_def\<close>)

section \<open>Streams of packets\<close>

text \<open>
  A talker asked for a packet for each input, keeping the payloads it sent and their packets, and a
  listener given packets in turn, keeping the frames it returns.
\<close>

primrec talk_run ::
    "bool \<Rightarrow> 'w bit_write_ops \<Rightarrow> (nat \<times> 'x reading \<times> byte list) list \<Rightarrow> aaf_pcm_talker \<Rightarrow>
     (byte list \<times> avtpdu) list \<times> aaf_pcm_talker" where
  "talk_run dbg W [] tk = ([], tk)"
| "talk_run dbg W (i # is) tk =
     (case build_packet dbg W (fst i) (fst (snd i)) (snd (snd i)) tk of
        (Ok pdu, tk') \<Rightarrow> apfst (Cons (snd (snd i), pdu)) (talk_run dbg W is tk')
      | (_, tk') \<Rightarrow> talk_run dbg W is tk')"

primrec listen_run ::
    "bool \<Rightarrow> 'r bit_read_ops \<Rightarrow> avtpdu list \<Rightarrow> aaf_pcm_listener \<Rightarrow> received_pcm list" where
  "listen_run dbg R [] l = []"
| "listen_run dbg R (p # ps) l =
     (case process dbg R p l of
        (Ok (Some f), l') \<Rightarrow> f # listen_run dbg R ps l'
      | (_, l') \<Rightarrow> listen_run dbg R ps l')"

text \<open>The packet at position \<open>k\<close> is the sent one with the sequence number \<open>k\<close> past the first.\<close>

definition sent_as :: "aaf_pcm_talker \<Rightarrow> nat \<Rightarrow> byte list \<times> avtpdu \<Rightarrow> bool" where
  "sent_as tk k x \<longleftrightarrow> (\<exists>tk' t. snd x = Stream (aaf_encode (sent_aaf tk' t (fst x))) \<and>
     aaf_wf (sent_aaf tk' t (fst x)) \<and> tk_stream_id tk' = tk_stream_id tk \<and>
     tk_sequence_num tk' = tk_sequence_num tk + of_nat k)"

lemma talk_run_sent:
  assumes "bit_writer_laws W snk" "talk_run dbg W is tk = (sent, tk')" "k < length sent"
  shows "sent_as tk k (sent ! k)"
  using assms(2,3)
proof (induction "is" arbitrary: tk k sent)
  case (Cons i "is")
  obtain out tk1 where b: "build_packet dbg W (fst i) (fst (snd i)) (snd (snd i)) tk = (out, tk1)"
    by (rule prod.exhaust)
  obtain r clk where r: "sync_ptp_time (tk_ptp_clock tk) (fst i) (fst (snd i)) = (r, clk)"
    by (rule prod.exhaust)
  note tk1 = build_packet_clock [OF assms(1) r b]
  have same: "sent_as tk k (sent ! k)" if "talk_run dbg W is tk1 = (sent, tk')"
      "tk1 = tk\<lparr>tk_ptp_clock := clk\<rparr>"
    using Cons.IH [OF that(1) Cons.prems(2)] that(2) by (simp add: sent_as_def)
  show ?case
  proof (cases out)
    case (Ok pdu)
    then obtain sent1 where run: "talk_run dbg W is tk1 = (sent1, tk')"
        and sent: "sent = (snd (snd i), pdu) # sent1"
      using Cons.prems(1) b by (cases "talk_run dbg W is tk1") auto
    show ?thesis
    proof (cases k)
      case 0
      from build_packet_Ok [OF assms(1) b [unfolded Ok]] obtain t
        where "pdu = Stream (aaf_encode (sent_aaf tk t (snd (snd i))))" "aaf_wf (sent_aaf tk t (snd (snd i)))"
        by blast
      with sent 0 show ?thesis by (auto simp: sent_as_def)
    next
      case (Suc k')
      with sent Cons.prems(2) Cons.IH [OF run, of k'] tk1 Ok show ?thesis
        by (auto simp: sent_as_def add.assoc)
    qed
  qed (use Cons.prems b tk1 same in simp_all)
qed simp

lemma process_sent_as:
  assumes "bit_reader_laws R rest" "sent_as tk k x" "filter_matches (ln_filter l) (tk_stream_id tk)"
  obtains f where "process dbg R (snd x) l =
      (Ok (Some f), l\<lparr>expected_seq := Some (tk_sequence_num tk + of_nat k + 1)\<rparr>)"
    "payload_be f = fst x"
    "packets_lost f = (case expected_seq l of None \<Rightarrow> 0
       | Some e \<Rightarrow> ucast (tk_sequence_num tk + of_nat k - e))"
proof -
  from assms(2) obtain tk' t where x: "snd x = Stream (aaf_encode (sent_aaf tk' t (fst x)))"
      "aaf_wf (sent_aaf tk' t (fst x))" "tk_stream_id tk' = tk_stream_id tk"
      "tk_sequence_num tk' = tk_sequence_num tk + of_nat k"
    by (auto simp: sent_as_def)
  from process_sent [OF assms(1) x(2), of l dbg] assms(3) x(1,3,4)
  have "process dbg R (snd x) l = (Ok (Some (frame_of (expected_seq l) tk' t (fst x))),
      l\<lparr>expected_seq := Some (tk_sequence_num tk + of_nat k + 1)\<rparr>)" by simp
  from that [OF this] x(4) show thesis by (simp add: frame_of_def split: option.split)
qed

lemma uint_seq_gap:
  "uint (ucast (s + of_nat j - (s + of_nat i + 1) :: byte) :: u32) = (int j - int i - 1) mod 256"
proof -
  have "s + of_nat j - (s + of_nat i + 1) = (word_of_int (int j - int i - 1) :: byte)" by simp
  then show ?thesis by (simp only: unsigned_ucast_eq uint_word_of_int) (simp add: take_bit_eq_mod)
qed

definition gap_losses :: "nat list \<Rightarrow> int list" where
  "gap_losses is = map (\<lambda>(i, j). (int j - int i - 1) mod 256) (zip is (tl is))"

lemma listen_run_after:
  assumes "bit_reader_laws R rest" "\<forall>k<length sent. sent_as tk k (sent ! k)"
    and "filter_matches (ln_filter l) (tk_stream_id tk)"
    and "expected_seq l = Some (tk_sequence_num tk + of_nat i + 1)" "\<forall>j\<in>set is. j < length sent"
  shows "map payload_be (listen_run dbg R (map (\<lambda>j. snd (sent ! j)) is) l) = map (\<lambda>j. fst (sent ! j)) is \<and>
    map (\<lambda>f. uint (packets_lost f)) (listen_run dbg R (map (\<lambda>j. snd (sent ! j)) is) l) =
      gap_losses (i # is)"
  using assms(3-5)
proof (induction "is" arbitrary: l i)
  case (Cons j "is")
  then have "sent_as tk j (sent ! j)" using assms(2) by simp
  from process_sent_as [OF assms(1) this Cons.prems(1), of dbg] obtain f where
    f: "process dbg R (snd (sent ! j)) l =
      (Ok (Some f), l\<lparr>expected_seq := Some (tk_sequence_num tk + of_nat j + 1)\<rparr>)"
    "payload_be f = fst (sent ! j)"
    "packets_lost f = (case expected_seq l of None \<Rightarrow> 0
       | Some e \<Rightarrow> ucast (tk_sequence_num tk + of_nat j - e))"
    by blast
  from f(3) Cons.prems(2) have "uint (packets_lost f) = (int j - int i - 1) mod 256"
    by (simp only: option.case uint_seq_gap)
  with f Cons.IH [of "l\<lparr>expected_seq := Some (tk_sequence_num tk + of_nat j + 1)\<rparr>" j] Cons.prems
  show ?case by (simp add: gap_losses_def)
qed (simp add: gap_losses_def)

lemma listen_run_first:
  assumes "bit_reader_laws R rest" "\<forall>k<length sent. sent_as tk k (sent ! k)"
    and "filter_matches (ln_filter l) (tk_stream_id tk)"
    and "expected_seq l = None" "\<forall>j\<in>set (i # is). j < length sent"
  shows "map payload_be (listen_run dbg R (map (\<lambda>j. snd (sent ! j)) (i # is)) l) =
      map (\<lambda>j. fst (sent ! j)) (i # is) \<and>
    map (\<lambda>f. uint (packets_lost f)) (listen_run dbg R (map (\<lambda>j. snd (sent ! j)) (i # is)) l) =
      0 # gap_losses (i # is)"
proof -
  have "sent_as tk i (sent ! i)" using assms(2,5) by simp
  from process_sent_as [OF assms(1) this assms(3), of dbg] obtain f where
    f: "process dbg R (snd (sent ! i)) l =
      (Ok (Some f), l\<lparr>expected_seq := Some (tk_sequence_num tk + of_nat i + 1)\<rparr>)"
    "payload_be f = fst (sent ! i)"
    "packets_lost f = (case expected_seq l of None \<Rightarrow> 0
       | Some e \<Rightarrow> ucast (tk_sequence_num tk + of_nat i - e))"
    by blast
  with listen_run_after [OF assms(1,2), of "l\<lparr>expected_seq := Some (tk_sequence_num tk + of_nat i + 1)\<rparr>"
      i "is" dbg] assms(3-5)
  show ?thesis by simp
qed

lemma gap_losses_sum:
  assumes "sorted_wrt (<) (i # is)" "\<forall>(a, b)\<in>set (zip (i # is) is). b - a \<le> 256"
  shows "sum_list (gap_losses (i # is)) + int (length is) = int (last (i # is)) - int i"
  using assms
proof (induction "is" arbitrary: i)
  case (Cons j "is")
  then have "i < j" "j - i \<le> 256" by auto
  then have "(int j - int i - 1) mod 256 = int j - int i - 1"
    by (intro mod_pos_pos_trivial) linarith+
  with Cons.IH [of j] Cons.prems show ?case by (simp add: gap_losses_def)
qed (simp add: gap_losses_def)

section \<open>Properties\<close>

text \<open>C1: End to end: a packet a talker builds can be written to the wire and read back as it was, and
  a listener whose filter accepts the talker's stream returns from it the audio payload unchanged with
  the talker's format, its sequence number, and a presentation time that is the talker's PTP time plus
  its playback delay, modulo the 32 bits of the timestamp.\<close>

theorem talker_listener_end_to_end:
  assumes "bit_writer_laws W snk" "bit_reader_laws R rest"
    and "clock_inv (tk_ptp_clock tk)" "reading_ok reading"
    and "build_packet dbg W now reading payload tk = (Ok pdu, tk')"
    and "filter_matches (ln_filter l) (tk_stream_id tk)"
  shows "\<exists>w r f t. avtpdu_write dbg1 W pdu (wr_vec W []) = Ok w \<and>
    avtpdu_read dbg2 R (rd_slice R (wr_buffer W w)) = Ok (pdu, r) \<and>
    process dbg3 R pdu l = (Ok (Some f), l\<lparr>expected_seq := Some (tk_sequence_num tk')\<rparr>) \<and>
    payload_be f = payload \<and> rx_seq_num f = tk_sequence_num tk \<and>
    rx_sample_rate f = tk_sample_rate tk \<and> rx_channels f = tk_channels tk \<and>
    rx_bit_depth f = tk_bit_depth tk \<and> rx_format f = tk_format tk \<and>
    sync_ptp_time (tk_ptp_clock tk) now reading = (Ok t, tk_ptp_clock tk') \<and>
    uint (as_u32 (rx_avtp_timestamp f)) = (as_nanos t + uint (playback_delay_ns tk)) mod 2 ^ 32"
proof -
  from build_packet_Ok [OF assms(1,5)] obtain t clk where
    t: "sync_ptp_time (tk_ptp_clock tk) now reading = (Ok t, clk)"
    "pdu = Stream (aaf_encode (sent_aaf tk t payload))" "aaf_wf (sent_aaf tk t payload)"
    "tk' = tk\<lparr>tk_ptp_clock := clk, tk_sequence_num := tk_sequence_num tk + 1\<rparr>" by blast
  from sync_ptp_time_advances [OF assms(3,4) t(1)] have "wf_time t" by simp
  then have "uint (as_u32 (ts_wrapping_add (ts_from_ptp t) (playback_delay_ns tk))) =
      (as_nanos t + uint (playback_delay_ns tk)) mod 2 ^ 32"
    by (simp add: ts_wrapping_add_congruent uint_ts_from_ptp mod_simps)
  moreover have "pdu_decodable pdu"
    using aaf_encode_wf [OF t(3)] by (simp add: t(2) pdu_defs sent_aaf_def)
  from avtpdu_write_then_read [OF assms(1,2) this, of dbg1 dbg2 "[]"] obtain w r where
    "avtpdu_write dbg1 W pdu (wr_vec W []) = Ok w"
    "avtpdu_read dbg2 R (rd_slice R (wr_buffer W w)) = Ok (pdu, r)" by auto
  moreover note process_sent [OF assms(2) t(3) assms(6), of dbg3]
  ultimately show ?thesis using t by (simp add: frame_of_def)
qed

definition sample_talker :: aaf_pcm_talker where
  "sample_talker = \<lparr>tk_stream_id = \<lparr>mac_address = MacAddr 2 0 0 0 0 1, unique_id = 258\<rparr>,
     tk_format = Int16Bit, tk_sample_rate = KHz48, tk_channels = 2, tk_bit_depth = 16,
     tk_sequence_num = 255, tk_ptp_clock = sample_clock, playback_delay_ns = 2000000\<rparr>"

lemma sample_sync: "\<exists>t clk. sync_ptp_time sample_clock 5000 (Err () :: unit reading) = (Ok t, clk)"
proof -
  have r: "rnd 4000 = 4000" by (rule rnd_numeral) simp
  have f: "\<lfloor>8001 / 2 :: rat\<rfloor> = 4000" by (simp add: floor_eq_iff)
  show ?thesis
    by (simp add: sync_ptp_time_def elapsed_def compute_elapsed_def sample_clock_def duration_since_def
        i128_nanos_to_duration_def Let_def as_nanos_wf wf_time_def in_i64_def r sat_i128_def in_i128_def
        checked_add_i128_def round_away_def in_u64_def ensure_def from_ns_i128_def f)
qed

lemma sample_packet:
  assumes "bit_writer_laws W snk"
  obtains pdu tk' where "build_packet True W 5000 (Err () :: unit reading) [1, 2, 3, 4] sample_talker =
      (Ok pdu, tk')"
    "tk_sequence_num tk' = 0"
proof -
  obtain t clk where t: "sync_ptp_time sample_clock 5000 (Err () :: unit reading) = (Ok t, clk)"
    using sample_sync by blast
  have p: "\<exists>p. pcm_new True KHz48 2 Int16Bit 16 [1, 2, 3, 4] = Ok p"
    by (simp add: pcm_new_Ok_iff pcm_wf_def frame_bytes_def u16_max_def)
  from p t that show thesis
    unfolding build_packet_eq [OF assms] by (auto simp: sample_talker_def)
qed

theorem talker_listener_end_to_end_witness:
  "\<exists>pdu w r f. avtpdu_write True mem_writer pdu (wr_vec mem_writer []) = Ok w \<and>
    avtpdu_read False mem_reader (rd_slice mem_reader (wr_buffer mem_writer w)) = Ok (pdu, r) \<and>
    fst (process True mem_reader pdu (listener_new None)) = Ok (Some f) \<and> payload_be f = [1, 2, 3, 4]"
proof -
  obtain pdu tk' where b: "build_packet True mem_writer 5000 (Err () :: unit reading) [1, 2, 3, 4]
      sample_talker = (Ok pdu, tk')"
    by (rule sample_packet [OF mem_wr.bit_writer_laws_axioms])
  have "clock_inv (tk_ptp_clock sample_talker)"
    "filter_matches (ln_filter (listener_new None)) (tk_stream_id sample_talker)"
    by (simp_all add: sample_talker_def sample_clock_inv listener_new_def)
  from talker_listener_end_to_end [OF mem_wr.bit_writer_laws_axioms mem_rd.bit_reader_laws_axioms
      this(1) _ b this(2), of True False True]
  show ?thesis by (fastforce simp: reading_ok_def)
qed

text \<open>C6: Loss accounting. Of the packets a talker sends, let any be delivered, in any order and with
  repetitions, to a fresh listener that accepts the stream. It returns a frame for each delivered
  packet, with its payload, and reports as lost before it the distance from the previously delivered
  packet less one, modulo the 256 sequence numbers; before the first, none.\<close>

theorem listener_reports_gaps:
  assumes "bit_writer_laws W snk" "bit_reader_laws R rest"
    and "talk_run dbg W is tk = (sent, tk')" "filter_matches (ln_filter l) (tk_stream_id tk)"
    and "expected_seq l = None" "\<forall>j\<in>set (i # js). j < length sent"
  shows "let frames = listen_run dbg' R (map (\<lambda>j. snd (sent ! j)) (i # js)) l in
    map payload_be frames = map (\<lambda>j. fst (sent ! j)) (i # js) \<and>
    map (\<lambda>f. uint (packets_lost f)) frames =
      0 # map (\<lambda>(a, b). (int b - int a - 1) mod 256) (zip (i # js) js)"
  using listen_run_first [OF assms(2) _ assms(4-6)] talk_run_sent [OF assms(1,3)]
  by (simp add: Let_def gap_losses_def)

text \<open>When the packets are delivered in order and no more than 255 in a row are missing, the losses
  reported add up to exactly the packets missing between the first and the last one delivered.\<close>

theorem listener_total_loss:
  assumes "bit_writer_laws W snk" "bit_reader_laws R rest"
    and "talk_run dbg W is tk = (sent, tk')" "filter_matches (ln_filter l) (tk_stream_id tk)"
    and "expected_seq l = None" "\<forall>j\<in>set (i # js). j < length sent"
    and "sorted_wrt (<) (i # js)" "\<forall>(a, b)\<in>set (zip (i # js) js). b - a \<le> 256"
  shows "let frames = listen_run dbg' R (map (\<lambda>j. snd (sent ! j)) (i # js)) l in
    sum_list (map (\<lambda>f. uint (packets_lost f)) frames) + int (length frames) =
      int (last (i # js)) - int i + 1"
proof -
  define frames where "frames = listen_run dbg' R (map (\<lambda>j. snd (sent ! j)) (i # js)) l"
  have f: "map payload_be frames = map (\<lambda>j. fst (sent ! j)) (i # js)"
    "map (\<lambda>f. uint (packets_lost f)) frames = 0 # gap_losses (i # js)"
    using listen_run_first [OF assms(2) _ assms(4-6), of dbg'] talk_run_sent [OF assms(1,3)]
    by (simp_all add: frames_def)
  from arg_cong [OF f(1), of length] have "length frames = Suc (length js)" by simp
  with f(2) gap_losses_sum [OF assms(7,8)] show ?thesis
    unfolding Let_def frames_def [symmetric] by simp
qed

lemma sample_run:
  assumes "bit_writer_laws W snk"
  obtains sent tk' where "talk_run True W [(5000, Err () :: unit reading, [1, 2, 3, 4])] sample_talker = (sent, tk')"
    "length sent = 1"
proof -
  obtain pdu tk' where "build_packet True W 5000 (Err () :: unit reading) [1, 2, 3, 4] sample_talker =
      (Ok pdu, tk')"
    by (rule sample_packet [OF assms])
  then show thesis using that by simp
qed

theorem listener_reports_gaps_witness:
  "\<exists>sent tk'. talk_run True mem_writer [(5000, Err () :: unit reading, [1, 2, 3, 4])] sample_talker =
      (sent, tk') \<and>
    map (\<lambda>f. uint (packets_lost f)) (listen_run False mem_reader [snd (sent ! 0), snd (sent ! 0)]
      (listener_new None)) = [0, 255]"
proof -
  obtain sent tk' where "talk_run True mem_writer [(5000, Err () :: unit reading, [1, 2, 3, 4])]
      sample_talker = (sent, tk')" "length sent = 1"
    by (rule sample_run [OF mem_wr.bit_writer_laws_axioms])
  with listener_reports_gaps [OF mem_wr.bit_writer_laws_axioms mem_rd.bit_reader_laws_axioms this(1),
      of "listener_new None" 0 "[0]" False]
  show ?thesis by (simp add: listener_new_def Let_def del: listen_run.simps)
qed

theorem listener_total_loss_witness:
  "\<exists>sent tk'. talk_run True mem_writer [(5000, Err () :: unit reading, [1, 2, 3, 4])] sample_talker =
      (sent, tk') \<and>
    sum_list (map (\<lambda>f. uint (packets_lost f)) (listen_run False mem_reader [snd (sent ! 0)]
      (listener_new None))) + int (length (listen_run False mem_reader [snd (sent ! 0)] (listener_new None))) = 1"
proof -
  obtain sent tk' where "talk_run True mem_writer [(5000, Err () :: unit reading, [1, 2, 3, 4])]
      sample_talker = (sent, tk')" "length sent = 1"
    by (rule sample_run [OF mem_wr.bit_writer_laws_axioms])
  with listener_total_loss [OF mem_wr.bit_writer_laws_axioms mem_rd.bit_reader_laws_axioms this(1),
      of "listener_new None" 0 "[]" False]
  show ?thesis by (simp add: listener_new_def Let_def del: listen_run.simps)
qed

text \<open>C17: A talker asked for a packet never panics as long as its PTP clock does not; its sequence number
  advances by one exactly when it returns a packet; its clock's invariant and its configuration are
  kept even by failed requests; and each error it returns is the clock's or the one that rejects the
  payload.\<close>

theorem build_packet_outcome:
  assumes "bit_writer_laws W snk" "clock_inv (tk_ptp_clock tk)" "reading_ok reading" "reading \<noteq> Panic"
    and "build_packet dbg W now reading payload tk = (out, tk')"
  shows "clock_inv (tk_ptp_clock tk') \<and>
    tk' = tk\<lparr>tk_ptp_clock := tk_ptp_clock tk', tk_sequence_num := tk_sequence_num tk'\<rparr> \<and>
    (case out of
       Ok _ \<Rightarrow> tk_sequence_num tk' = tk_sequence_num tk + 1
     | Err (Clock e) \<Rightarrow> tk_sequence_num tk' = tk_sequence_num tk \<and>
         fst (sync_ptp_time (tk_ptp_clock tk) now reading) = Err e
     | Err (TalkerPcm e) \<Rightarrow> tk_sequence_num tk' = tk_sequence_num tk \<and>
         pcm_new dbg (tk_sample_rate tk) (tk_channels tk) (tk_format tk) (tk_bit_depth tk) payload = Err e
     | Panic \<Rightarrow> False)"
proof -
  obtain r clk where r: "sync_ptp_time (tk_ptp_clock tk) now reading = (r, clk)" by (rule prod.exhaust)
  note tk' = build_packet_clock [OF assms(1) r assms(5)]
  from sync_ptp_time_advances [OF assms(2,3) r] have "clock_inv clk" by simp
  moreover have "r \<noteq> Panic" using sync_ptp_time_not_Panic [OF assms(2-4)] r by (metis fst_conv)
  ultimately show ?thesis
    using assms(5) tk' unfolding build_packet_eq [OF assms(1)] r
    by (auto simp: pcm_new_not_Panic split: res.splits)
qed

theorem build_packet_outcome_witness:
  "\<exists>tk'. build_packet True mem_writer 5000 (Err () :: unit reading) [1, 2, 3] sample_talker =
      (Err (TalkerPcm (PayloadSizeInvalid 3 4)), tk') \<and> tk_sequence_num tk' = 255"
proof -
  obtain t clk where t: "sync_ptp_time sample_clock 5000 (Err () :: unit reading) = (Ok t, clk)"
    using sample_sync by blast
  have p: "pcm_new True KHz48 2 Int16Bit 16 [1, 2, 3] = Err (PayloadSizeInvalid 3 4)"
    by (simp add: pcm_new_def validated_bit_depth_def validate_payload_size_def u16_max_def ensure_def)
  obtain tk' where b: "build_packet True mem_writer 5000 (Err () :: unit reading) [1, 2, 3] sample_talker =
      (Err (TalkerPcm (PayloadSizeInvalid 3 4)), tk')"
    using t p unfolding build_packet_eq [OF mem_wr.bit_writer_laws_axioms] by (simp add: sample_talker_def)
  from build_packet_outcome [OF mem_wr.bit_writer_laws_axioms _ _ _ b] b show ?thesis
    by (simp add: sample_talker_def sample_clock_inv reading_ok_def)
qed


text \<open>C14: The types of the receive path: whatever the bytes of a packet, a PDU that can be read from them is
  well-formed (its subtype belongs to its kind of header, its payload has the announced length), and a
  frame the listener makes of it is well-formed PCM: a bit depth and channels that are not zero, a depth
  that fits the words of the format, and a payload of whole frames of at most 65535 bytes.\<close>

theorem received_frame_well_formed:
  assumes "bit_reader_laws R rest" "avtpdu_read dbg R r = Ok (p, r')"
    and "process dbg' R p l = (Ok (Some f), l')"
  shows "pdu_decodable p \<and> pcm_wf \<lparr>nominal_sample_rate = rx_sample_rate f, channels_per_frame = rx_channels f,
    pcm_fmt = rx_format f, bit_depth = rx_bit_depth f, pcm_payload = payload_be f\<rparr>"
proof -
  have p: "pdu_decodable p" using bit_reader_laws.avtpdu_read_sound [OF assms(1,2)] by blast
  from assms(3) obtain h where h: "p = Stream h" by (cases p) (auto simp: process_def)
  with p have wf: "stream_wf h" by (simp add: pdu_decodable_def)
  from assms(3) obtain a where a: "aaf_decode dbg' h = Ok a"
    by (cases "aaf_decode dbg' h") (auto simp: process_def h aaf_try_from_eq [OF assms(1)])
  with aaf_decode_wf [OF a wf] have w: "variant_wf (format_data a)" by (simp add: aaf_wf_def)
  obtain pcm where v: "format_data a = PcmVariant pcm"
    using assms(3) a by (cases "format_data a") (auto simp: process_def h aaf_try_from_eq [OF assms(1)] split: if_splits)
  with assms(3) a have "\<lparr>nominal_sample_rate = rx_sample_rate f, channels_per_frame = rx_channels f,
    pcm_fmt = rx_format f, bit_depth = rx_bit_depth f, pcm_payload = payload_be f\<rparr> = pcm"
    by (auto simp: process_def h aaf_try_from_eq [OF assms(1)] Let_def split: if_splits)
  with p w v show ?thesis by simp
qed

theorem received_frame_well_formed_witness:
  "\<exists>bs p r f l'. avtpdu_read True mem_reader (rd_slice mem_reader bs) = Ok (p, r) \<and>
    process True mem_reader p (listener_new None) = (Ok (Some f), l') \<and> rx_channels f \<noteq> 0 \<and> length (payload_be f) = 4"
proof -
  obtain pdu tk' where b: "build_packet True mem_writer 5000 (Err () :: unit reading) [1, 2, 3, 4]
      sample_talker = (Ok pdu, tk')"
    by (rule sample_packet [OF mem_wr.bit_writer_laws_axioms])
  from build_packet_Ok [OF mem_wr.bit_writer_laws_axioms b] obtain t where
    t: "pdu = Stream (aaf_encode (sent_aaf sample_talker t [1, 2, 3, 4]))" "aaf_wf (sent_aaf sample_talker t [1, 2, 3, 4])"
    by blast
  have "pdu_decodable pdu" using aaf_encode_wf [OF t(2)] by (simp add: t(1) pdu_defs sent_aaf_def)
  from avtpdu_write_then_read [OF mem_wr.bit_writer_laws_axioms mem_rd.bit_reader_laws_axioms this, of True True "[]"]
  obtain w r where rd: "avtpdu_read True mem_reader (rd_slice mem_reader (wr_buffer mem_writer w)) = Ok (pdu, r)" by auto
  have "filter_matches (ln_filter (listener_new None)) (tk_stream_id sample_talker)" by (simp add: listener_new_def)
  from process_sent [OF mem_rd.bit_reader_laws_axioms t(2) this, of True] t(1) obtain f l' where
    f: "process True mem_reader pdu (listener_new None) = (Ok (Some f), l')" "payload_be f = [1, 2, 3, 4]"
    by (simp add: frame_of_def)
  from received_frame_well_formed [OF mem_rd.bit_reader_laws_axioms rd f(1)] have "rx_channels f \<noteq> 0"
    by (simp add: pcm_wf_def)
  moreover have "length (payload_be f) = 4" using f(2) by simp
  ultimately show ?thesis using rd f(1) by blast
qed

end
