(* ===== verification/RustStr.thy ===== *)
theory RustStr
  imports Prelude F64 "HOL-Library.Sublist"
begin

text \<open>
  What the program uses of the standard library's strings: trimming, splitting into lines and words,
  searching, and parsing numbers. A string is a list of characters of the code points up to 255, whose
  whitespace is that of Unicode; the texts the program parses are ASCII.
\<close>

section \<open>Whitespace\<close>

definition is_ws :: "char \<Rightarrow> bool" where
  "is_ws c \<longleftrightarrow> (let n = of_char c :: nat in 9 \<le> n \<and> n \<le> 13 \<or> n = 32 \<or> n = 133 \<or> n = 160)"

abbreviation newline :: char where "newline \<equiv> CHR 0x0A"
abbreviation cr :: char where "cr \<equiv> CHR 0x0D"

lemma is_ws_newline [simp]: "is_ws newline" "is_ws cr" "is_ws CHR '' ''" "is_ws CHR 0x09"
  by (simp_all add: is_ws_def)

definition trim_start :: "string \<Rightarrow> string" where
  "trim_start s = dropWhile is_ws s"

definition trim_end :: "string \<Rightarrow> string" where
  "trim_end s = rev (dropWhile is_ws (rev s))"

definition trim :: "string \<Rightarrow> string" where
  "trim s = trim_end (trim_start s)"

text \<open>A string that trimming leaves as it is.\<close>

definition trimmed :: "string \<Rightarrow> bool" where
  "trimmed s \<longleftrightarrow> s = [] \<or> \<not> is_ws (hd s) \<and> \<not> is_ws (last s)"

lemma trim_pad:
  assumes "\<forall>c\<in>set a. is_ws c" "\<forall>c\<in>set b. is_ws c" "trimmed s"
  shows "trim (a @ s @ b) = s"
proof (cases "s = []")
  case True
  have "trim_start (a @ b) = []"
    using assms by (simp only: trim_start_def dropWhile_eq_Nil_conv set_append ball_Un)
  with True show ?thesis by (simp add: trim_def trim_end_def)
next
  case False
  then have s: "dropWhile is_ws (s @ b) = s @ b" "dropWhile is_ws (rev s) = rev s"
    using assms(3) by (simp_all add: trimmed_def dropWhile_eq_self_iff hd_rev hd_append)
  have "dropWhile is_ws (a @ s @ b) = dropWhile is_ws (s @ b)"
    by (rule dropWhile_append2) (use assms(1) in blast)
  moreover have "dropWhile is_ws (rev b @ rev s) = dropWhile is_ws (rev s)"
    by (rule dropWhile_append2) (use assms(2) in auto)
  ultimately show ?thesis using s by (simp add: trim_def trim_start_def trim_end_def)
qed

lemma trim_id: "trimmed s \<Longrightarrow> trim s = s"
  using trim_pad [of "[]" "[]" s] by simp

section \<open>Lines and words\<close>

text \<open>\<^verbatim>\<open>str::lines\<close>: a line ends with a newline, before which one carriage return is dropped.\<close>

definition strip_cr :: "string \<Rightarrow> string" where
  "strip_cr s = (if s \<noteq> [] \<and> last s = cr then butlast s else s)"

function str_lines :: "string \<Rightarrow> string list" where
  "str_lines s =
     (if s = [] then []
      else let l = takeWhile (\<lambda>c. c \<noteq> newline) s; r = dropWhile (\<lambda>c. c \<noteq> newline) s in
        if r = [] then [l] else strip_cr l # str_lines (tl r))"
  by pat_completeness auto

termination
proof (relation "measure length")
  fix s l r
  assume "s \<noteq> []" "r = dropWhile (\<lambda>c. c \<noteq> newline) s" "r \<noteq> []"
  then have "length (tl r) < length r" "length r \<le> length s" by (simp_all add: length_dropWhile_le)
  then show "(tl r, s) \<in> measure length" by simp
qed simp

declare str_lines.simps [simp del]

lemma str_lines_Nil [simp]: "str_lines [] = []"
  by (simp add: str_lines.simps)

lemma str_lines_line:
  assumes "newline \<notin> set l"
  shows "str_lines (l @ newline # t) = strip_cr l # str_lines t"
proof -
  have "takeWhile (\<lambda>c. c \<noteq> newline) l = l" "dropWhile (\<lambda>c. c \<noteq> newline) l = []"
    using assms by (auto simp: takeWhile_eq_all_conv dropWhile_eq_Nil_conv)
  then show ?thesis by (subst str_lines.simps) (simp add: takeWhile_tail dropWhile_append3 Let_def)
qed

function split_whitespace :: "string \<Rightarrow> string list" where
  "split_whitespace s =
     (let r = dropWhile is_ws s in
      if r = [] then [] else takeWhile (\<lambda>c. \<not> is_ws c) r # split_whitespace (dropWhile (\<lambda>c. \<not> is_ws c) r))"
  by pat_completeness auto

termination
proof (relation "measure length")
  fix s r :: string
  assume r: "r = dropWhile is_ws s" "r \<noteq> []"
  then have "\<not> is_ws (hd r)" by (simp add: hd_dropWhile)
  with r(2) have "dropWhile (\<lambda>c. \<not> is_ws c) r = dropWhile (\<lambda>c. \<not> is_ws c) (tl r)"
    by (cases r) simp_all
  moreover have "length (dropWhile (\<lambda>c. \<not> is_ws c) (tl r)) \<le> length (tl r)" by (rule length_dropWhile_le)
  moreover have "length (tl r) < length r" "length r \<le> length s"
    using r by (simp_all add: length_dropWhile_le)
  ultimately show "(dropWhile (\<lambda>c. \<not> is_ws c) r, s) \<in> measure length" by simp
qed simp

declare split_whitespace.simps [simp del]

text \<open>\<^verbatim>\<open>split_once(char::is_whitespace)\<close> and \<^verbatim>\<open>contains\<close>.\<close>

definition split_once_ws :: "string \<Rightarrow> (string \<times> string) option" where
  "split_once_ws s =
     (case dropWhile (\<lambda>c. \<not> is_ws c) s of
        [] \<Rightarrow> None | _ # r \<Rightarrow> Some (takeWhile (\<lambda>c. \<not> is_ws c) s, r))"

fun contains :: "string \<Rightarrow> string \<Rightarrow> bool" where
  "contains p [] \<longleftrightarrow> p = []"
| "contains p (c # s) \<longleftrightarrow> prefix p (c # s) \<or> contains p s"

lemma contains_sublist: "contains p s \<longleftrightarrow> sublist p s"
  by (induction s) (auto simp: sublist_Cons_right)

lemma split_whitespace_eq_Nil: "split_whitespace s = [] \<longleftrightarrow> (\<forall>c\<in>set s. is_ws c)"
  by (subst split_whitespace.simps) (simp add: Let_def dropWhile_eq_Nil_conv)

definition unlines :: "string list \<Rightarrow> string" where
  "unlines ls = concat (map (\<lambda>l. l @ [newline]) ls)"

lemma str_lines_unlines: "\<forall>l\<in>set ls. newline \<notin> set l \<Longrightarrow> str_lines (unlines ls) = map strip_cr ls"
  by (induction ls) (simp_all add: unlines_def str_lines_line)

lemma trim_pad_both:
  "\<forall>c\<in>set a. is_ws c \<Longrightarrow> \<forall>c\<in>set b. is_ws c \<Longrightarrow> \<forall>c\<in>set s. \<not> is_ws c \<Longrightarrow> trim (a @ s @ b) = s"
  by (rule trim_pad) (auto simp: trimmed_def hd_in_set last_in_set)

lemma split_once_ws_pad:
  "\<forall>c\<in>set k. \<not> is_ws c \<Longrightarrow> is_ws w \<Longrightarrow> split_once_ws (k @ w # v) = Some (k, v)"
  by (simp add: split_once_ws_def dropWhile_append2 takeWhile_append2)

lemma split_whitespace_append_word:
  assumes "\<forall>c\<in>set w. \<not> is_ws c" "w \<noteq> []"
  shows "split_whitespace (s @ CHR '' '' # w) \<noteq> [] \<and> last (split_whitespace (s @ CHR '' '' # w)) = w"
proof (induction s rule: split_whitespace.induct)
  case (1 s)
  define t where "t = s @ CHR '' '' # w"
  show ?case
  proof (cases "\<forall>c\<in>set s. is_ws c")
    case True
    then have d: "dropWhile is_ws t = w"
      using assms by (simp add: t_def dropWhile_append2 dropWhile_eq_self_iff)
    have "split_whitespace t = [w]"
      using assms by (subst split_whitespace.simps)
        (simp add: d Let_def takeWhile_eq_all_conv [THEN iffD2] dropWhile_eq_Nil_conv [THEN iffD2]
          split_whitespace.simps [of "[]"])
    then show ?thesis by (simp add: t_def)
  next
    case False
    define r where "r = dropWhile is_ws s"
    have r: "r \<noteq> []" using False by (simp add: r_def dropWhile_eq_Nil_conv)
    have d: "dropWhile is_ws t = r @ CHR '' '' # w"
      using False by (simp add: t_def r_def dropWhile_append1 dropWhile_eq_Nil_conv)
        (meson dropWhile_append1)
    have e: "dropWhile (\<lambda>c. \<not> is_ws c) (r @ CHR '' '' # w) =
        dropWhile (\<lambda>c. \<not> is_ws c) r @ CHR '' '' # w"
      by (simp add: dropWhile_append3)
    have "split_whitespace t = takeWhile (\<lambda>c. \<not> is_ws c) (r @ CHR '' '' # w) #
        split_whitespace (dropWhile (\<lambda>c. \<not> is_ws c) r @ CHR '' '' # w)"
      by (subst split_whitespace.simps) (simp add: d e Let_def)
    with 1 [OF r_def r] show ?thesis by (simp add: t_def)
  qed
qed

lemma trim_end_snoc [simp]: "is_ws w \<Longrightarrow> trim_end (s @ [w]) = trim_end s"
  by (simp add: trim_end_def)

lemma trim_strip_cr [simp]: "trim (strip_cr s) = trim s"
proof (cases "s \<noteq> [] \<and> last s = cr")
  case True
  then have s: "s = butlast s @ [cr]" by (metis append_butlast_last_id)
  have "trim (x @ [cr]) = trim x" for x
    by (cases "\<forall>c\<in>set x. is_ws c")
      (auto simp: trim_def trim_start_def dropWhile_append1 dropWhile_append2
        dropWhile_eq_Nil_conv [THEN iffD2])
  with True s show ?thesis by (metis strip_cr_def)
next
  case False
  then show ?thesis by (auto simp: strip_cr_def)
qed

section \<open>Integers\<close>

definition is_digit :: "char \<Rightarrow> bool" where
  "is_digit c \<longleftrightarrow> (let n = of_char c :: nat in 48 \<le> n \<and> n \<le> 57)"

definition digits_val :: "string \<Rightarrow> nat" where
  "digits_val s = foldl (\<lambda>n c. n * 10 + (of_char c - 48)) 0 s"

definition parse_digits :: "string \<Rightarrow> nat option" where
  "parse_digits s = (if s \<noteq> [] \<and> list_all is_digit s then Some (digits_val s) else None)"

text \<open>
  \<^verbatim>\<open>str::parse\<close> of the integer types, by their range. A sign must be followed by a digit, and the
  unsigned types take no minus.
\<close>

definition parse_signed :: "int \<Rightarrow> int \<Rightarrow> string \<Rightarrow> int option" where
  "parse_signed lo hi s =
     (let (neg, ds) = (if s \<noteq> [] \<and> hd s = CHR ''-'' then (True, tl s)
                       else if s \<noteq> [] \<and> hd s = CHR ''+'' then (False, tl s) else (False, s)) in
      case parse_digits ds of
        None \<Rightarrow> None
      | Some n \<Rightarrow>
          let v = (if neg then - int n else int n) in if lo \<le> v \<and> v \<le> hi then Some v else None)"

definition parse_unsigned :: "nat \<Rightarrow> string \<Rightarrow> nat option" where
  "parse_unsigned hi s =
     (case parse_digits (if s \<noteq> [] \<and> hd s = CHR ''+'' then tl s else s) of
        None \<Rightarrow> None | Some n \<Rightarrow> if n \<le> hi then Some n else None)"

definition parse_i8 :: "string \<Rightarrow> int option" where
  "parse_i8 = parse_signed (- (2 ^ 7)) (2 ^ 7 - 1)"

definition parse_i64 :: "string \<Rightarrow> int option" where
  "parse_i64 = parse_signed (- (2 ^ 63)) (2 ^ 63 - 1)"

definition parse_i128 :: "string \<Rightarrow> int option" where
  "parse_i128 = parse_signed (- (2 ^ 127)) (2 ^ 127 - 1)"

definition parse_u8 :: "string \<Rightarrow> byte option" where
  "parse_u8 s = map_option of_nat (parse_unsigned 255 s)"

definition parse_u32 :: "string \<Rightarrow> u32 option" where
  "parse_u32 s = map_option of_nat (parse_unsigned 4294967295 s)"

lemma digit_char:
  fixes n :: nat
  assumes "n < 10"
  shows "is_digit (char_of (48 + n)) \<and> of_char (char_of (48 + n) :: char) - 48 = n"
  using assms by (simp add: is_digit_def Let_def)

lemma show_nat_digits: "show_nat n \<noteq> [] \<and> list_all is_digit (show_nat n) \<and> digits_val (show_nat n) = n"
proof (induction n rule: show_nat.induct)
  case (1 n)
  then show ?case
    using digit_char [of n] digit_char [of "n mod 10"]
    by (subst (1 2 3) show_nat.simps) (auto simp: digits_val_def)
qed

lemma parse_digits_show_nat [simp]: "parse_digits (show_nat n) = Some n"
  using show_nat_digits [of n] by (simp add: parse_digits_def)

lemma sign_not_digit [simp]: "\<not> is_digit CHR ''-''" "\<not> is_digit CHR ''+''"
  by (simp_all add: is_digit_def)

lemma show_nat_hd: "hd (show_nat n) \<noteq> CHR ''-'' \<and> hd (show_nat n) \<noteq> CHR ''+''"
  using show_nat_digits [of n] by (cases "show_nat n") auto

lemma parse_signed_show: "lo \<le> i \<Longrightarrow> i \<le> hi \<Longrightarrow> parse_signed lo hi (show_int i) = Some i"
  using show_nat_hd [of "nat i"] show_nat_digits [of "nat i"]
  by (auto simp: parse_signed_def show_int_def Let_def)

lemma parse_unsigned_show: "n \<le> hi \<Longrightarrow> parse_unsigned hi (show_nat n) = Some n"
  using show_nat_hd [of n] show_nat_digits [of n] by (auto simp: parse_unsigned_def)

lemma show_nat_no_ws: "c \<in> set (show_nat n) \<Longrightarrow> \<not> is_ws c"
  using show_nat_digits [of n] by (auto simp: list_all_iff is_digit_def is_ws_def Let_def)

lemma show_int_no_ws: "c \<in> set (show_int i) \<Longrightarrow> \<not> is_ws c"
  using show_nat_no_ws by (auto simp: show_int_def is_ws_def split: if_splits)

section \<open>Floating-point numbers\<close>

text \<open>
  \<^verbatim>\<open>str::parse::<f64>\<close>: a decimal number, correctly rounded, or an infinity or a NaN by name in any
  case. A finite double is its sign and its magnitude.
\<close>

datatype f64 = F64Finite bool rat | F64Inf bool | F64NaN

definition round_f64 :: "bool \<Rightarrow> rat \<Rightarrow> f64" where
  "round_f64 neg x =
     (if x = 0 then F64Finite neg 0
      else let u = pow2 (max (rat_exp x) (- 1022) - 52); v = of_int (round_even (x / u)) * u in
        if 2 ^ 1024 \<le> v then F64Inf neg else F64Finite neg v)"

definition ascii_lower :: "char \<Rightarrow> char" where
  "ascii_lower c = (let n = of_char c :: nat in if 65 \<le> n \<and> n \<le> 90 then char_of (n + 32) else c)"

definition pow10 :: "int \<Rightarrow> rat" where
  "pow10 e = (if 0 \<le> e then 10 ^ nat e else 1 / 10 ^ nat (- e))"

definition parse_exponent :: "string \<Rightarrow> int option" where
  "parse_exponent s =
     (case s of
        [] \<Rightarrow> Some 0
      | c # t \<Rightarrow>
          if ascii_lower c \<noteq> CHR ''e'' then None
          else if t \<noteq> [] \<and> hd t = CHR ''-'' then map_option (\<lambda>n. - int n) (parse_digits (tl t))
          else map_option int (parse_digits (if t \<noteq> [] \<and> hd t = CHR ''+'' then tl t else t)))"

definition parse_decimal :: "string \<Rightarrow> rat option" where
  "parse_decimal s =
     (let i = takeWhile is_digit s; r = dropWhile is_digit s;
          (f, r) = (if r \<noteq> [] \<and> hd r = CHR ''.'' then (takeWhile is_digit (tl r), dropWhile is_digit (tl r))
                    else ([], r)) in
      if i = [] \<and> f = [] then None
      else map_option (\<lambda>e. of_nat (digits_val (i @ f)) * pow10 (e - int (length f))) (parse_exponent r))"

definition parse_f64 :: "string \<Rightarrow> f64 option" where
  "parse_f64 s =
     (let neg = (s \<noteq> [] \<and> hd s = CHR ''-'');
          t = (if s \<noteq> [] \<and> hd s \<in> {CHR ''-'', CHR ''+''} then tl s else s) in
      case parse_decimal t of
        Some x \<Rightarrow> Some (round_f64 neg x)
      | None \<Rightarrow>
          if map ascii_lower t \<in> {''inf'', ''infinity''} then Some (F64Inf neg)
          else if map ascii_lower t = ''nan'' then Some F64NaN else None)"

section \<open>UTF-8\<close>

text \<open>
  \<^verbatim>\<open>String::from_utf8\<close>: the code points of a byte sequence, when it is well-formed. A character above
  U+00FF becomes U+00FF, the only place where the alphabet of the model is too small.
\<close>

definition cont_byte :: "byte \<Rightarrow> bool" where
  "cont_byte b \<longleftrightarrow> 128 \<le> unat b \<and> unat b < 192"

definition between :: "nat \<Rightarrow> nat \<Rightarrow> byte \<Rightarrow> bool" where
  "between lo hi b \<longleftrightarrow> lo \<le> unat b \<and> unat b \<le> hi"

fun utf8_next :: "byte list \<Rightarrow> (nat \<times> byte list) option" where
  "utf8_next [] = None"
| "utf8_next (a # bs) =
     (let n = unat a in
      if n < 128 then Some (n, bs)
      else case bs of
        b # bs \<Rightarrow>
          if between 194 223 a \<and> cont_byte b then Some (n mod 32 * 64 + unat b mod 64, bs)
          else (case bs of
            c # bs \<Rightarrow>
              if (n = 224 \<and> between 160 191 b \<or> between 225 236 a \<and> cont_byte b \<or>
                  n = 237 \<and> between 128 159 b \<or> between 238 239 a \<and> cont_byte b) \<and> cont_byte c
              then Some ((n mod 16 * 64 + unat b mod 64) * 64 + unat c mod 64, bs)
              else (case bs of
                d # bs \<Rightarrow>
                  if (n = 240 \<and> between 144 191 b \<or> between 241 243 a \<and> cont_byte b \<or>
                      n = 244 \<and> between 128 143 b) \<and> cont_byte c \<and> cont_byte d
                  then Some (((n mod 8 * 64 + unat b mod 64) * 64 + unat c mod 64) * 64 + unat d mod 64, bs)
                  else None
              | [] \<Rightarrow> None)
          | [] \<Rightarrow> None)
      | [] \<Rightarrow> None)"

lemma utf8_next_shorter: "utf8_next bs = Some (n, r) \<Longrightarrow> length r < length bs"
  by (cases bs) (auto simp: Let_def split: if_splits list.splits)

function utf8_points :: "byte list \<Rightarrow> nat list option" where
  "utf8_points bs =
     (if bs = [] then Some []
      else case utf8_next bs of
        None \<Rightarrow> None | Some (n, r) \<Rightarrow> map_option (\<lambda>ns. n # ns) (utf8_points r))"
  by pat_completeness auto

termination
  by (relation "measure length") (auto dest: utf8_next_shorter)

declare utf8_points.simps [simp del]

definition from_utf8 :: "byte list \<Rightarrow> string option" where
  "from_utf8 bs = map_option (map (\<lambda>n. char_of (min n 255))) (utf8_points bs)"

lemma utf8_points_ascii: "\<forall>n\<in>set ns. n < 128 \<Longrightarrow> utf8_points (map of_nat ns) = Some ns"
  by (induction ns) (simp_all add: utf8_points.simps [of "[]"] utf8_points.simps [of "_ # _"])

definition ascii_bytes :: "string \<Rightarrow> byte list" where
  "ascii_bytes s = map of_char s"

definition is_ascii :: "string \<Rightarrow> bool" where
  "is_ascii s \<longleftrightarrow> (\<forall>c\<in>set s. (of_char c :: nat) < 128)"

lemma from_utf8_ascii: "is_ascii s \<Longrightarrow> from_utf8 (ascii_bytes s) = Some s"
proof -
  assume "is_ascii s"
  moreover have "ascii_bytes s = map of_nat (map of_char s)"
    by (simp add: ascii_bytes_def of_nat_of_char)
  moreover have "map (\<lambda>n. char_of (min n (255::nat))) (map of_char s) = s"
    using \<open>is_ascii s\<close> by (auto simp: is_ascii_def min_def intro!: map_idI)
  ultimately show ?thesis
    by (simp add: from_utf8_def utf8_points_ascii is_ascii_def del: map_map)
qed

end
