(* ===== verification/PtpState.thy ===== *)
theory PtpState
  imports RustStr
begin

text \<open>
  \<^verbatim>\<open>src/ptp_proto/state.rs\<close>: the port states of IEEE 1588, the three datasets queried from linuxptp's
  \<^verbatim>\<open>pmc\<close>, and the parser of its output: the text is grouped into response blocks, each block's lines
  become a map from field names to values, and the fields are parsed in order.
\<close>

section \<open>Port states\<close>

datatype port_state =
    Initializing | Faulty | Disabled | Listening | PreMaster | Master | Passive | Uncalibrated | Slave
  | Unknown string

definition port_state_parse :: "string \<Rightarrow> port_state" where
  "port_state_parse s =
     (if s = ''INITIALIZING'' then Initializing
      else if s = ''FAULTY'' then Faulty
      else if s = ''DISABLED'' then Disabled
      else if s = ''LISTENING'' then Listening
      else if s = ''PRE_MASTER'' then PreMaster
      else if s = ''MASTER'' then Master
      else if s = ''PASSIVE'' then Passive
      else if s = ''UNCALIBRATED'' then Uncalibrated
      else if s = ''SLAVE'' then Slave
      else Unknown s)"

definition is_unexpected_for_slave :: "port_state \<Rightarrow> bool" where
  "is_unexpected_for_slave p =
     (case p of Faulty \<Rightarrow> True | Disabled \<Rightarrow> True | PreMaster \<Rightarrow> True | Master \<Rightarrow> True | Passive \<Rightarrow> True
      | Unknown _ \<Rightarrow> True | _ \<Rightarrow> False)"

definition is_unexpected_for_master :: "port_state \<Rightarrow> bool" where
  "is_unexpected_for_master p =
     (case p of Faulty \<Rightarrow> True | Disabled \<Rightarrow> True | Uncalibrated \<Rightarrow> True | Passive \<Rightarrow> True | Slave \<Rightarrow> True
      | Unknown _ \<Rightarrow> True | _ \<Rightarrow> False)"

section \<open>Datasets\<close>

record time_status_np =
  master_offset_ns :: int
  ingress_time :: int
  cumulative_scaled_rate_offset :: f64
  gm_present :: bool
  gm_identity :: string

record port_data_set =
  port_identity :: string
  port_state :: port_state
  log_min_delay_req_interval :: int
  peer_mean_path_delay :: int
  log_announce_interval :: int
  announce_receipt_timeout :: byte
  log_sync_interval :: int
  delay_mechanism :: byte
  log_min_pdelay_req_interval :: int
  version_number :: byte

record current_data_set =
  steps_removed :: u32
  offset_from_master_ns :: f64
  mean_path_delay_ns :: f64

record ptp_snapshot =
  time_status :: time_status_np
  port_data :: port_data_set
  current_data :: current_data_set

definition is_synchronized :: "ptp_snapshot \<Rightarrow> bool" where
  "is_synchronized s \<longleftrightarrow> port_state (port_data s) = Slave"

definition is_master :: "ptp_snapshot \<Rightarrow> bool" where
  "is_master s \<longleftrightarrow> port_state (port_data s) = Master"

definition offset_ns :: "ptp_snapshot \<Rightarrow> int option" where
  "offset_ns s = (if is_synchronized s then Some (master_offset_ns (time_status s)) else None)"

section \<open>Fields\<close>

datatype field_parse_error = MissingField string | InvalidField string

datatype dataset_parse_error = DatasetParseError (dpe_dataset: string) (field_err: field_parse_error)

datatype snapshot_parse_error =
    MissingDataset string | DuplicateDataset string | DatasetErr dataset_parse_error

definition to_map :: "string list \<Rightarrow> (string \<rightharpoonup> string)" where
  "to_map lines = fold (\<lambda>line m.
     case split_once_ws line of Some (key, v) \<Rightarrow> m(key \<mapsto> trim v) | None \<Rightarrow> m) lines Map.empty"

definition field_str :: "(string \<rightharpoonup> string) \<Rightarrow> string \<Rightarrow> (field_parse_error, string) res" where
  "field_str m k = ok_or (MissingField k) (m k)"

definition field_parsed ::
    "(string \<Rightarrow> 'a option) \<Rightarrow> (string \<rightharpoonup> string) \<Rightarrow> string \<Rightarrow> (field_parse_error, 'a) res" where
  "field_parsed parse m k = rbind (field_str m k) (\<lambda>v. ok_or (InvalidField k) (parse v))"

definition parse_bool :: "string \<Rightarrow> bool option" where
  "parse_bool s = (if s = ''true'' then Some True else if s = ''false'' then Some False else None)"

definition time_status_parse_block :: "string list \<Rightarrow> (field_parse_error, time_status_np) res" where
  "time_status_parse_block lines =
     (let m = to_map lines in
      rbind (field_parsed parse_i64 m ''master_offset'') (\<lambda>off.
      rbind (field_parsed parse_i128 m ''ingress_time'') (\<lambda>ing.
      rbind (field_parsed parse_f64 m ''cumulativeScaledRateOffset'') (\<lambda>csro.
      rbind (field_parsed parse_bool m ''gmPresent'') (\<lambda>gmp.
      rbind (field_str m ''gmIdentity'') (\<lambda>gmi.
      Ok \<lparr>master_offset_ns = off, ingress_time = ing, cumulative_scaled_rate_offset = csro,
          gm_present = gmp, gm_identity = gmi\<rparr>))))))"

definition port_data_parse_block :: "string list \<Rightarrow> (field_parse_error, port_data_set) res" where
  "port_data_parse_block lines =
     (let m = to_map lines in
      rbind (field_str m ''portIdentity'') (\<lambda>pid.
      rbind (field_str m ''portState'') (\<lambda>ps.
      rbind (field_parsed parse_i8 m ''logMinDelayReqInterval'') (\<lambda>mindelay.
      rbind (field_parsed parse_i64 m ''peerMeanPathDelay'') (\<lambda>peer.
      rbind (field_parsed parse_i8 m ''logAnnounceInterval'') (\<lambda>announce.
      rbind (field_parsed parse_u8 m ''announceReceiptTimeout'') (\<lambda>timeout.
      rbind (field_parsed parse_i8 m ''logSyncInterval'') (\<lambda>sync.
      rbind (field_parsed parse_u8 m ''delayMechanism'') (\<lambda>mech.
      rbind (field_parsed parse_i8 m ''logMinPdelayReqInterval'') (\<lambda>minpdelay.
      rbind (field_parsed parse_u8 m ''versionNumber'') (\<lambda>ver.
      Ok \<lparr>port_identity = pid, port_state = port_state_parse ps,
          log_min_delay_req_interval = mindelay, peer_mean_path_delay = peer,
          log_announce_interval = announce, announce_receipt_timeout = timeout,
          log_sync_interval = sync, delay_mechanism = mech,
          log_min_pdelay_req_interval = minpdelay, version_number = ver\<rparr>)))))))))))"

definition current_data_parse_block :: "string list \<Rightarrow> (field_parse_error, current_data_set) res" where
  "current_data_parse_block lines =
     (let m = to_map lines in
      rbind (field_parsed parse_u32 m ''stepsRemoved'') (\<lambda>steps.
      rbind (field_parsed parse_f64 m ''offsetFromMaster'') (\<lambda>off.
      rbind (field_parsed parse_f64 m ''meanPathDelay'') (\<lambda>delay.
      Ok \<lparr>steps_removed = steps, offset_from_master_ns = off, mean_path_delay_ns = delay\<rparr>))))"

section \<open>Blocks\<close>

definition last_word :: "string \<Rightarrow> string option" where
  "last_word s = (case split_whitespace s of [] \<Rightarrow> None | w # ws \<Rightarrow> Some (last (w # ws)))"

text \<open>One line of the grouping loop, over its three mutable locals.\<close>

type_synonym block = "string \<times> string list"

definition block_step ::
    "string \<Rightarrow> block list \<times> string option \<times> string list \<Rightarrow> block list \<times> string option \<times> string list" where
  "block_step line st =
     (case st of (blocks, current_kind, current_lines) \<Rightarrow>
      let t = trim line in
      if t = [] \<or> prefix ''sending:'' t then st
      else if contains ''RESPONSE MANAGEMENT'' t then
        (case current_kind of
           Some kind \<Rightarrow> (blocks @ [(kind, current_lines)], last_word t, [])
         | None \<Rightarrow> (blocks, last_word t, current_lines))
      else if current_kind \<noteq> None then (blocks, current_kind, current_lines @ [t])
      else st)"

definition parse_blocks :: "string \<Rightarrow> block list" where
  "parse_blocks text =
     (case fold block_step (str_lines text) ([], None, []) of (blocks, current_kind, current_lines) \<Rightarrow>
      case current_kind of Some kind \<Rightarrow> blocks @ [(kind, current_lines)] | None \<Rightarrow> blocks)"

section \<open>Snapshots\<close>

text \<open>The arm of the loop for one dataset, over the option that collects it.\<close>

definition collect ::
    "string \<Rightarrow> (string list \<Rightarrow> (field_parse_error, 'a) res) \<Rightarrow> 'a option \<Rightarrow> string list \<Rightarrow>
     (snapshot_parse_error, 'a option) res" where
  "collect name parse cur lines =
     (if cur \<noteq> None then Err (DuplicateDataset name)
      else rbind (map_err (\<lambda>e. DatasetErr (DatasetParseError name e)) (parse lines)) (\<lambda>d. Ok (Some d)))"

primrec pmc_loop ::
    "block list \<Rightarrow> time_status_np option \<times> port_data_set option \<times> current_data_set option \<Rightarrow>
     (snapshot_parse_error, time_status_np option \<times> port_data_set option \<times> current_data_set option) res"
  where
  "pmc_loop [] st = Ok st"
| "pmc_loop (b # bs) st =
     (case st of (ts, pd, cd) \<Rightarrow>
      if fst b = ''TIME_STATUS_NP'' then
        rbind (collect ''TIME_STATUS_NP'' time_status_parse_block ts (snd b)) (\<lambda>ts. pmc_loop bs (ts, pd, cd))
      else if fst b = ''PORT_DATA_SET'' then
        rbind (collect ''PORT_DATA_SET'' port_data_parse_block pd (snd b)) (\<lambda>pd. pmc_loop bs (ts, pd, cd))
      else if fst b = ''CURRENT_DATA_SET'' then
        rbind (collect ''CURRENT_DATA_SET'' current_data_parse_block cd (snd b)) (\<lambda>cd. pmc_loop bs (ts, pd, cd))
      else pmc_loop bs st)"

definition parse_pmc_output :: "string \<Rightarrow> (snapshot_parse_error, ptp_snapshot) res" where
  "parse_pmc_output text =
     rbind (pmc_loop (parse_blocks text) (None, None, None)) (\<lambda>(ts, pd, cd).
     rbind (ok_or (MissingDataset ''TIME_STATUS_NP'') ts) (\<lambda>ts.
     rbind (ok_or (MissingDataset ''PORT_DATA_SET'') pd) (\<lambda>pd.
     rbind (ok_or (MissingDataset ''CURRENT_DATA_SET'') cd) (\<lambda>cd.
     Ok \<lparr>time_status = ts, port_data = pd, current_data = cd\<rparr>))))"

section \<open>The grouping of lines\<close>

definition header_line :: "string \<Rightarrow> bool" where
  "header_line t \<longleftrightarrow> contains ''RESPONSE MANAGEMENT'' t"

definition relevant :: "string \<Rightarrow> bool" where
  "relevant t \<longleftrightarrow> t \<noteq> [] \<and> \<not> prefix ''sending:'' t"

text \<open>A block is a header line with the lines up to the next one.\<close>

function ref_blocks :: "string list \<Rightarrow> block list" where
  "ref_blocks ls =
     (case dropWhile (\<lambda>t. \<not> header_line t) ls of
        [] \<Rightarrow> []
      | h # t \<Rightarrow> (last (split_whitespace h), takeWhile (\<lambda>t. \<not> header_line t) t) # ref_blocks t)"
  by pat_completeness auto

termination
proof (relation "measure length")
  fix ls h :: "string list" and t :: "string list" and x
  assume "dropWhile (\<lambda>t. \<not> header_line t) ls = x # t"
  then show "(t, ls) \<in> measure length"
    using length_dropWhile_le [of "\<lambda>t. \<not> header_line t" ls] by simp
qed simp

declare ref_blocks.simps [simp del]

lemma ref_blocks_Nil [simp]: "ref_blocks [] = []"
  by (simp add: ref_blocks.simps)

lemma ref_blocks_Cons:
  "ref_blocks (t # ts) = (if header_line t
     then (last (split_whitespace t), takeWhile (\<lambda>t. \<not> header_line t) ts) # ref_blocks ts
     else ref_blocks ts)"
  by (subst ref_blocks.simps) (simp add: ref_blocks.simps [of ts])

lemma header_last_word: "header_line t \<Longrightarrow> last_word t = Some (last (split_whitespace t))"
proof -
  assume "header_line t"
  then obtain a b where "t = a @ ''RESPONSE MANAGEMENT'' @ b"
    by (auto simp: header_line_def contains_sublist sublist_def)
  then have "split_whitespace t \<noteq> []" by (simp add: split_whitespace_eq_Nil is_ws_def)
  then show ?thesis by (auto simp: last_word_def split: list.split)
qed

lemma fold_block_step:
  "(case fold block_step lines (bs, kind, cur) of (blocks, current_kind, current_lines) \<Rightarrow>
      case current_kind of Some k \<Rightarrow> blocks @ [(k, current_lines)] | None \<Rightarrow> blocks) =
   (let ls = filter relevant (map trim lines) in
    case kind of None \<Rightarrow> bs @ ref_blocks ls
    | Some k \<Rightarrow> bs @ (k, cur @ takeWhile (\<lambda>t. \<not> header_line t) ls) # ref_blocks ls)"
  if "kind = None \<longrightarrow> cur = []"
  using that
proof (induction lines arbitrary: bs kind cur)
  case (Cons line lines)
  define t where "t = trim line"
  consider "\<not> relevant t" | "relevant t" "header_line t" | "relevant t" "\<not> header_line t" by blast
  then show ?case
  proof cases
    case 1
    then have "block_step line (bs, kind, cur) = (bs, kind, cur)"
      by (auto simp: block_step_def relevant_def t_def Let_def)
    with Cons 1 show ?thesis by (simp add: t_def)
  next
    case 2
    then have "block_step line (bs, kind, cur) =
        (case kind of Some k \<Rightarrow> (bs @ [(k, cur)], Some (last (split_whitespace t)), [])
         | None \<Rightarrow> (bs, Some (last (split_whitespace t)), cur))"
      using header_last_word [of t]
      by (auto simp: block_step_def relevant_def header_line_def t_def Let_def split: option.split)
    with Cons.prems 2 Cons.IH show ?thesis
      by (cases kind) (simp_all add: t_def Let_def ref_blocks_Cons)
  next
    case 3
    then have "block_step line (bs, kind, cur) =
        (if kind = None then (bs, kind, cur) else (bs, kind, cur @ [t]))"
      by (auto simp: block_step_def relevant_def header_line_def t_def Let_def)
    with Cons.prems 3 Cons.IH show ?thesis
      by (cases kind) (simp_all add: t_def Let_def ref_blocks_Cons)
  qed
qed (auto simp: Let_def split: option.split)

lemma parse_blocks_eq:
  "parse_blocks text = ref_blocks (filter relevant (map trim (str_lines text)))"
  using fold_block_step [of None "[]" "str_lines text" "[]"] by (simp add: parse_blocks_def)

section \<open>The collection of datasets\<close>

definition datasets :: "string \<Rightarrow> block list \<Rightarrow> string list list" where
  "datasets name bs = map snd (filter (\<lambda>b. fst b = name) bs)"

lemma datasets_simps [simp]:
  "datasets name [] = []"
  "datasets name (b # bs) = (if fst b = name then snd b # datasets name bs else datasets name bs)"
  by (simp_all add: datasets_def)

definition slot :: "(string list \<Rightarrow> (field_parse_error, 'a) res) \<Rightarrow> string list list \<Rightarrow> 'a option \<Rightarrow> 'a option \<Rightarrow> bool"
  where
  "slot parse ls cur r =
     (case ls of [] \<Rightarrow> r = cur
      | [l] \<Rightarrow> cur = None \<and> (\<exists>d. parse l = Ok d \<and> r = Some d)
      | _ \<Rightarrow> False)"

lemma slot_simps [simp]:
  "slot parse [] cur r \<longleftrightarrow> r = cur"
  "slot parse (l # ls) (Some d) r \<longleftrightarrow> False"
  "slot parse (l # ls) None r \<longleftrightarrow> (\<exists>d. parse l = Ok d \<and> slot parse ls (Some d) r)"
  by (auto simp: slot_def split: list.split)

lemma collect_Ok: "collect name parse cur l = Ok r \<longleftrightarrow> cur = None \<and> (\<exists>d. parse l = Ok d \<and> r = Some d)"
  by (auto simp: collect_def)

lemma pmc_loop_Ok:
  "pmc_loop bs (ts, pd, cd) = Ok (ts', pd', cd') \<longleftrightarrow>
   slot time_status_parse_block (datasets ''TIME_STATUS_NP'' bs) ts ts' \<and>
   slot port_data_parse_block (datasets ''PORT_DATA_SET'' bs) pd pd' \<and>
   slot current_data_parse_block (datasets ''CURRENT_DATA_SET'' bs) cd cd'"
proof (induction bs arbitrary: ts pd cd)
  case (Cons b bs)
  show ?case
    by (cases ts; cases pd; cases cd) (auto simp: Cons.IH collect_Ok)
qed auto

section \<open>The output of pmc\<close>

text \<open>
  The format \<^verbatim>\<open>pmc\<close> prints: for each query a line that echoes it, a header line, and the indented
  fields with their values in a column. The doubles are given with the text that was printed for them.
\<close>

definition field_line :: "string \<times> string \<Rightarrow> string" where
  "field_line f = [CHR 0x09, CHR 0x09] @ fst f @ CHR '' '' # replicate (26 - length (fst f)) CHR '' '' @ snd f"

definition block_text :: "string \<Rightarrow> string \<Rightarrow> (string \<times> string) list \<Rightarrow> string list" where
  "block_text port name fs =
     [''sending: GET '' @ name, CHR 0x09 # port @ '' seq 0 RESPONSE MANAGEMENT '' @ name @ '' ''] @
     map field_line fs"

definition show_bool :: "bool \<Rightarrow> string" where
  "show_bool b = (if b then ''true'' else ''false'')"

primrec show_port_state :: "port_state \<Rightarrow> string" where
  "show_port_state Initializing = ''INITIALIZING''"
| "show_port_state Faulty = ''FAULTY''"
| "show_port_state Disabled = ''DISABLED''"
| "show_port_state Listening = ''LISTENING''"
| "show_port_state PreMaster = ''PRE_MASTER''"
| "show_port_state Master = ''MASTER''"
| "show_port_state Passive = ''PASSIVE''"
| "show_port_state Uncalibrated = ''UNCALIBRATED''"
| "show_port_state Slave = ''SLAVE''"
| "show_port_state (Unknown s) = s"

definition time_fields :: "string \<Rightarrow> time_status_np \<Rightarrow> (string \<times> string) list" where
  "time_fields rate t =
     [(''master_offset'', show_int (master_offset_ns t)), (''ingress_time'', show_int (ingress_time t)),
      (''cumulativeScaledRateOffset'', rate), (''gmPresent'', show_bool (gm_present t)),
      (''gmIdentity'', gm_identity t)]"

definition port_fields :: "port_data_set \<Rightarrow> (string \<times> string) list" where
  "port_fields p =
     [(''portIdentity'', port_identity p), (''portState'', show_port_state (port_state p)),
      (''logMinDelayReqInterval'', show_int (log_min_delay_req_interval p)),
      (''peerMeanPathDelay'', show_int (peer_mean_path_delay p)),
      (''logAnnounceInterval'', show_int (log_announce_interval p)),
      (''announceReceiptTimeout'', show_nat (unat (announce_receipt_timeout p))),
      (''logSyncInterval'', show_int (log_sync_interval p)),
      (''delayMechanism'', show_nat (unat (delay_mechanism p))),
      (''logMinPdelayReqInterval'', show_int (log_min_pdelay_req_interval p)),
      (''versionNumber'', show_nat (unat (version_number p)))]"

definition current_fields :: "string \<Rightarrow> string \<Rightarrow> current_data_set \<Rightarrow> (string \<times> string) list" where
  "current_fields off delay c =
     [(''stepsRemoved'', show_nat (unat (steps_removed c))), (''offsetFromMaster'', off),
      (''meanPathDelay'', delay)]"

definition pmc_text :: "string \<Rightarrow> string \<Rightarrow> string \<Rightarrow> string \<Rightarrow> ptp_snapshot \<Rightarrow> string" where
  "pmc_text port rate off delay s = unlines
     (block_text port ''TIME_STATUS_NP'' (time_fields rate (time_status s)) @
      block_text port ''PORT_DATA_SET'' (port_fields (port_data s)) @
      block_text port ''CURRENT_DATA_SET'' (current_fields off delay (current_data s)))"

text \<open>The values a snapshot can hold, and the text of one value: a word that is not empty.\<close>

definition one_word :: "string \<Rightarrow> bool" where
  "one_word s \<longleftrightarrow> s \<noteq> [] \<and> (\<forall>c\<in>set s. \<not> is_ws c)"

definition in_i8 :: "int \<Rightarrow> bool" where
  "in_i8 i \<longleftrightarrow> - (2 ^ 7) \<le> i \<and> i < 2 ^ 7"

definition snapshot_ok :: "ptp_snapshot \<Rightarrow> bool" where
  "snapshot_ok s \<longleftrightarrow>
     in_i64 (master_offset_ns (time_status s)) \<and> in_i128 (ingress_time (time_status s)) \<and>
     one_word (gm_identity (time_status s)) \<and> one_word (port_identity (port_data s)) \<and>
     one_word (show_port_state (port_state (port_data s))) \<and>
     port_state_parse (show_port_state (port_state (port_data s))) = port_state (port_data s) \<and>
     in_i8 (log_min_delay_req_interval (port_data s)) \<and> in_i64 (peer_mean_path_delay (port_data s)) \<and>
     in_i8 (log_announce_interval (port_data s)) \<and> in_i8 (log_sync_interval (port_data s)) \<and>
     in_i8 (log_min_pdelay_req_interval (port_data s))"

lemma one_word_newline: "one_word s \<Longrightarrow> newline \<notin> set s"
  using is_ws_newline(1) unfolding one_word_def by blast

lemma one_word_show [simp]: "one_word (show_nat n)" "one_word (show_int i)" "one_word (show_bool b)"
  using show_nat_digits [of n] show_nat_digits [of "nat i"] show_nat_no_ws [of _ n] show_int_no_ws [of _ i]
  by (auto simp: one_word_def show_bool_def is_ws_def show_int_def)

text \<open>A field line is never taken for a header.\<close>

lemma header_needs_response:
  assumes "header_line (k @ sp @ v)" "\<forall>c\<in>set k. \<not> is_ws c" "\<forall>c\<in>set sp. is_ws c" "\<forall>c\<in>set v. \<not> is_ws c"
  shows "suffix ''RESPONSE'' k"
proof -
  from assms(1) obtain a b where t: "k @ sp @ v = a @ ''RESPONSE MANAGEMENT'' @ b" (is "?t = ?u")
    by (auto simp: header_line_def contains_sublist sublist_def)
  define n where "n = length a"
  have c: "?t ! (n + 8) = CHR '' ''" "?t ! (n + 7) = CHR ''E''" "n + 8 < length ?t"
    unfolding t by (simp_all add: n_def nth_append)
  have w: "is_ws CHR '' ''" "\<not> is_ws CHR ''E''" by (simp_all add: is_ws_def)
  have mem: "i < length xs \<Longrightarrow> xs ! i = x \<Longrightarrow> x \<in> set xs" for i and x :: char and xs by auto
  have "\<not> n + 8 < length k"
  proof
    assume h: "n + 8 < length k"
    then have "k ! (n + 8) = CHR '' ''" using c(1) by (simp add: nth_append)
    with w(1) assms(2) mem [OF h] show False by blast
  qed
  moreover have sp: "n + 8 < length k + length sp"
  proof (rule ccontr)
    assume h: "\<not> n + 8 < length k + length sp"
    then have "\<not> n + 8 - length k < length sp" "\<not> n + 8 < length k" by simp_all
    with c(1,3) h have "v ! (n + 8 - length k - length sp) = CHR '' ''"
        "n + 8 - length k - length sp < length v"
      unfolding nth_append by (simp_all only: if_False) simp
    with w(1) assms(4) mem [of _ v "CHR '' ''"] show False by blast
  qed
  moreover have "n + 7 < length k"
  proof (rule ccontr)
    assume h: "\<not> n + 7 < length k"
    then have "sp ! (n + 7 - length k) = CHR ''E''" "n + 7 - length k < length sp"
      using c(2) sp by (auto simp: nth_append split: if_splits)
    with w(2) assms(3) mem [of _ sp "CHR ''E''"] show False by blast
  qed
  ultimately have "length k = length (a @ ''RESPONSE'')" by (simp add: n_def)
  then have "k = a @ ''RESPONSE''"
    using arg_cong [OF t, of "take (length k)"] by simp
  then show ?thesis by (simp add: suffix_def)
qed

definition column :: "string \<times> string \<Rightarrow> string" where
  "column f = fst f @ CHR '' '' # replicate (26 - length (fst f)) CHR '' '' @ snd f"

definition good_key :: "string \<Rightarrow> bool" where
  "good_key k \<longleftrightarrow> one_word k \<and> \<not> suffix ''RESPONSE'' k \<and> 2 \<le> length k \<and> take 2 k \<noteq> ''se''"

definition good_field :: "string \<times> string \<Rightarrow> bool" where
  "good_field f \<longleftrightarrow> good_key (fst f) \<and> one_word (snd f)"

lemma trim_field_line: "good_field f \<Longrightarrow> trim (field_line f) = column f"
  using trim_pad [of "[CHR 0x09, CHR 0x09]" "[]" "column f"]
  by (auto simp: field_line_def column_def good_field_def good_key_def one_word_def trimmed_def hd_append)

lemma column_plain:
  assumes "good_field f"
  shows "relevant (column f)" "\<not> header_line (column f)"
    "split_once_ws (column f) = Some (fst f, replicate (26 - length (fst f)) CHR '' '' @ snd f)"
    "trim (replicate (26 - length (fst f)) CHR '' '' @ snd f) = snd f"
proof -
  obtain k v where f: "f = (k, v)" by (rule prod.exhaust)
  with assms have k: "one_word k" "\<not> suffix ''RESPONSE'' k" "2 \<le> length k" "take 2 k \<noteq> ''se''"
    and v: "one_word v" by (simp_all add: good_field_def good_key_def)
  have "\<not> prefix ''sending:'' (column f)"
  proof
    assume "prefix ''sending:'' (column f)"
    then have "take 2 (column f) = ''se''" by (auto simp: prefix_def)
    with k(3,4) show False by (simp add: f column_def)
  qed
  then show "relevant (column f)" using k(3) by (auto simp: relevant_def f column_def)
  show "\<not> header_line (column f)"
    using header_needs_response [of k "CHR '' '' # replicate (26 - length k) CHR '' ''" v] k v
    by (auto simp: f column_def one_word_def)
  show "split_once_ws (column f) = Some (fst f, replicate (26 - length (fst f)) CHR '' '' @ snd f)"
    unfolding column_def by (rule split_once_ws_pad) (use k in \<open>auto simp: f one_word_def\<close>)
  show "trim (replicate (26 - length (fst f)) CHR '' '' @ snd f) = snd f"
    using trim_pad_both [of "replicate (26 - length k) CHR '' ''" "[]" v] v by (simp add: f one_word_def)
qed

lemma to_map_columns: "list_all good_field fs \<Longrightarrow> to_map (map column fs) = map_of (rev fs)"
proof (induction fs rule: rev_induct)
  case (snoc f fs)
  then show ?case
    using column_plain [of f] by (cases f) (simp add: to_map_def)
qed (simp add: to_map_def)

definition good_port :: "string \<Rightarrow> bool" where
  "good_port port \<longleftrightarrow> one_word port \<and> hd port \<noteq> CHR ''s''"

definition header_text :: "string \<Rightarrow> string \<Rightarrow> string" where
  "header_text port name = port @ '' seq 0 RESPONSE MANAGEMENT '' @ name"

lemma header_text:
  assumes "good_port port" "one_word name"
  shows "trim (CHR 0x09 # port @ '' seq 0 RESPONSE MANAGEMENT '' @ name @ '' '') = header_text port name"
    "relevant (header_text port name)" "header_line (header_text port name)"
    "last (split_whitespace (header_text port name)) = name"
    "\<not> relevant (trim (''sending: GET '' @ name))"
proof -
  show "trim (CHR 0x09 # port @ '' seq 0 RESPONSE MANAGEMENT '' @ name @ '' '') = header_text port name"
    using trim_pad [of "[CHR 0x09]" "'' ''" "header_text port name"] assms
    by (simp add: header_text_def trimmed_def good_port_def one_word_def hd_append)
  show "relevant (header_text port name)"
    using assms by (cases port) (auto simp: relevant_def header_text_def good_port_def one_word_def)
  have "header_text port name = (port @ '' seq 0 '') @ ''RESPONSE MANAGEMENT'' @ ('' '' @ name)"
    by (simp add: header_text_def)
  then show "header_line (header_text port name)"
    unfolding header_line_def contains_sublist by (metis sublist_appendI)
  show "last (split_whitespace (header_text port name)) = name"
    using split_whitespace_append_word [of name "port @ '' seq 0 RESPONSE MANAGEMENT''"] assms(2)
    by (simp add: header_text_def one_word_def)
  have "trim (''sending: GET '' @ name) = ''sending: GET '' @ name"
    using assms(2) by (intro trim_id) (auto simp: trimmed_def one_word_def is_ws_def)
  then show "\<not> relevant (trim (''sending: GET '' @ name))" by (simp add: relevant_def)
qed

lemma block_text_relevant:
  assumes "good_port port" "one_word name" "list_all good_field fs"
  shows "filter relevant (map trim (block_text port name fs)) = header_text port name # map column fs"
proof -
  have "map (trim \<circ> field_line) fs = map column fs"
    using assms(3) by (auto simp: list_all_iff trim_field_line)
  moreover have "filter relevant (map column fs) = map column fs"
    using assms(3) column_plain(1) by (auto simp: filter_id_conv list_all_iff)
  ultimately have "filter relevant (map (trim \<circ> field_line) fs) = map column fs" by (simp only:)
  with header_text [OF assms(1,2)] show ?thesis by (simp add: block_text_def)
qed

lemma ref_blocks_block:
  assumes "good_port port" "one_word name" "list_all good_field fs" "rest = [] \<or> header_line (hd rest)"
  shows "ref_blocks (header_text port name # map column fs @ rest) = (name, map column fs) # ref_blocks rest"
proof -
  have plain: "\<forall>t\<in>set (map column fs). \<not> header_line t"
    using assms(3) column_plain(2) by (auto simp: list_all_iff)
  then have "takeWhile (\<lambda>t. \<not> header_line t) (map column fs @ rest) =
      map column fs @ takeWhile (\<lambda>t. \<not> header_line t) rest"
    by (intro takeWhile_append2) blast
  then have "takeWhile (\<lambda>t. \<not> header_line t) (map column fs @ rest) = map column fs"
    using assms(4) by (cases rest) (simp_all add: takeWhile_append2)
  moreover have "ref_blocks (ts @ rest) = ref_blocks rest" if "\<forall>t\<in>set ts. \<not> header_line t" for ts
    using that by (induction ts) (simp_all add: ref_blocks_Cons)
  ultimately show ?thesis
    using plain header_text(3,4) [OF assms(1,2)] by (simp add: ref_blocks_Cons)
qed

lemma parse_shown:
  "in_i64 i \<Longrightarrow> parse_i64 (show_int i) = Some i" "in_i128 i \<Longrightarrow> parse_i128 (show_int i) = Some i"
  "in_i8 i \<Longrightarrow> parse_i8 (show_int i) = Some i" "parse_bool (show_bool b) = Some b"
  "parse_u8 (show_nat (unat x)) = Some x" "parse_u32 (show_nat (unat y)) = Some y"
proof -
  have "parse_unsigned 255 (show_nat (unat x)) = Some (unat x)"
    using unat_byte_lt [of x] by (intro parse_unsigned_show) simp
  then show "parse_u8 (show_nat (unat x)) = Some x" by (simp add: parse_u8_def)
  have "parse_unsigned 4294967295 (show_nat (unat y)) = Some (unat y)"
    using unat_u32_lt [of y] by (intro parse_unsigned_show) simp
  then show "parse_u32 (show_nat (unat y)) = Some y" by (simp add: parse_u32_def)
qed (simp_all add: parse_i64_def parse_i128_def parse_i8_def in_i64_def in_i128_def in_i8_def
    parse_signed_show parse_bool_def show_bool_def)

lemma good_keys:
  "good_key ''master_offset''" "good_key ''ingress_time''" "good_key ''cumulativeScaledRateOffset''"
  "good_key ''gmPresent''" "good_key ''gmIdentity''" "good_key ''portIdentity''" "good_key ''portState''"
  "good_key ''logMinDelayReqInterval''" "good_key ''peerMeanPathDelay''" "good_key ''logAnnounceInterval''"
  "good_key ''announceReceiptTimeout''" "good_key ''logSyncInterval''" "good_key ''delayMechanism''"
  "good_key ''logMinPdelayReqInterval''" "good_key ''versionNumber''" "good_key ''stepsRemoved''"
  "good_key ''offsetFromMaster''" "good_key ''meanPathDelay''"
  by (simp_all add: good_key_def one_word_def is_ws_def suffix_def
      append_eq_Cons_conv Cons_eq_append_conv)

lemma time_block:
  assumes "in_i64 (master_offset_ns t)" "in_i128 (ingress_time t)" "one_word (gm_identity t)"
    and "one_word rate" "parse_f64 rate = Some (cumulative_scaled_rate_offset t)"
  shows "list_all good_field (time_fields rate t)"
    "time_status_parse_block (map column (time_fields rate t)) = Ok t"
proof -
  show g: "list_all good_field (time_fields rate t)"
    using assms by (simp add: time_fields_def good_field_def good_keys)
  show "time_status_parse_block (map column (time_fields rate t)) = Ok t"
    unfolding time_status_parse_block_def to_map_columns [OF g]
    using assms by (simp add: time_fields_def field_parsed_def field_str_def parse_shown)
qed

lemma current_block:
  assumes "one_word off" "parse_f64 off = Some (offset_from_master_ns c)"
    and "one_word delay" "parse_f64 delay = Some (mean_path_delay_ns c)"
  shows "list_all good_field (current_fields off delay c)"
    "current_data_parse_block (map column (current_fields off delay c)) = Ok c"
proof -
  show g: "list_all good_field (current_fields off delay c)"
    using assms by (simp add: current_fields_def good_field_def good_keys)
  show "current_data_parse_block (map column (current_fields off delay c)) = Ok c"
    unfolding current_data_parse_block_def to_map_columns [OF g]
    using assms by (simp add: current_fields_def field_parsed_def field_str_def parse_shown)
qed

lemma port_block:
  assumes "one_word (port_identity p)" "one_word (show_port_state (port_state p))"
    and "port_state_parse (show_port_state (port_state p)) = port_state p"
    and "in_i8 (log_min_delay_req_interval p)" "in_i64 (peer_mean_path_delay p)"
    and "in_i8 (log_announce_interval p)" "in_i8 (log_sync_interval p)"
    and "in_i8 (log_min_pdelay_req_interval p)"
  shows "list_all good_field (port_fields p)"
    "port_data_parse_block (map column (port_fields p)) = Ok p"
proof -
  show g: "list_all good_field (port_fields p)"
    using assms by (simp add: port_fields_def good_field_def good_keys)
  show "port_data_parse_block (map column (port_fields p)) = Ok p"
    unfolding port_data_parse_block_def to_map_columns [OF g]
    using assms by (simp add: port_fields_def field_parsed_def field_str_def parse_shown)
qed

section \<open>Errors\<close>

definition block_fails :: "string \<Rightarrow> string list \<Rightarrow> field_parse_error \<Rightarrow> bool" where
  "block_fails d l e \<longleftrightarrow>
     d = ''TIME_STATUS_NP'' \<and> time_status_parse_block l = Err e \<or>
     d = ''PORT_DATA_SET'' \<and> port_data_parse_block l = Err e \<or>
     d = ''CURRENT_DATA_SET'' \<and> current_data_parse_block l = Err e"

lemma field_not_Panic [simp]: "field_parsed parse m k \<noteq> Panic" "field_str m k \<noteq> Panic"
  by (simp_all add: field_parsed_def field_str_def rbind_eq_Panic)

lemma parse_block_not_Panic [simp]:
  "time_status_parse_block l \<noteq> Panic" "port_data_parse_block l \<noteq> Panic"
  "current_data_parse_block l \<noteq> Panic"
  by (simp_all add: time_status_parse_block_def port_data_parse_block_def current_data_parse_block_def
      rbind_eq_Panic Let_def)

lemma collect_Err:
  "collect name parse cur l = Err e \<longleftrightarrow>
   (if cur \<noteq> None then e = DuplicateDataset name
    else \<exists>x. parse l = Err x \<and> e = DatasetErr (DatasetParseError name x))"
  by (cases "parse l") (auto simp: collect_def)

lemma collect_not_Panic [simp]: "parse l \<noteq> Panic \<Longrightarrow> collect name parse cur l \<noteq> Panic"
  by (cases "parse l") (simp_all add: collect_def)

lemma pmc_loop_not_Panic [simp]: "pmc_loop bs st \<noteq> Panic"
  by (induction bs arbitrary: st) (auto simp: rbind_eq_Panic split: if_splits)

definition error_cause ::
    "block list \<Rightarrow> (string \<Rightarrow> nat) \<Rightarrow> snapshot_parse_error \<Rightarrow> bool" where
  "error_cause bs seen e =
     (case e of
        MissingDataset d \<Rightarrow> False
      | DuplicateDataset d \<Rightarrow> 2 \<le> length (datasets d bs) + seen d
      | DatasetErr x \<Rightarrow> \<exists>l\<in>set (datasets (dpe_dataset x) bs). block_fails (dpe_dataset x) l (field_err x))"

lemma error_cause_later:
  assumes "error_cause bs seen e" "\<And>d. seen d \<le> seen' d + of_bool (fst b = d)"
  shows "error_cause (b # bs) seen' e"
proof (cases e)
  case (DuplicateDataset d)
  have "length (datasets d bs) + seen d \<le> length (datasets d (b # bs)) + seen' d"
    using assms(2) [of d] by (cases "fst b = d") simp_all
  then show ?thesis using assms(1) by (simp only: error_cause_def DuplicateDataset snapshot_parse_error.case)
qed (use assms(1) in \<open>auto simp: error_cause_def\<close>)

definition seen_of ::
    "time_status_np option \<Rightarrow> port_data_set option \<Rightarrow> current_data_set option \<Rightarrow> string \<Rightarrow> nat" where
  "seen_of ts pd cd d =
     (if d = ''TIME_STATUS_NP'' then of_bool (ts \<noteq> None)
      else if d = ''PORT_DATA_SET'' then of_bool (pd \<noteq> None)
      else if d = ''CURRENT_DATA_SET'' then of_bool (cd \<noteq> None) else 0)"

lemma arm_Err:
  assumes "rbind (collect name parse cur l) k = Err e"
  obtains r where "cur = None" "k r = Err e"
    | "cur \<noteq> None" "e = DuplicateDataset name"
    | x where "parse l = Err x" "e = DatasetErr (DatasetParseError name x)"
  using assms by (cases cur; cases "parse l") (auto simp: collect_def)

lemma pmc_loop_Err:
  "pmc_loop bs (ts, pd, cd) = Err e \<Longrightarrow> error_cause bs (seen_of ts pd cd) e"
proof (induction bs arbitrary: ts pd cd)
  case (Cons b bs)
  consider "fst b = ''TIME_STATUS_NP''" | "fst b = ''PORT_DATA_SET''" | "fst b = ''CURRENT_DATA_SET''"
    | "fst b \<noteq> ''TIME_STATUS_NP''" "fst b \<noteq> ''PORT_DATA_SET''" "fst b \<noteq> ''CURRENT_DATA_SET''" by blast
  then show ?case
  proof cases
    case 1
    from Cons.prems have "rbind (collect ''TIME_STATUS_NP'' time_status_parse_block ts (snd b)) (\<lambda>r. pmc_loop bs (r, pd, cd)) = Err e"
      by (simp add: 1)
    then consider r where "ts = None" "pmc_loop bs (r, pd, cd) = Err e"
      | "ts \<noteq> None" "e = DuplicateDataset ''TIME_STATUS_NP''"
      | x where "time_status_parse_block (snd b) = Err x" "e = DatasetErr (DatasetParseError ''TIME_STATUS_NP'' x)"
      by (rule arm_Err)
    then show ?thesis
    proof cases
      case 1
      then show ?thesis using \<open>fst b = _\<close> by (intro error_cause_later [OF Cons.IH]) (auto simp: seen_of_def)
    qed (use \<open>fst b = _\<close> in \<open>simp_all add: error_cause_def block_fails_def seen_of_def\<close>)
  next
    case 2
    from Cons.prems have "rbind (collect ''PORT_DATA_SET'' port_data_parse_block pd (snd b)) (\<lambda>r. pmc_loop bs (ts, r, cd)) = Err e"
      by (simp add: 2)
    then consider r where "pd = None" "pmc_loop bs (ts, r, cd) = Err e"
      | "pd \<noteq> None" "e = DuplicateDataset ''PORT_DATA_SET''"
      | x where "port_data_parse_block (snd b) = Err x" "e = DatasetErr (DatasetParseError ''PORT_DATA_SET'' x)"
      by (rule arm_Err)
    then show ?thesis
    proof cases
      case 1
      then show ?thesis using \<open>fst b = _\<close> by (intro error_cause_later [OF Cons.IH]) (auto simp: seen_of_def)
    qed (use \<open>fst b = _\<close> in \<open>simp_all add: error_cause_def block_fails_def seen_of_def\<close>)
  next
    case 3
    from Cons.prems have "rbind (collect ''CURRENT_DATA_SET'' current_data_parse_block cd (snd b)) (\<lambda>r. pmc_loop bs (ts, pd, r)) = Err e"
      by (simp add: 3)
    then consider r where "cd = None" "pmc_loop bs (ts, pd, r) = Err e"
      | "cd \<noteq> None" "e = DuplicateDataset ''CURRENT_DATA_SET''"
      | x where "current_data_parse_block (snd b) = Err x" "e = DatasetErr (DatasetParseError ''CURRENT_DATA_SET'' x)"
      by (rule arm_Err)
    then show ?thesis
    proof cases
      case 1
      then show ?thesis using \<open>fst b = _\<close> by (intro error_cause_later [OF Cons.IH]) (auto simp: seen_of_def)
    qed (use \<open>fst b = _\<close> in \<open>simp_all add: error_cause_def block_fails_def seen_of_def\<close>)
  next
    case 4
    with Cons.prems have "pmc_loop bs (ts, pd, cd) = Err e" by simp
    from Cons.IH [OF this] show ?thesis by (rule error_cause_later) simp
  qed
qed simp

section \<open>Properties\<close>

lemma parse_pmc_text:
  assumes "snapshot_ok s" "good_port port"
    and "one_word rate" "parse_f64 rate = Some (cumulative_scaled_rate_offset (time_status s))"
    and "one_word off" "parse_f64 off = Some (offset_from_master_ns (current_data s))"
    and "one_word delay" "parse_f64 delay = Some (mean_path_delay_ns (current_data s))"
  shows "parse_pmc_output (pmc_text port rate off delay s) = Ok s"
proof -
  note ok = assms(1) [unfolded snapshot_ok_def]
  note t = time_block [of "time_status s" rate] and p = port_block [of "port_data s"]
    and c = current_block [OF assms(5-8)]
  let ?ls = "block_text port ''TIME_STATUS_NP'' (time_fields rate (time_status s)) @
      block_text port ''PORT_DATA_SET'' (port_fields (port_data s)) @
      block_text port ''CURRENT_DATA_SET'' (current_fields off delay (current_data s))"
  have names: "one_word ''TIME_STATUS_NP''" "one_word ''PORT_DATA_SET''" "one_word ''CURRENT_DATA_SET''"
    by (simp_all add: one_word_def is_ws_def)
  have blocks: "\<forall>l\<in>set (block_text port name fs). newline \<notin> set l"
    if "list_all good_field fs" "one_word name" for name fs
  proof -
    have "newline \<notin> set (field_line f)" if "good_field f" for f
      using that one_word_newline [of "fst f"] one_word_newline [of "snd f"]
      by (simp add: field_line_def good_field_def good_key_def)
    moreover have "newline \<notin> set port" "newline \<notin> set name"
      using assms(2) that(2) by (simp_all add: good_port_def one_word_newline)
    ultimately show ?thesis using that(1) by (simp add: block_text_def list_all_iff)
  qed
  have tg: "list_all good_field (time_fields rate (time_status s))"
      "time_status_parse_block (map column (time_fields rate (time_status s))) = Ok (time_status s)"
    using ok assms(3,4) by (blast intro: t)+
  have pg: "list_all good_field (port_fields (port_data s))"
      "port_data_parse_block (map column (port_fields (port_data s))) = Ok (port_data s)"
    using ok by (blast intro: p)+
  note T = blocks [OF tg(1) names(1)] block_text_relevant [OF assms(2) names(1) tg(1)]
    ref_blocks_block [OF assms(2) names(1) tg(1)]
  note P = blocks [OF pg(1) names(2)] block_text_relevant [OF assms(2) names(2) pg(1)]
    ref_blocks_block [OF assms(2) names(2) pg(1)] header_text(3) [OF assms(2) names(2)]
  note C = blocks [OF c(1) names(3)] block_text_relevant [OF assms(2) names(3) c(1)]
    ref_blocks_block [OF assms(2) names(3) c(1), of "[]"] header_text(3) [OF assms(2) names(3)]
  have "\<forall>l\<in>set ?ls. newline \<notin> set l" using T(1) P(1) C(1) by (simp only: set_append ball_Un)
  from str_lines_unlines [OF this] have "map trim (str_lines (pmc_text port rate off delay s)) = map trim ?ls"
    by (simp only: pmc_text_def list.map_comp comp_def trim_strip_cr)
  then have "parse_blocks (pmc_text port rate off delay s) =
      ref_blocks (header_text port ''TIME_STATUS_NP'' # map column (time_fields rate (time_status s)) @
      header_text port ''PORT_DATA_SET'' # map column (port_fields (port_data s)) @
      header_text port ''CURRENT_DATA_SET'' # map column (current_fields off delay (current_data s)) @ [])"
    by (simp only: parse_blocks_eq map_append filter_append T(2) P(2) C(2) append_Cons append_Nil2)
  also have "\<dots> = [(''TIME_STATUS_NP'', map column (time_fields rate (time_status s))),
       (''PORT_DATA_SET'', map column (port_fields (port_data s))),
       (''CURRENT_DATA_SET'', map column (current_fields off delay (current_data s)))]"
    by (simp add: T(3) P(3,4) C(3,4) [simplified])
  finally show ?thesis using tg(2) pg(2) c(2) by (simp add: parse_pmc_output_def collect_def)
qed

text \<open>The output \<^verbatim>\<open>pmc\<close> prints for a state is parsed as that state: every field of the three
  datasets, with the full range of its integer type, whatever the text its doubles were printed as.\<close>

theorem parse_pmc_print:
  assumes "snapshot_ok s" "good_port port"
    and "one_word rate" "parse_f64 rate = Some (cumulative_scaled_rate_offset (time_status s))"
    and "one_word off" "parse_f64 off = Some (offset_from_master_ns (current_data s))"
    and "one_word delay" "parse_f64 delay = Some (mean_path_delay_ns (current_data s))"
  shows "parse_pmc_output (pmc_text port rate off delay s) = Ok s"
  by (rule parse_pmc_text [OF assms])

definition sample_snapshot :: ptp_snapshot where
  "sample_snapshot =
     \<lparr>time_status = \<lparr>master_offset_ns = - 5, ingress_time = 1700000000000000000,
        cumulative_scaled_rate_offset = F64Finite False 0, gm_present = True,
        gm_identity = ''001122.fffe.334455''\<rparr>,
      port_data = \<lparr>port_identity = ''001122.fffe.334466-1'', port_state = Slave,
        log_min_delay_req_interval = 0, peer_mean_path_delay = 120, log_announce_interval = 1,
        announce_receipt_timeout = 3, log_sync_interval = - 3, delay_mechanism = 2,
        log_min_pdelay_req_interval = 0, version_number = 2\<rparr>,
      current_data = \<lparr>steps_removed = 1, offset_from_master_ns = F64Finite True 0,
        mean_path_delay_ns = F64Finite False 0\<rparr>\<rparr>"

lemma sample_snapshot_ok: "snapshot_ok sample_snapshot"
  by (simp add: snapshot_ok_def sample_snapshot_def in_i64_def in_i128_def in_i8_def one_word_def is_ws_def
      port_state_parse_def)

lemma parse_zero: "parse_f64 ''+0.0'' = Some (F64Finite False 0)" "parse_f64 ''-0'' = Some (F64Finite True 0)"
  by (simp_all add: parse_f64_def parse_decimal_def parse_exponent_def is_digit_def digits_val_def
      round_f64_def)

theorem parse_pmc_print_witness:
  "parse_pmc_output (pmc_text ''001122.fffe.334466-1'' ''+0.0'' ''-0'' ''+0.0'' sample_snapshot) =
    Ok sample_snapshot"
  by (rule parse_pmc_print [OF sample_snapshot_ok])
    (simp_all add: good_port_def one_word_def is_ws_def parse_zero sample_snapshot_def)

text \<open>C25: What is accepted: the parser returns a snapshot exactly when each of the three datasets occurs
  in exactly one response block, and the snapshot's parts are those blocks' values. Blocks of other
  datasets, echoed commands and blank lines play no role.\<close>

theorem parse_pmc_output_iff:
  "parse_pmc_output text = Ok s \<longleftrightarrow>
   (\<exists>t p c. datasets ''TIME_STATUS_NP'' (parse_blocks text) = [t] \<and>
     datasets ''PORT_DATA_SET'' (parse_blocks text) = [p] \<and>
     datasets ''CURRENT_DATA_SET'' (parse_blocks text) = [c] \<and>
     time_status_parse_block t = Ok (time_status s) \<and> port_data_parse_block p = Ok (port_data s) \<and>
     current_data_parse_block c = Ok (current_data s))" (is "_ \<longleftrightarrow> ?R")
proof -
  have "parse_pmc_output text = Ok s \<longleftrightarrow>
      pmc_loop (parse_blocks text) (None, None, None) =
        Ok (Some (time_status s), Some (port_data s), Some (current_data s))"
    by (cases s) (auto simp: parse_pmc_output_def)
  also have "\<dots> \<longleftrightarrow> ?R" by (auto simp: pmc_loop_Ok slot_def split: list.splits)
  finally show ?thesis .
qed

text \<open>C26: What is reported otherwise: a dataset as missing only when no block has it, as a duplicate
  only when two blocks do, and a field's error only when a block of the named dataset has exactly that
  error; there is no panic.\<close>

theorem parse_pmc_output_errors:
  "case parse_pmc_output text of
     Ok s \<Rightarrow> length (datasets ''TIME_STATUS_NP'' (parse_blocks text)) = 1
   | Err (MissingDataset d) \<Rightarrow>
       d \<in> {''TIME_STATUS_NP'', ''PORT_DATA_SET'', ''CURRENT_DATA_SET''} \<and> datasets d (parse_blocks text) = []
   | Err (DuplicateDataset d) \<Rightarrow> 2 \<le> length (datasets d (parse_blocks text))
   | Err (DatasetErr (DatasetParseError d e)) \<Rightarrow>
       \<exists>l\<in>set (datasets d (parse_blocks text)). block_fails d l e
   | Panic \<Rightarrow> False"
proof (cases "pmc_loop (parse_blocks text) (None, None, None)")
  case (Ok r)
  obtain ts pd cd where r: "r = (ts, pd, cd)" by (rule prod_cases3)
  from Ok show ?thesis
    unfolding r pmc_loop_Ok
    by (cases ts; cases pd; cases cd)
      (auto simp: parse_pmc_output_def r Ok slot_def split: list.splits)
next
  case (Err e)
  have "seen_of None None None = (\<lambda>_. 0)" by (simp add: seen_of_def fun_eq_iff)
  with pmc_loop_Err [OF Err] Err show ?thesis
    by (auto simp: parse_pmc_output_def error_cause_def split: snapshot_parse_error.splits dataset_parse_error.splits)
qed simp

text \<open>C27: The single pass over the lines, with its pending block, computes the grouping: a response block
  is a header line with the relevant lines up to the next header, named by the header's last word;
  what precedes the first header is dropped.\<close>

theorem parse_blocks_reference:
  "parse_blocks text = ref_blocks (filter relevant (map trim (str_lines text)))"
  by (rule parse_blocks_eq)

end
