(* ===== verification/Sys.thy ===== *)
theory Sys
  imports Prelude
begin

text \<open>
  Code that calls the operating system: a computation takes the state of the world it acts on and
  returns a result with the new state, which is kept also when the result is an error or a panic.
\<close>

type_synonym ('w, 'e, 'a) sys = "'w \<Rightarrow> ('e, 'a) res \<times> 'w"

definition sret :: "'a \<Rightarrow> ('w, 'e, 'a) sys" where
  "sret x w = (Ok x, w)"

definition slift :: "('e, 'a) res \<Rightarrow> ('w, 'e, 'a) sys" where
  "slift r w = (r, w)"

definition sbind :: "('w, 'e, 'a) sys \<Rightarrow> ('a \<Rightarrow> ('w, 'e, 'b) sys) \<Rightarrow> ('w, 'e, 'b) sys" where
  "sbind m k w =
     (case m w of (Ok x, w') \<Rightarrow> k x w' | (Err e, w') \<Rightarrow> (Err e, w') | (Panic, w') \<Rightarrow> (Panic, w'))"

definition smap_err :: "('e \<Rightarrow> 'f) \<Rightarrow> ('w, 'e, 'a) sys \<Rightarrow> ('w, 'f, 'a) sys" where
  "smap_err f m w = apfst (map_err f) (m w)"

text \<open>The result as a value: what a \<^verbatim>\<open>match\<close> on the call sees. A panic is not caught.\<close>

definition scatch :: "('w, 'e, 'a) sys \<Rightarrow> ('w, 'f, 'e + 'a) sys" where
  "scatch m w =
     (case m w of (Ok x, w') \<Rightarrow> (Ok (Inr x), w') | (Err e, w') \<Rightarrow> (Ok (Inl e), w') | (Panic, w') \<Rightarrow> (Panic, w'))"

primrec smapM :: "('a \<Rightarrow> ('w, 'e, 'b) sys) \<Rightarrow> 'a list \<Rightarrow> ('w, 'e, 'b list) sys" where
  "smapM f [] = sret []"
| "smapM f (x # xs) = sbind (f x) (\<lambda>y. sbind (smapM f xs) (\<lambda>ys. sret (y # ys)))"

lemma sret_apply [simp]: "sret x w = (Ok x, w)"
  by (simp add: sret_def)

lemma slift_apply [simp]: "slift r w = (r, w)"
  by (simp add: slift_def)

lemma smap_err_apply [simp]: "smap_err f m w = (map_err f (fst (m w)), snd (m w))"
  by (simp add: smap_err_def apfst_def map_prod_def split: prod.split)

lemma sbind_Ok [simp]: "m w = (Ok x, w') \<Longrightarrow> sbind m k w = k x w'"
  by (simp add: sbind_def)

lemma sbind_Err [simp]: "m w = (Err e, w') \<Longrightarrow> sbind m k w = (Err e, w')"
  by (simp add: sbind_def)

lemma sbind_Panic [simp]: "m w = (Panic, w') \<Longrightarrow> sbind m k w = (Panic, w')"
  by (simp add: sbind_def)

lemma sbind_eq_Ok:
  "sbind m k w = (Ok y, w2) \<longleftrightarrow> (\<exists>x w1. m w = (Ok x, w1) \<and> k x w1 = (Ok y, w2))"
  by (auto simp: sbind_def split: prod.splits res.splits)

lemma sbind_sret [simp]: "sbind (sret x) k = k x"
  by (rule ext) simp

lemma sbind_slift_Ok [simp]: "sbind (slift (Ok x)) k = k x"
  by (rule ext) simp

section \<open>Computations that keep a property of the state\<close>

definition keeps :: "('s \<Rightarrow> bool) \<Rightarrow> ('s, 'e, 'a) sys \<Rightarrow> bool" where
  "keeps I m \<longleftrightarrow> (\<forall>s. I s \<longrightarrow> I (snd (m s)))"

named_theorems keeps_intros

lemma keepsD: "keeps I m \<Longrightarrow> I s \<Longrightarrow> m s = (r, s') \<Longrightarrow> I s'"
  by (metis keeps_def snd_conv)

lemma keepsI: "(\<And>w r w'. m w = (r, w') \<Longrightarrow> I w \<Longrightarrow> I w') \<Longrightarrow> keeps I m"
  by (simp add: keeps_def) (metis prod.collapse)

lemma keeps_sbind [keeps_intros]: "keeps I m \<Longrightarrow> (\<And>x. keeps I (k x)) \<Longrightarrow> keeps I (sbind m k)"
  by (auto simp: keeps_def sbind_def split: prod.split res.split)

lemma keeps_slift [keeps_intros]: "keeps I (slift r)"
  by (simp add: keeps_def)

lemma keeps_sret [keeps_intros]: "keeps I (sret x)"
  by (simp add: keeps_def)

lemma keeps_smap_err [keeps_intros]: "keeps I m \<Longrightarrow> keeps I (smap_err f m)"
  by (simp add: keeps_def)

end
