(* ===== verification/PhcAbi.thy ===== *)
theory PhcAbi
  imports PtpTime "HOL-Library.Word"
begin

unbundle bit_operations_syntax

text \<open>
  \<^verbatim>\<open>src/ptp_phc/abi.rs\<close>, \<^verbatim>\<open>pin.rs\<close>, \<^verbatim>\<open>error.rs\<close> and the edge type of \<^verbatim>\<open>mod.rs\<close>: the structures
  exchanged with the kernel's PTP devices, and the types of the public interface made from them.
\<close>

section \<open>Kernel structures\<close>

record ptp_clock_caps =
  max_adj :: int
  n_alarm :: int
  n_ext_ts :: int
  n_per_out :: int
  pps :: int
  n_pins :: int
  caps_cross_timestamping :: int
  caps_adjust_phase :: int
  max_phase_adj :: int
  caps_rsv :: "int list"

type_synonym flags = u32

definition ENABLE_FEATURE :: flags where "ENABLE_FEATURE = push_bit 0 1"
definition RISING_EDGE :: flags where "RISING_EDGE = push_bit 1 1"
definition FALLING_EDGE :: flags where "FALLING_EDGE = push_bit 2 1"

record ptp_extts_request =
  extts_index :: u32
  extts_flags :: flags
  extts_rsv :: "u32 list"

record ptp_extts_event =
  event_t :: ptp_clock_time
  event_index :: u32
  event_flags :: flags
  event_rsv :: "u32 list"

definition PEROUT_ONE_SHOT :: flags where "PEROUT_ONE_SHOT = push_bit 0 1"
definition PEROUT_DUTY_CYCLE :: flags where "PEROUT_DUTY_CYCLE = push_bit 1 1"
definition PEROUT_PHASE :: flags where "PEROUT_PHASE = push_bit 2 1"

record ptp_perout_request =
  start_or_phase :: ptp_clock_time
  period :: ptp_clock_time
  perout_index :: u32
  perout_flags :: flags
  on_or_rsv :: ptp_clock_time

definition zero_time :: ptp_clock_time where
  "zero_time = \<lparr>abi_sec = 0, abi_nsec = 0, abi_reserved = 0\<rparr>"

definition perout_default :: ptp_perout_request where
  "perout_default = \<lparr>start_or_phase = zero_time, period = zero_time, perout_index = 0,
     perout_flags = 0, on_or_rsv = zero_time\<rparr>"

datatype ptp_pin_function = PtpPinFunction u32

definition PTP_PF_NONE :: ptp_pin_function where "PTP_PF_NONE = PtpPinFunction 0"
definition PTP_PF_EXTTS :: ptp_pin_function where "PTP_PF_EXTTS = PtpPinFunction 1"
definition PTP_PF_PEROUT :: ptp_pin_function where "PTP_PF_PEROUT = PtpPinFunction 2"
definition PTP_PF_PHYSYNC :: ptp_pin_function where "PTP_PF_PHYSYNC = PtpPinFunction 3"

record ptp_pin_desc =
  desc_name :: "byte list"
  desc_index :: u32
  desc_func :: ptp_pin_function
  desc_chan :: u32
  desc_rsv :: "u32 list"

definition pin_desc_default :: ptp_pin_desc where
  "pin_desc_default = \<lparr>desc_name = replicate 64 0, desc_index = 0, desc_func = PTP_PF_NONE,
     desc_chan = 0, desc_rsv = replicate 5 0\<rparr>"

section \<open>Pin names\<close>

text \<open>
  \<^verbatim>\<open>String::from_utf8_lossy\<close>: the code points of a text, with the replacement character for every
  maximal malformed sequence. A step gives one code point and the number of bytes it takes.
\<close>

definition replacement :: nat where "replacement = 0xFFFD"

definition is_cont :: "nat \<Rightarrow> bool" where
  "is_cont b \<longleftrightarrow> 0x80 \<le> b \<and> b \<le> 0xBF"

definition second_ok :: "nat \<Rightarrow> nat \<Rightarrow> bool" where
  "second_ok a b \<longleftrightarrow>
     (if a = 0xE0 then 0xA0 \<le> b \<and> b \<le> 0xBF else if a = 0xED then 0x80 \<le> b \<and> b \<le> 0x9F
      else if a = 0xF0 then 0x90 \<le> b \<and> b \<le> 0xBF else if a = 0xF4 then 0x80 \<le> b \<and> b \<le> 0x8F
      else is_cont b)"

definition byte_at :: "nat list \<Rightarrow> nat \<Rightarrow> nat" where
  "byte_at bs i = (if i < length bs then bs ! i else 0)"

definition utf8_step :: "nat list \<Rightarrow> nat \<times> nat" where
  "utf8_step bs =
     (let a = byte_at bs 0; b = byte_at bs 1; c = byte_at bs 2; d = byte_at bs 3 in
      if a < 0x80 then (a, 1)
      else if 0xC2 \<le> a \<and> a \<le> 0xDF then
        (if is_cont b then (a mod 32 * 64 + b mod 64, 2) else (replacement, 1))
      else if 0xE0 \<le> a \<and> a \<le> 0xEF then
        (if \<not> second_ok a b then (replacement, 1) else if \<not> is_cont c then (replacement, 2)
         else (a mod 16 * 4096 + b mod 64 * 64 + c mod 64, 3))
      else if 0xF0 \<le> a \<and> a \<le> 0xF4 then
        (if \<not> second_ok a b then (replacement, 1) else if \<not> is_cont c then (replacement, 2)
         else if \<not> is_cont d then (replacement, 3)
         else (a mod 8 * 262144 + b mod 64 * 4096 + c mod 64 * 64 + d mod 64, 4))
      else (replacement, 1))"

lemma utf8_step_pos: "0 < snd (utf8_step bs)"
  by (simp add: utf8_step_def Let_def)

function utf8_lossy :: "nat list \<Rightarrow> nat list" where
  "utf8_lossy bs =
     (if bs = [] then [] else case utf8_step bs of (c, n) \<Rightarrow> c # utf8_lossy (drop n bs))"
  by pat_completeness auto

termination
proof (relation "measure length", simp, goal_cases)
  case (1 bs c n)
  then have "0 < n" using utf8_step_pos [of bs] by (metis snd_conv)
  with 1 show ?case by simp
qed

declare utf8_lossy.simps [simp del]

definition pin_name :: "ptp_pin_desc \<Rightarrow> nat list" where
  "pin_name d = utf8_lossy (map unat (takeWhile (\<lambda>b. b \<noteq> 0) (desc_name d)))"

section \<open>Pins\<close>

datatype pin_function =
    NoFunction | ExternalTimestamp | PeriodicOutput | PhysicalSync | UnknownFunction u32

primrec pin_function_to_abi :: "pin_function \<Rightarrow> ptp_pin_function" where
  "pin_function_to_abi NoFunction = PTP_PF_NONE"
| "pin_function_to_abi ExternalTimestamp = PTP_PF_EXTTS"
| "pin_function_to_abi PeriodicOutput = PTP_PF_PEROUT"
| "pin_function_to_abi PhysicalSync = PTP_PF_PHYSYNC"
| "pin_function_to_abi (UnknownFunction raw) = PtpPinFunction raw"

definition pin_function_from_abi :: "ptp_pin_function \<Rightarrow> pin_function" where
  "pin_function_from_abi raw =
     (if raw = PTP_PF_NONE then NoFunction
      else if raw = PTP_PF_EXTTS then ExternalTimestamp
      else if raw = PTP_PF_PEROUT then PeriodicOutput
      else if raw = PTP_PF_PHYSYNC then PhysicalSync
      else case raw of PtpPinFunction other \<Rightarrow> UnknownFunction other)"

record pin =
  pin_label :: "nat list"
  pin_index :: u32
  pin_func :: pin_function
  pin_channel :: u32

definition pin_from_desc :: "ptp_pin_desc \<Rightarrow> pin" where
  "pin_from_desc d = \<lparr>pin_label = pin_name d, pin_index = desc_index d,
     pin_func = pin_function_from_abi (desc_func d), pin_channel = desc_chan d\<rparr>"

lemma pin_function_abi_roundtrip [simp]: "pin_function_to_abi (pin_function_from_abi raw) = raw"
  by (cases raw)
    (simp add: pin_function_from_abi_def PTP_PF_NONE_def PTP_PF_EXTTS_def PTP_PF_PEROUT_def PTP_PF_PHYSYNC_def)

lemma pin_function_from_to_abi:
  "pin_function_from_abi (pin_function_to_abi f) = f \<longleftrightarrow>
   f \<notin> {UnknownFunction 0, UnknownFunction 1, UnknownFunction 2, UnknownFunction 3}"
  by (cases f)
    (auto simp: pin_function_from_abi_def PTP_PF_NONE_def PTP_PF_EXTTS_def PTP_PF_PEROUT_def PTP_PF_PHYSYNC_def)

text \<open>A 7-bit name is read as it is.\<close>

lemma utf8_lossy_ascii: "\<forall>b\<in>set bs. b < 0x80 \<Longrightarrow> utf8_lossy bs = bs"
proof (induction bs)
  case (Cons b bs)
  then have "utf8_step (b # bs) = (b, 1)" by (simp add: utf8_step_def byte_at_def)
  with Cons show ?case by (subst utf8_lossy.simps) simp
qed (simp add: utf8_lossy.simps)

section \<open>The public interface\<close>

type_synonym errno = nat

datatype phc_error =
    OpenDevice string io_error
  | Ioctl string errno
  | ClockGettime io_error
  | ReadExternalTimestamp io_error
  | PhcDurationTooLarge
  | IntegerConversion

datatype edge = Rising | Falling | BothEdges

record capabilities =
  max_adjustment_ppb :: int
  programmable_alarms :: int
  external_timestamp_channels :: int
  periodic_output_channels :: int
  pulse_per_second :: bool
  programmable_pins :: int
  cross_timestamping :: bool
  adjust_phase :: bool
  max_phase_adjustment_ns :: int

definition capabilities_from :: "ptp_clock_caps \<Rightarrow> capabilities" where
  "capabilities_from c =
     \<lparr>max_adjustment_ppb = max_adj c, programmable_alarms = n_alarm c,
      external_timestamp_channels = n_ext_ts c, periodic_output_channels = n_per_out c,
      pulse_per_second = (pps c \<noteq> 0), programmable_pins = n_pins c,
      cross_timestamping = (caps_cross_timestamping c \<noteq> 0), adjust_phase = (caps_adjust_phase c \<noteq> 0),
      max_phase_adjustment_ns = max_phase_adj c\<rparr>"

record external_timestamp_event =
  ets_timestamp :: ptp_time
  ets_channel :: u32
  ets_flags :: flags

end
