(* ===== verification/PhcClock.thy ===== *)
theory PhcClock
  imports Sys PhcAbi RustStr
begin

unbundle bit_operations_syntax

text \<open>
  \<^verbatim>\<open>src/ptp_phc/clock.rs\<close> and \<^verbatim>\<open>device.rs\<close>: handles to PTP clocks and their operations. The kernel is
  a record of the system calls the code makes, over a state \<open>'w\<close> of the machine; every operation passes
  the descriptor of the opened device.
\<close>

section \<open>System calls\<close>

type_synonym fd = u32
type_synonym timespec = "int \<times> int"

record 'w kernel =
  sys_open :: "string \<Rightarrow> ('w, io_error, fd) sys"
  sys_read_exact :: "fd \<Rightarrow> nat \<Rightarrow> ('w, io_error, byte list) sys"
  sys_clock_gettime :: "u32 \<Rightarrow> ('w, io_error, timespec) sys"
  ptp_clock_getcaps :: "fd \<Rightarrow> ptp_clock_caps \<Rightarrow> ('w, errno, ptp_clock_caps) sys"
  ptp_pin_getfunc :: "fd \<Rightarrow> ptp_pin_desc \<Rightarrow> ('w, errno, ptp_pin_desc) sys"
  ptp_pin_setfunc :: "fd \<Rightarrow> ptp_pin_desc \<Rightarrow> ('w, errno, unit) sys"
  ptp_extts_request :: "fd \<Rightarrow> ptp_extts_request \<Rightarrow> ('w, errno, unit) sys"
  ptp_extts_request2 :: "fd \<Rightarrow> ptp_extts_request \<Rightarrow> ('w, errno, unit) sys"
  ptp_perout_request :: "fd \<Rightarrow> ptp_perout_request \<Rightarrow> ('w, errno, unit) sys"
  ptp_perout_request2 :: "fd \<Rightarrow> ptp_perout_request \<Rightarrow> ('w, errno, unit) sys"

definition caps_default :: ptp_clock_caps where
  "caps_default = \<lparr>max_adj = 0, n_alarm = 0, n_ext_ts = 0, n_per_out = 0, pps = 0, n_pins = 0,
     caps_cross_timestamping = 0, caps_adjust_phase = 0, max_phase_adj = 0, caps_rsv = replicate 11 0\<rparr>"

section \<open>Hardware clocks\<close>

record ptp_clock_hardware =
  hw_device :: fd
  hw_path :: string

definition hardware_open :: "'w kernel \<Rightarrow> string \<Rightarrow> ('w, phc_error, ptp_clock_hardware) sys" where
  "hardware_open K path =
     sbind (smap_err (OpenDevice path) (sys_open K path)) (\<lambda>device.
     sret \<lparr>hw_device = device, hw_path = path\<rparr>)"

definition raw_capabilities :: "'w kernel \<Rightarrow> ptp_clock_hardware \<Rightarrow> ('w, phc_error, ptp_clock_caps) sys" where
  "raw_capabilities K c =
     smap_err (Ioctl ''PTP_CLOCK_GETCAPS'') (ptp_clock_getcaps K (hw_device c) caps_default)"

definition raw_pin :: "'w kernel \<Rightarrow> ptp_clock_hardware \<Rightarrow> u32 \<Rightarrow> ('w, phc_error, ptp_pin_desc) sys" where
  "raw_pin K c index =
     smap_err (Ioctl ''PTP_PIN_GETFUNC'')
       (ptp_pin_getfunc K (hw_device c) (pin_desc_default\<lparr>desc_index := index\<rparr>))"

definition hw_capabilities :: "'w kernel \<Rightarrow> ptp_clock_hardware \<Rightarrow> ('w, phc_error, capabilities) sys" where
  "hw_capabilities K c = sbind (raw_capabilities K c) (\<lambda>caps. sret (capabilities_from caps))"

definition hw_pin :: "'w kernel \<Rightarrow> ptp_clock_hardware \<Rightarrow> u32 \<Rightarrow> ('w, phc_error, pin) sys" where
  "hw_pin K c index = sbind (raw_pin K c index) (\<lambda>desc. sret (pin_from_desc desc))"

definition hw_pins :: "'w kernel \<Rightarrow> ptp_clock_hardware \<Rightarrow> ('w, phc_error, pin list) sys" where
  "hw_pins K c =
     sbind (raw_capabilities K c) (\<lambda>caps.
     sbind (slift (ensure (0 \<le> n_pins caps) IntegerConversion)) (\<lambda>_.
     smapM (\<lambda>index. hw_pin K c (of_nat index)) [0..<nat (n_pins caps)]))"

definition set_pin_function ::
    "'w kernel \<Rightarrow> ptp_clock_hardware \<Rightarrow> u32 \<Rightarrow> pin_function \<Rightarrow> u32 \<Rightarrow> ('w, phc_error, unit) sys" where
  "set_pin_function K c index f channel =
     smap_err (Ioctl ''PTP_PIN_SETFUNC'') (ptp_pin_setfunc K (hw_device c)
       (pin_desc_default\<lparr>desc_index := index, desc_func := pin_function_to_abi f, desc_chan := channel\<rparr>))"

text \<open>The request is repeated with the older call when the newer one fails, whose error is dropped.\<close>

definition perout_request :: "'w kernel \<Rightarrow> ptp_clock_hardware \<Rightarrow> ptp_perout_request \<Rightarrow> ('w, phc_error, unit) sys" where
  "perout_request K c request =
     sbind (scatch (ptp_perout_request2 K (hw_device c) request)) (\<lambda>new_result.
     case new_result of
       Inr _ \<Rightarrow> sret ()
     | Inl _ \<Rightarrow> smap_err (Ioctl ''PTP_PEROUT_REQUEST'') (ptp_perout_request K (hw_device c) request))"

definition extts_request :: "'w kernel \<Rightarrow> ptp_clock_hardware \<Rightarrow> ptp_extts_request \<Rightarrow> ('w, phc_error, unit) sys" where
  "extts_request K c request =
     sbind (scatch (ptp_extts_request2 K (hw_device c) request)) (\<lambda>new_result.
     case new_result of
       Inr _ \<Rightarrow> sret ()
     | Inl _ \<Rightarrow> smap_err (Ioctl ''PTP_EXTTS_REQUEST'') (ptp_extts_request K (hw_device c) request))"

text \<open>\<^verbatim>\<open>((!fd) << 3) | CLOCKFD\<close>\<close>

definition clock_id_from_fd :: "fd \<Rightarrow> u32" where
  "clock_id_from_fd d = push_bit 3 (NOT d) OR 3"

definition CLOCK_REALTIME :: u32 where
  "CLOCK_REALTIME = 0"

definition hw_clock_gettime :: "'w kernel \<Rightarrow> ptp_clock_hardware \<Rightarrow> ('w, phc_error, timespec) sys" where
  "hw_clock_gettime K c = smap_err ClockGettime (sys_clock_gettime K (clock_id_from_fd (hw_device c)))"

text \<open>\<^verbatim>\<open>now.tv_sec + 2\<close> in 64 bits.\<close>

definition add_i64 :: "bool \<Rightarrow> int \<Rightarrow> int \<Rightarrow> ('e, int) res" where
  "add_i64 dbg a b =
     (if in_i64 (a + b) then Ok (a + b) else if dbg then Panic else Ok (a + b - sgn b * 2 ^ 64))"

definition perout_start ::
    "bool \<Rightarrow> 'w kernel \<Rightarrow> ptp_clock_hardware \<Rightarrow> ptp_perout_request \<Rightarrow> ('w, phc_error, ptp_perout_request) sys" where
  "perout_start dbg K c request =
     sbind (hw_clock_gettime K c) (\<lambda>now.
     sbind (slift (add_i64 dbg (fst now) 2)) (\<lambda>sec.
     sret (request\<lparr>start_or_phase := \<lparr>abi_sec = sec, abi_nsec = 0, abi_reserved = 0\<rparr>\<rparr>)))"

definition enable_periodic_output ::
    "bool \<Rightarrow> 'w kernel \<Rightarrow> ptp_clock_hardware \<Rightarrow> u32 \<Rightarrow> duration \<Rightarrow> duration option \<Rightarrow> ('w, phc_error, unit) sys" where
  "enable_periodic_output dbg K c channel period_d phase =
     sbind (slift (map_err (\<lambda>_. PhcDurationTooLarge) (ptp_try_from_duration period_d))) (\<lambda>p.
     let request = perout_default\<lparr>period := into_abi p, perout_index := channel\<rparr> in
     sbind (case phase of
         Some phase_d \<Rightarrow>
           sbind (slift (map_err (\<lambda>_. PhcDurationTooLarge) (ptp_try_from_duration phase_d))) (\<lambda>ph.
           sret (request\<lparr>start_or_phase := into_abi ph, perout_flags := PEROUT_PHASE\<rparr>))
       | None \<Rightarrow> perout_start dbg K c request) (\<lambda>request.
     perout_request K c request))"

definition enable_periodic_output_ns ::
    "bool \<Rightarrow> 'w kernel \<Rightarrow> ptp_clock_hardware \<Rightarrow> u32 \<Rightarrow> int \<Rightarrow> int option \<Rightarrow> ('w, phc_error, unit) sys" where
  "enable_periodic_output_ns dbg K c channel period_ns phase_ns =
     (let request = perout_default\<lparr>period := into_abi (from_ns period_ns), perout_index := channel\<rparr> in
      sbind (case phase_ns of
          Some ph \<Rightarrow>
            sret (request\<lparr>start_or_phase := into_abi (from_ns ph), perout_flags := PEROUT_PHASE\<rparr>)
        | None \<Rightarrow> perout_start dbg K c request) (\<lambda>request.
      perout_request K c request))"

definition disable_periodic_output :: "'w kernel \<Rightarrow> ptp_clock_hardware \<Rightarrow> u32 \<Rightarrow> ('w, phc_error, unit) sys" where
  "disable_periodic_output K c channel = perout_request K c (perout_default\<lparr>perout_index := channel\<rparr>)"

definition edge_flags :: "edge \<Rightarrow> flags" where
  "edge_flags e =
     (case e of Rising \<Rightarrow> RISING_EDGE | Falling \<Rightarrow> FALLING_EDGE | BothEdges \<Rightarrow> RISING_EDGE OR FALLING_EDGE)"

definition enable_external_timestamping ::
    "'w kernel \<Rightarrow> ptp_clock_hardware \<Rightarrow> u32 \<Rightarrow> edge \<Rightarrow> ('w, phc_error, unit) sys" where
  "enable_external_timestamping K c channel e =
     extts_request K c \<lparr>extts_index = channel, extts_flags = ENABLE_FEATURE OR edge_flags e,
       extts_rsv = [0, 0]\<rparr>"

definition disable_external_timestamping :: "'w kernel \<Rightarrow> ptp_clock_hardware \<Rightarrow> u32 \<Rightarrow> ('w, phc_error, unit) sys" where
  "disable_external_timestamping K c channel =
     extts_request K c \<lparr>extts_index = channel, extts_flags = 0, extts_rsv = [0, 0]\<rparr>"

section \<open>Events\<close>

text \<open>
  The 32 bytes of \<^verbatim>\<open>struct ptp_extts_event\<close> in its C layout on a little-endian machine: the seconds, the
  nanoseconds, a reserved word, the channel, the flags, two reserved words.
\<close>

definition le_val :: "byte list \<Rightarrow> nat" where
  "le_val bs = foldr (\<lambda>b n. unat b + 256 * n) bs 0"

definition le_u32_at :: "byte list \<Rightarrow> nat \<Rightarrow> u32" where
  "le_u32_at bs i = of_nat (le_val (take 4 (drop i bs)))"

definition le_i64_at :: "byte list \<Rightarrow> nat \<Rightarrow> int" where
  "le_i64_at bs i = sint (of_nat (le_val (take 8 (drop i bs))) :: 64 word)"

definition event_of_bytes :: "byte list \<Rightarrow> ptp_extts_event" where
  "event_of_bytes bs =
     \<lparr>event_t = \<lparr>abi_sec = le_i64_at bs 0, abi_nsec = le_u32_at bs 8, abi_reserved = le_u32_at bs 12\<rparr>,
      event_index = le_u32_at bs 16, event_flags = le_u32_at bs 20,
      event_rsv = [le_u32_at bs 24, le_u32_at bs 28]\<rparr>"

definition read_external_timestamp_event ::
    "bool \<Rightarrow> 'w kernel \<Rightarrow> ptp_clock_hardware \<Rightarrow> ('w, phc_error, external_timestamp_event) sys" where
  "read_external_timestamp_event dbg K c =
     sbind (smap_err ReadExternalTimestamp (sys_read_exact K (hw_device c) 32)) (\<lambda>event_bytes.
     let event = event_of_bytes event_bytes in
     sbind (slift (from_abi dbg (event_t event))) (\<lambda>t.
     sret \<lparr>ets_timestamp = t, ets_channel = event_index event, ets_flags = event_flags event\<rparr>))"

section \<open>Time sources\<close>

datatype ptp_clock = Hardware ptp_clock_hardware | SystemTime

definition hardware_time :: "bool \<Rightarrow> 'w kernel \<Rightarrow> ptp_clock_hardware \<Rightarrow> ('w, phc_error, ptp_time) sys" where
  "hardware_time dbg K c =
     sbind (hw_clock_gettime K c) (\<lambda>ts. slift (from_normalized_timespec dbg (fst ts) (snd ts)))"

definition system_time :: "bool \<Rightarrow> 'w kernel \<Rightarrow> ('w, phc_error, ptp_time) sys" where
  "system_time dbg K =
     sbind (smap_err ClockGettime (sys_clock_gettime K CLOCK_REALTIME)) (\<lambda>ts.
     slift (from_normalized_timespec dbg (fst ts) (snd ts)))"

primrec ptp_clock_time :: "bool \<Rightarrow> 'w kernel \<Rightarrow> ptp_clock \<Rightarrow> ('w, phc_error, ptp_time) sys" where
  "ptp_clock_time dbg K (Hardware hw) = hardware_time dbg K hw"
| "ptp_clock_time dbg K SystemTime = system_time dbg K"

definition clock_open :: "'w kernel \<Rightarrow> string \<Rightarrow> ('w, phc_error, ptp_clock) sys" where
  "clock_open K path = sbind (hardware_open K path) (\<lambda>hw. sret (Hardware hw))"

definition open_with_system_time_fallback :: "'w kernel \<Rightarrow> string \<Rightarrow> ('w, phc_error, ptp_clock) sys" where
  "open_with_system_time_fallback K path =
     sbind (scatch (sys_open K path)) (\<lambda>r.
     case r of
       Inr device \<Rightarrow> sret (Hardware \<lparr>hw_device = device, hw_path = path\<rparr>)
     | Inl e \<Rightarrow> if e = NotFound then sret SystemTime else slift (Err (OpenDevice path e)))"

section \<open>Device discovery\<close>

text \<open>
  Over the directory tree under \<^verbatim>\<open>/sys\<close>: whether a path exists, and the entries of a directory, each a
  name or an entry that could not be read.
\<close>

definition find_ptp_device_for_interface ::
    "(string \<Rightarrow> bool) \<Rightarrow> (string \<Rightarrow> string option list option) \<Rightarrow> string \<Rightarrow> string option" where
  "find_ptp_device_for_interface exists_at read_dir iface_name =
     (let ptp_dir = ''/sys/class/net/'' @ iface_name @ ''/device/ptp'' in
      if \<not> exists_at ptp_dir then None
      else case read_dir ptp_dir of
        None \<Rightarrow> None
      | Some entries \<Rightarrow>
          map_option (\<lambda>file_name. ''/dev/'' @ file_name)
            (find (\<lambda>file_name. prefix ''ptp'' file_name \<and> list_all is_digit (drop 3 file_name))
              (map the (filter (\<lambda>e. e \<noteq> None) entries))))"

end
