(* ===== verification/PhcSync.thy ===== *)
theory PhcSync
  imports PhcClock Synchronizer
begin

unbundle bit_operations_syntax

text \<open>
  What the operations on PTP devices promise, and the synchronised clock of
  \<^verbatim>\<open>src/avtp/synchronizer.rs\<close> running on a device: the clock reads the device only when a
  resynchronisation is due.
\<close>

section \<open>The clock over a device\<close>

definition clock_ptp_time ::
    "('w, 'x, ptp_time) sys \<Rightarrow> nat \<Rightarrow> sync_clock \<times> 'w \<Rightarrow> ('x clock_error, ptp_time) res \<times> sync_clock \<times> 'w"
  where
  "clock_ptp_time time now st =
     (case st of (c, w) \<Rightarrow>
      case (if resync_interval c \<le> duration_since now (last_ptp_instant c) then time w
            else (Ok (last_ptp_time c), w)) of
        (reading, w') \<Rightarrow> case sync_ptp_time c now reading of (out, c') \<Rightarrow> (out, c', w'))"

definition source_step ::
    "('w, 'x, ptp_time) sys \<Rightarrow> sync_clock \<times> 'w \<Rightarrow> nat \<Rightarrow> ptp_time option \<times> sync_clock \<times> 'w" where
  "source_step time st now =
     (case clock_ptp_time time now st of (Ok t, st') \<Rightarrow> (Some t, st') | (_, st') \<Rightarrow> (None, st'))"

text \<open>When no reading is due, the one passed plays no role.\<close>

lemma sync_ptp_time_not_due:
  "\<not> resync_interval c \<le> duration_since now (last_ptp_instant c) \<Longrightarrow>
   sync_ptp_time c now reading = sync_ptp_time c now reading'"
  by (simp add: sync_ptp_time_def elapsed_def)

text \<open>The contract of \<^verbatim>\<open>PtpTimeSource\<close> that the clock relies on.\<close>

locale ptp_time_source =
  fixes time :: "('w, 'x, ptp_time) sys"
  assumes time_wf: "time w = (Ok t, w') \<Longrightarrow> wf_time t"
begin

lemma source_step_ptp_step:
  assumes "clock_inv c" "source_step time (c, w) now = (r, c', w')"
  obtains reading where "reading_ok reading" "ptp_step c (now, reading :: 'x reading) = (r, c')"
proof -
  define m where "m = (if resync_interval c \<le> duration_since now (last_ptp_instant c) then time w
      else (Ok (last_ptp_time c), w))"
  have "reading_ok (fst m)"
    using assms(1) time_wf [of w] by (cases "time w") (auto simp: m_def reading_ok_def clock_inv_def)
  moreover have "ptp_step c (now, fst m) = (r, c')"
    using assms(2) by (auto simp: source_step_def clock_ptp_time_def m_def [symmetric] ptp_step_def
        split: prod.splits res.splits)
  ultimately show thesis by (rule that)
qed

end

sublocale ptp_time_source \<subseteq> src: strict_source "source_step time" "\<lambda>st. clock_inv (fst st)"
  "\<lambda>_. True" "\<lambda>st. ptp_above (fst st)"
proof unfold_locales
  fix st now r st'
  assume inv: "clock_inv (fst st)" and st: "source_step time st now = (r, st')"
  obtain c w c' w' where e: "st = (c, w)" "st' = (c', w')" by (cases st; cases st')
  from inv st obtain reading where reading: "reading_ok (reading :: 'x reading)" "ptp_step c (now, reading) = (r, c')"
    unfolding e fst_conv by (rule source_step_ptp_step)
  note o = inv [unfolded e fst_conv] and r = reading
  show "clock_inv (fst st')" using ptp_times.step_inv [of c "(now, reading)", OF o _ r(2)] r(1) by (simp add: e)
  show "ptp_above (fst st) y" if "ptp_above (fst st') y" for y
    using ptp_times.above_back [of c "(now, reading)", OF o _ r(2)] r(1) that by (simp add: e)
next
  fix st now x st'
  assume inv: "clock_inv (fst st)" and st: "source_step time st now = (Some x, st')"
  obtain c w c' w' where e: "st = (c, w)" "st' = (c', w')" by (cases st; cases st')
  from inv st obtain reading where reading: "reading_ok (reading :: 'x reading)" "ptp_step c (now, reading) = (Some x, c')"
    unfolding e fst_conv by (rule source_step_ptp_step)
  note o = inv [unfolded e fst_conv] and r = reading
  show "ptp_above (fst st) x" using ptp_times.step_above [of c "(now, reading)", OF o _ r(2)] r(1) by (simp add: e)
  show "x < y" if "ptp_above (fst st') y" for y
    using ptp_times.above_less [of c "(now, reading)", OF o _ r(2)] r(1) that by (simp add: e)
qed

text \<open>POSIX: a successful \<^verbatim>\<open>clock_gettime\<close> gives normalised nanoseconds.\<close>

locale posix_kernel =
  fixes K :: "'w kernel"
  assumes gettime_normalized: "sys_clock_gettime K i w = (Ok ts, w') \<Longrightarrow>
    in_i64 (fst ts) \<and> 0 \<le> snd ts \<and> snd ts < 1000000000"
begin

lemma gettime_time_wf:
  assumes "sbind (smap_err ClockGettime (sys_clock_gettime K i))
    (\<lambda>ts. slift (from_normalized_timespec dbg (fst ts) (snd ts))) w = (Ok t, w')"
  shows "wf_time t"
proof -
  from assms obtain ts w1 where ts: "sys_clock_gettime K i w = (Ok ts, w1)"
      "t = PtpTime (fst ts) (word_of_int (snd ts))"
    by (cases "sys_clock_gettime K i w")
      (auto simp: sbind_eq_Ok from_normalized_timespec_def)
  from gettime_normalized [OF ts(1)] show ?thesis
    by (simp add: ts(2) wf_time_uint uint_word_of_int mod_pos_pos_trivial)
qed

end

sublocale posix_kernel \<subseteq> ptp_time_source "ptp_clock_time dbg K clk" for dbg clk
proof unfold_locales
  fix w t w'
  assume "ptp_clock_time dbg K clk w = (Ok t, w')"
  then show "wf_time t"
    by (cases clk)
      (auto simp: hardware_time_def system_time_def hw_clock_gettime_def intro: gettime_time_wf)
qed

context posix_kernel
begin

lemma device_strict:
  "clock_inv c \<Longrightarrow>
   sorted_wrt (<) (run_outputs (source_step (ptp_clock_time dbg K clk)) (c, w) nows)"
  by (rule src.run_strict) (simp_all add: list_all_iff)

end

text \<open>
  A machine whose clocks count nanoseconds, by a thousand for each reading, whose device takes every
  request and whose event queue is empty.
\<close>

definition counting_kernel :: "nat kernel" where
  "counting_kernel =
     \<lparr>sys_open = (\<lambda>path w. (if path = ''/dev/ptp0'' then Ok 5 else Err NotFound, w)),
      sys_read_exact = (\<lambda>_ _ w. (Err UnexpectedEof, w)),
      sys_clock_gettime = (\<lambda>_ w. (Ok (int (w div nsec_per_sec) mod 2 ^ 32, int (w mod nsec_per_sec)), w + 1000)),
      ptp_clock_getcaps = (\<lambda>_ caps w. (Ok caps, w)),
      ptp_pin_getfunc = (\<lambda>_ d w. (Ok d, w)), ptp_pin_setfunc = (\<lambda>_ _ w. (Ok (), w)),
      ptp_extts_request = (\<lambda>_ _ w. (Ok (), w)), ptp_extts_request2 = (\<lambda>_ _ w. (Ok (), w)),
      ptp_perout_request = (\<lambda>_ _ w. (Ok (), w)), ptp_perout_request2 = (\<lambda>_ _ w. (Ok (), w))\<rparr>"

interpretation counting: posix_kernel counting_kernel
proof
  fix i w ts and w' :: nat
  assume "sys_clock_gettime counting_kernel i w = (Ok ts, w')"
  then have ts: "ts = (int (w div nsec_per_sec) mod 2 ^ 32, int (w mod nsec_per_sec))"
    by (simp add: counting_kernel_def)
  define a where "a = int (w div nsec_per_sec) mod 2 ^ 32"
  have "0 \<le> a" "a < 2 ^ 32" by (simp_all add: a_def)
  then have "in_i64 (fst ts)" unfolding ts a_def [symmetric] in_i64_def by simp
  moreover have "w mod nsec_per_sec < nsec_per_sec" by simp
  ultimately show "in_i64 (fst ts) \<and> 0 \<le> snd ts \<and> snd ts < 1000000000" unfolding ts by simp
qed

section \<open>Requests\<close>

lemma perout_start_eq:
  assumes "sys_clock_gettime K (clock_id_from_fd (hw_device c)) w = (Ok (s, n), w')" "in_i64 (s + 2)"
  shows "perout_start dbg K c r w =
    (Ok (r\<lparr>start_or_phase := \<lparr>abi_sec = s + 2, abi_nsec = 0, abi_reserved = 0\<rparr>\<rparr>), w')"
  using assms by (simp add: perout_start_def sbind_def hw_clock_gettime_def add_i64_def)

lemma from_ns_negative: "in_i64 n \<Longrightarrow> n < 0 \<Longrightarrow> seconds (from_ns n) < 0"
  by (simp add: from_ns_def)

lemma clock_id_arith: "clock_id_from_fd d = - (8 * d + 5)"
proof -
  have m: "(3 :: u32) = mask 2" by (simp add: mask_eq_exp_minus_1)
  have "push_bit 3 (NOT d) OR 3 = push_bit 3 (NOT d) + 3"
    by (rule disjunctive_add [symmetric]) (auto simp: m bit_simps)
  then show ?thesis by (simp add: clock_id_from_fd_def push_bit_eq_mult not_eq_complement)
qed

section \<open>Properties\<close>



text \<open>A periodic output without a phase is requested to start on the first whole second that is more
  than one second away, at most two, on the device's own clock; the request carries the period exactly
  and sets no flags. With the time of the device and the period representable, nothing else fails
  before the request is made.\<close>

theorem periodic_output_starts_later:
  assumes "sys_clock_gettime K (clock_id_from_fd (hw_device c)) w = (Ok (s, n), w')"
    and "0 \<le> n" "n < 1000000000" "in_i64 (s + 2)" "ptp_try_from_duration d = Ok p"
  shows "\<exists>r. enable_periodic_output dbg K c channel d None w = perout_request K c r w' \<and>
    perout_index r = channel \<and> perout_flags r = 0 \<and> abi_nsec (start_or_phase r) = 0 \<and>
    wf_time p \<and> period r = into_abi p \<and> as_nanos p = int d \<and>
    (let delay = abi_sec (start_or_phase r) * 1000000000 - (s * 1000000000 + n) in
     1000000000 < delay \<and> delay \<le> 2000000000)"
proof -
  let ?r = "perout_default\<lparr>period := into_abi p, perout_index := channel,
    start_or_phase := \<lparr>abi_sec = s + 2, abi_nsec = 0, abi_reserved = 0\<rparr>\<rparr>"
  have "enable_periodic_output dbg K c channel d None w = perout_request K c ?r w'"
    by (simp add: enable_periodic_output_def assms(5) Let_def
        sbind_def [of "perout_start dbg K c r" for r] perout_start_eq [OF assms(1,4)])
  moreover from assms(5) have "wf_time p" "as_nanos p = int d"
    by (simp_all add: ptp_try_from_duration_spec from_ns_i128_Some)
  ultimately show ?thesis
    using assms(2,3) by (intro exI [of _ ?r]) (simp add: perout_default_def)
qed

theorem periodic_output_starts_later_witness:
  "\<exists>r. enable_periodic_output True counting_kernel \<lparr>hw_device = 5, hw_path = ''/dev/ptp0''\<rparr> 1 500000000 None
      7900000000 = perout_request counting_kernel \<lparr>hw_device = 5, hw_path = ''/dev/ptp0''\<rparr> r 7900001000 \<and>
    abi_nsec (start_or_phase r) = 0"
proof -
  have g: "sys_clock_gettime counting_kernel (clock_id_from_fd (hw_device \<lparr>hw_device = 5, hw_path = ''/dev/ptp0''\<rparr>))
      7900000000 = (Ok (7, 900000000), 7900001000)"
    by (simp add: counting_kernel_def)
  have d: "ptp_try_from_duration 500000000 = Ok (PtpTime 0 500000000)"
    by (simp add: ptp_try_from_duration_def dur_as_secs_def dur_subsec_nanos_def in_i64_def)
  from periodic_output_starts_later [OF g _ _ _ d, of True 1] show ?thesis
    by (auto simp: in_i64_def)
qed

text \<open>The nanosecond variant sends a negative period, or a negative phase, to the kernel: it becomes a
  time with negative seconds, and no error is reported before the request is made.\<close>

theorem negative_period_is_sent:
  assumes "in_i64 period_ns" "in_i64 phase_ns" "period_ns < 0"
  shows "\<exists>r. enable_periodic_output_ns dbg K c channel period_ns (Some phase_ns) w = perout_request K c r w \<and>
    abi_sec (period r) < 0 \<and> abi_nsec (period r) < 1000000000 \<and>
    abi_sec (start_or_phase r) = phase_ns div 1000000000 \<and> perout_flags r = PEROUT_PHASE"
  using from_ns_negative [OF assms(1,3)] from_ns_wf [OF assms(1)]
  by (intro exI [of _ "perout_default\<lparr>period := into_abi (from_ns period_ns), perout_index := channel,
        start_or_phase := into_abi (from_ns phase_ns), perout_flags := PEROUT_PHASE\<rparr>"])
    (auto simp: enable_periodic_output_ns_def Let_def perout_default_def into_abi_def from_ns_def
      wf_time_def word_less_nat_alt)

theorem negative_period_is_sent_witness:
  "\<exists>r. enable_periodic_output_ns True counting_kernel \<lparr>hw_device = 5, hw_path = ''/dev/ptp0''\<rparr> 1 (- 5) (Some 0) 0 =
      perout_request counting_kernel \<lparr>hw_device = 5, hw_path = ''/dev/ptp0''\<rparr> r 0 \<and> abi_sec (period r) < 0"
  using negative_period_is_sent [of "- 5" 0 True counting_kernel "\<lparr>hw_device = 5, hw_path = ''/dev/ptp0''\<rparr>" 1 0]
  by (auto simp: in_i64_def)

text \<open>The clock identifiers computed from descriptors below 2^29 are all different and none is the
  system's real-time clock, so a device handle reads its own device's time.\<close>

theorem clock_ids_distinct:
  assumes "unat d < 2 ^ 29" "unat d' < 2 ^ 29"
  shows "(clock_id_from_fd d = clock_id_from_fd d' \<longleftrightarrow> d = d') \<and> clock_id_from_fd d \<noteq> CLOCK_REALTIME"
proof -
  have small: "unat (8 * x + 5) = 8 * unat x + 5" if "unat x < 2 ^ 29" for x :: u32
  proof -
    have "unat (8 * x) = 8 * unat x"
      using that unat_mult_lem [of 8 x] by simp
    with that show ?thesis using unat_add_lem [of "8 * x" 5] by simp
  qed
  have "clock_id_from_fd d = clock_id_from_fd d' \<longleftrightarrow> unat (8 * d + 5) = unat (8 * d' + 5)"
    unfolding clock_id_arith neg_equal_iff_equal by (rule word_unat_eq_iff)
  also have "\<dots> \<longleftrightarrow> d = d'" unfolding small [OF assms(1)] small [OF assms(2)]
    by (simp add: word_unat_eq_iff [of d d'])
  finally have "clock_id_from_fd d = clock_id_from_fd d' \<longleftrightarrow> d = d'" .
  moreover have "unat (8 * d + 5) \<noteq> unat (0 :: u32)" unfolding small [OF assms(1)] by simp
  then have "8 * d + 5 \<noteq> 0" by metis
  then have "clock_id_from_fd d \<noteq> CLOCK_REALTIME"
    unfolding clock_id_arith CLOCK_REALTIME_def neg_equal_0_iff_equal .
  ultimately show ?thesis ..
qed

theorem clock_ids_distinct_witness:
  "clock_id_from_fd 5 \<noteq> clock_id_from_fd 6 \<and> clock_id_from_fd 5 \<noteq> CLOCK_REALTIME"
  using clock_ids_distinct [of 5 6] by simp

end
