(* ===== verification/NetIface.thy ===== *)
theory NetIface
  imports CommonHeader
begin

text \<open>
  A network interface as the program sees it: the fields it reads of the description that another
  crate gives of each interface of the machine.
\<close>

record network_interface =
  if_name :: string
  if_mac :: "mac_addr option"
  if_up :: bool

end
