(* ===== verification/Instance.thy ===== *)
theory Instance
  imports Sys PtpState NetIface
begin

text \<open>
  \<^verbatim>\<open>src/ptp_proto/instance.rs\<close>: a \<^verbatim>\<open>ptp4l\<close> daemon managed as a child process, and the query of its state
  through \<^verbatim>\<open>pmc\<close>. The operating system is a record of the calls the code makes through the standard
  library, over a state \<open>'w\<close> of the machine. Log output is left out, but for the lines of the daemon
  that the logging threads forward.
\<close>

section \<open>Errors\<close>

datatype io_kind = KindNotFound | KindOther string

record os_error =
  err_kind :: io_kind
  err_message :: string

definition wrap_command_error :: "string \<Rightarrow> os_error \<Rightarrow> os_error" where
  "wrap_command_error program e =
     (let message = if err_kind e = KindNotFound
        then ''failed to execute `'' @ program @ ''`: command not found''
        else ''failed to execute `'' @ program @ ''`: '' @ err_message e in
      \<lparr>err_kind = err_kind e, err_message = message\<rparr>)"

definition other_error :: "string \<Rightarrow> os_error" where
  "other_error message = \<lparr>err_kind = KindOther ''Other'', err_message = message\<rparr>"

text \<open>The wait status of a process, which is zero when it exited with code zero.\<close>

type_synonym exit_status = int

definition exit_success :: "exit_status \<Rightarrow> bool" where
  "exit_success st \<longleftrightarrow> st = 0"

datatype ptp_query_error =
    QueryIo os_error
  | CommandFailed exit_status
  | InvalidUtf8 "byte list"
  | NotReady string
  | ProcessExited exit_status
  | ProcessNotRunning
  | QueryParse snapshot_parse_error

section \<open>The operating system\<close>

datatype output_stream = Stdout | Stderr

primrec output_stream_str :: "output_stream \<Rightarrow> string" where
  "output_stream_str Stdout = ''stdout''"
| "output_stream_str Stderr = ''stderr''"

text \<open>A child process: its identifier and whether its piped streams are still there to be taken.\<close>

record child =
  child_id :: u32
  child_stdout :: bool
  child_stderr :: bool

record proc_output =
  out_status :: exit_status
  out_stdout :: "byte list"
  out_stderr :: "byte list"

record 'w proc_ops =
  os_pid :: "'w \<Rightarrow> u32"
  os_create_file :: "string \<Rightarrow> ('w, os_error, unit) sys"
  os_write_file :: "string \<Rightarrow> string \<Rightarrow> ('w, os_error, unit) sys"
  os_remove_file :: "string \<Rightarrow> ('w, os_error, unit) sys"
  os_spawn :: "string \<Rightarrow> string list \<Rightarrow> ('w, os_error, child) sys"
  os_output :: "string \<Rightarrow> string list \<Rightarrow> ('w, os_error, proc_output) sys"
  os_try_wait :: "u32 \<Rightarrow> ('w, os_error, exit_status option) sys"
  os_kill :: "u32 \<Rightarrow> ('w, os_error, unit) sys"
  os_wait :: "u32 \<Rightarrow> ('w, os_error, exit_status) sys"
  os_spawn_logger :: "string \<Rightarrow> u32 \<Rightarrow> output_stream \<Rightarrow> ('w, os_error, unit) sys"

section \<open>Instances\<close>

datatype ptp_role = MasterRole | SlaveRole

record ptp_instance =
  inst_name :: string
  inst_interface :: network_interface
  inst_role :: ptp_role
  config_path :: string
  process_handle :: "child option"

definition config_file :: "string \<Rightarrow> u32 \<Rightarrow> string" where
  "config_file name pid = ''/tmp/ptp4l-'' @ name @ ''-'' @ show_nat (unat pid) @ ''.cfg''"

definition uds_address :: "string \<Rightarrow> u32 \<Rightarrow> string" where
  "uds_address name pid = ''/var/run/ptp4l-'' @ name @ ''-'' @ show_nat (unat pid)"

definition uds_ro_address :: "string \<Rightarrow> u32 \<Rightarrow> string" where
  "uds_ro_address name pid = ''/var/run/ptp4l-'' @ name @ ''-'' @ show_nat (unat pid) @ ''-ro''"

definition config_text :: "string \<Rightarrow> u32 \<Rightarrow> string" where
  "config_text name pid = unlines
     [''[global]'', ''uds_address '' @ uds_address name pid, ''uds_ro_address '' @ uds_ro_address name pid]"

definition create_config :: "'w proc_ops \<Rightarrow> string \<Rightarrow> ('w, os_error, string) sys" where
  "create_config P name w =
     (let pid = os_pid P w; path = config_file name pid in
      sbind (os_create_file P path) (\<lambda>_.
      sbind (os_write_file P path (config_text name pid)) (\<lambda>_.
      sret path)) w)"

definition instance_new ::
    "'w proc_ops \<Rightarrow> network_interface \<Rightarrow> ptp_role \<Rightarrow> string \<Rightarrow> ('w, os_error, ptp_instance) sys" where
  "instance_new P iface role name =
     sbind (create_config P name) (\<lambda>path.
     sret \<lparr>inst_name = name, inst_interface = iface, inst_role = role, config_path = path,
           process_handle = None\<rparr>)"

text \<open>The methods change the instance too: computations over the instance and the machine.\<close>

type_synonym ('w, 'e, 'a) inst_op = "(ptp_instance \<times> 'w, 'e, 'a) sys"

definition os_call :: "('w, 'e, 'a) sys \<Rightarrow> ('w, 'e, 'a) inst_op" where
  "os_call m st = (case m (snd st) of (r, w') \<Rightarrow> (r, (fst st, w')))"

definition get_instance :: "('w, 'e, ptp_instance) inst_op" where
  "get_instance st = (Ok (fst st), st)"

definition set_process :: "child option \<Rightarrow> ('w, 'e, unit) inst_op" where
  "set_process p st = (Ok (), ((fst st)\<lparr>process_handle := p\<rparr>, snd st))"

definition ptp4l_args :: "ptp_instance \<Rightarrow> string list" where
  "ptp4l_args i =
     [''-i'', if_name (inst_interface i), ''-H'', ''-m'', ''-2'', ''-f'', config_path i] @
     (if inst_role i = SlaveRole then [''-s''] else [])"

definition spawn_stream_logger ::
    "'w proc_ops \<Rightarrow> ptp_instance \<Rightarrow> u32 \<Rightarrow> output_stream \<Rightarrow> ('w, os_error, unit) sys" where
  "spawn_stream_logger P i pid kind =
     os_spawn_logger P (''ptp4l-'' @ inst_name i @ ''-'' @ output_stream_str kind) pid kind"

text \<open>The child is returned without the streams that were taken from it.\<close>

definition attach_log_threads :: "'w proc_ops \<Rightarrow> ptp_instance \<Rightarrow> child \<Rightarrow> ('w, os_error, child) sys" where
  "attach_log_threads P i c =
     sbind (slift (ensure (child_stdout c) (other_error ''ptp4l stdout stream is not available''))) (\<lambda>_.
     sbind (spawn_stream_logger P i (child_id c) Stdout) (\<lambda>_.
     sbind (slift (ensure (child_stderr c) (other_error ''ptp4l stderr stream is not available''))) (\<lambda>_.
     sbind (spawn_stream_logger P i (child_id c) Stderr) (\<lambda>_.
     sret (c\<lparr>child_stdout := False, child_stderr := False\<rparr>)))))"

definition start :: "'w proc_ops \<Rightarrow> ('w, os_error, unit) inst_op" where
  "start P =
     sbind get_instance (\<lambda>i.
     sbind (smap_err (wrap_command_error ''ptp4l'') (os_call (os_spawn P ''ptp4l'' (ptp4l_args i)))) (\<lambda>c.
     sbind (scatch (os_call (attach_log_threads P i c))) (\<lambda>attached.
     case attached of
       Inl e \<Rightarrow>
         sbind (scatch (os_call (os_kill P (child_id c)))) (\<lambda>_.
         sbind (scatch (os_call (os_wait P (child_id c)))) (\<lambda>_.
         slift (Err e)))
     | Inr c' \<Rightarrow> set_process (Some c'))))"

text \<open>The handle is taken before the process is killed.\<close>

definition stop :: "'w proc_ops \<Rightarrow> ('w, os_error, unit) inst_op" where
  "stop P =
     sbind get_instance (\<lambda>i.
     case process_handle i of
       None \<Rightarrow> sret ()
     | Some c \<Rightarrow>
         sbind (set_process None) (\<lambda>_.
         sbind (os_call (os_kill P (child_id c))) (\<lambda>_.
         sbind (scatch (os_call (os_wait P (child_id c)))) (\<lambda>_.
         sret ()))))"

definition ensure_process_running :: "'w proc_ops \<Rightarrow> ('w, ptp_query_error, unit) inst_op" where
  "ensure_process_running P =
     sbind get_instance (\<lambda>i.
     case process_handle i of
       None \<Rightarrow> slift (Err ProcessNotRunning)
     | Some c \<Rightarrow>
         sbind (smap_err QueryIo (os_call (os_try_wait P (child_id c)))) (\<lambda>r.
         case r of
           Some st \<Rightarrow> sbind (set_process None) (\<lambda>_. slift (Err (ProcessExited st)))
         | None \<Rightarrow> sret ()))"

definition pmc_args :: "ptp_instance \<Rightarrow> string list" where
  "pmc_args i =
     [''-u'', ''-b'', ''0'', ''-f'', config_path i,
      ''GET TIME_STATUS_NP'', ''GET PORT_DATA_SET'', ''GET CURRENT_DATA_SET'']"

definition snapshot_of_text :: "'w proc_ops \<Rightarrow> string \<Rightarrow> ('w, ptp_query_error, ptp_snapshot) inst_op" where
  "snapshot_of_text P text =
     (case parse_pmc_output text of
        Ok s \<Rightarrow> sret s
      | Err (MissingDataset dataset) \<Rightarrow>
          sbind (ensure_process_running P) (\<lambda>_. slift (Err (NotReady dataset)))
      | Err e \<Rightarrow> slift (Err (QueryParse e))
      | Panic \<Rightarrow> slift Panic)"

definition snapshot :: "'w proc_ops \<Rightarrow> ('w, ptp_query_error, ptp_snapshot) inst_op" where
  "snapshot P =
     sbind (ensure_process_running P) (\<lambda>_.
     sbind get_instance (\<lambda>i.
     sbind (smap_err (\<lambda>e. QueryIo (wrap_command_error ''pmc'' e))
       (os_call (os_output P ''pmc'' (pmc_args i)))) (\<lambda>out.
     if \<not> exit_success (out_status out) then
       sbind (ensure_process_running P) (\<lambda>_. slift (Err (CommandFailed (out_status out))))
     else
       sbind (slift (ok_or (InvalidUtf8 (out_stdout out)) (from_utf8 (out_stdout out)))) (\<lambda>text.
       snapshot_of_text P text))))"

text \<open>\<^verbatim>\<open>Drop\<close>: no error is reported.\<close>

definition drop_instance :: "'w proc_ops \<Rightarrow> ('w, os_error, unit) inst_op" where
  "drop_instance P =
     sbind get_instance (\<lambda>i.
     sbind (case process_handle i of
         None \<Rightarrow> sret ()
       | Some c \<Rightarrow>
           sbind (set_process None) (\<lambda>_.
           sbind (scatch (os_call (os_kill P (child_id c)))) (\<lambda>killed.
           case killed of
             Inr _ \<Rightarrow> sbind (scatch (os_call (os_wait P (child_id c)))) (\<lambda>_. sret ())
           | Inl _ \<Rightarrow> sret ()))) (\<lambda>_.
     sbind (scatch (os_call (os_remove_file P (config_path i)))) (\<lambda>_.
     sret ())))"

section \<open>Forwarding of the daemon's output\<close>

datatype log_event =
    LogLine output_stream string
  | LogReadFailed output_stream u32 os_error
  | LogClosed output_stream u32

definition trim_line_end :: "string \<Rightarrow> string" where
  "trim_line_end s = rev (dropWhile (\<lambda>c. c = cr \<or> c = newline) (rev s))"

text \<open>
  The loop of a logging thread over what its successive reads of a line give: an error, or the text
  read, which is empty at the end of the stream. While a read blocks nothing more is logged.
\<close>

primrec stream_output :: "output_stream \<Rightarrow> u32 \<Rightarrow> (os_error + string) list \<Rightarrow> log_event list" where
  "stream_output kind pid [] = []"
| "stream_output kind pid (r # rs) =
     (case r of
        Inl e \<Rightarrow> [LogReadFailed kind pid e, LogClosed kind pid]
      | Inr line \<Rightarrow>
          if line = [] then [LogClosed kind pid]
          else if trim_line_end line = [] then stream_output kind pid rs
          else LogLine kind (trim_line_end line) # stream_output kind pid rs)"

section \<open>The operations, case by case\<close>

lemma keeps_get_instance [keeps_intros]: "keeps I get_instance"
  by (simp add: keeps_def get_instance_def)

lemma keeps_os_call [keeps_intros]: "(\<And>i w. I (i, w) \<Longrightarrow> I (i, snd (m w))) \<Longrightarrow> keeps I (os_call m)"
  by (auto simp: keeps_def os_call_def split: prod.split) (metis snd_conv)

lemma os_call_apply [simp]: "os_call m (i, w) = (case m w of (r, w') \<Rightarrow> (r, (i, w')))"
  by (simp add: os_call_def)

lemma get_instance_apply [simp]: "get_instance (i, w) = (Ok i, (i, w))"
  by (simp add: get_instance_def)

lemma set_process_apply [simp]: "set_process p (i, w) = (Ok (), (i\<lparr>process_handle := p\<rparr>, w))"
  by (simp add: set_process_def)

lemma ensure_running:
  "ensure_process_running P (i, w) =
     (case process_handle i of
        None \<Rightarrow> (Err ProcessNotRunning, (i, w))
      | Some c \<Rightarrow> (case os_try_wait P (child_id c) w of
          (Ok (Some st), w') \<Rightarrow> (Err (ProcessExited st), (i\<lparr>process_handle := None\<rparr>, w'))
        | (Ok None, w') \<Rightarrow> (Ok (), (i, w'))
        | (Err e, w') \<Rightarrow> (Err (QueryIo e), (i, w'))
        | (Panic, w') \<Rightarrow> (Panic, (i, w'))))"
  by (simp add: ensure_process_running_def sbind_def split: option.split prod.split res.split)

lemma ensure_running_Ok:
  "ensure_process_running P (i, w) = (Ok u, st') \<longleftrightarrow>
   (\<exists>c w'. process_handle i = Some c \<and> os_try_wait P (child_id c) w = (Ok None, w') \<and> st' = (i, w'))"
  by (auto simp: ensure_running split: option.splits prod.splits res.splits)

text \<open>What a query does once its first check has passed, and the outcome of the second.\<close>

lemma snapshot_not_running: "process_handle i = None \<Longrightarrow> snapshot P (i, w) = (Err ProcessNotRunning, (i, w))"
  by (simp add: snapshot_def sbind_def ensure_running)

lemma snapshot_of_text_eq:
  "snapshot_of_text P text (i, w) =
     (case parse_pmc_output text of
        Ok s \<Rightarrow> (Ok s, (i, w))
      | Err e \<Rightarrow>
          (case e of
             MissingDataset d \<Rightarrow> sbind (ensure_process_running P) (\<lambda>_. slift (Err (NotReady d))) (i, w)
           | _ \<Rightarrow> (Err (QueryParse e), (i, w)))
      | Panic \<Rightarrow> (Panic, (i, w)))"
  by (simp add: snapshot_of_text_def split: res.split snapshot_parse_error.split)

lemma snapshot_of_text_Ok: "snapshot_of_text P text (i, w) = (Ok s, st') \<longleftrightarrow> parse_pmc_output text = Ok s \<and> st' = (i, w)"
  by (auto simp: snapshot_of_text_eq sbind_eq_Ok split: res.split snapshot_parse_error.split)

text \<open>The first check has seen the child alive, so only the second can find that it is gone.\<close>

definition checked :: "ptp_instance \<Rightarrow> ptp_instance \<Rightarrow> (ptp_query_error, 'a) res \<Rightarrow> bool" where
  "checked i i' r \<longleftrightarrow>
     i' = i \<and> r \<noteq> Err ProcessNotRunning \<and> (\<forall>st. r \<noteq> Err (ProcessExited st)) \<or>
     i' = i\<lparr>process_handle := None\<rparr> \<and> (\<exists>st. r = Err (ProcessExited st))"

lemma checked_same: "r \<noteq> Err ProcessNotRunning \<Longrightarrow> \<forall>st. r \<noteq> Err (ProcessExited st) \<Longrightarrow> checked i i r"
  by (simp add: checked_def)

lemma ensure_then_checked:
  assumes "process_handle i = Some c" "e \<noteq> ProcessNotRunning" "\<forall>st. e \<noteq> ProcessExited st"
    "sbind (ensure_process_running P) (\<lambda>_. slift (Err e)) (i, w) = (r, (i', w'))"
  shows "checked i i' r"
  using assms by (auto simp: checked_def sbind_def ensure_running split: prod.splits res.splits option.splits)

lemma snapshot_of_text_checked:
  assumes "process_handle i = Some c" "snapshot_of_text P text (i, w) = (r, (i', w'))"
  shows "checked i i' r"
  using assms(2)
  by (auto simp: snapshot_of_text_eq checked_same split: res.splits snapshot_parse_error.splits
      dest!: ensure_then_checked [OF assms(1), rotated -1])

lemma snapshot_checked:
  assumes "process_handle i = Some c" "snapshot P (i, w) = (r, (i', w'))"
  shows "checked i i' r"
proof -
  obtain r1 w1 where t: "os_try_wait P (child_id c) w = (r1, w1)" by (cases "os_try_wait P (child_id c) w")
  obtain r2 w2 where o: "os_output P ''pmc'' (pmc_args i) w1 = (r2, w2)"
    by (cases "os_output P ''pmc'' (pmc_args i) w1")
  have e: "ensure_process_running P (i, w) = (case r1 of
      Ok x \<Rightarrow> (case x of Some st \<Rightarrow> (Err (ProcessExited st), (i\<lparr>process_handle := None\<rparr>, w1)) | None \<Rightarrow> (Ok (), (i, w1)))
    | Err x \<Rightarrow> (Err (QueryIo x), (i, w1)) | Panic \<Rightarrow> (Panic, (i, w1)))"
    using assms(1) t by (simp add: ensure_running split: res.split option.split)
  show ?thesis
  proof (cases "r1 = Ok None \<and> (\<exists>out. r2 = Ok out)")
    case True
    then obtain out where [simp]: "r1 = Ok None" "r2 = Ok out" by blast
    from assms(2) e o show ?thesis
      by (cases "from_utf8 (out_stdout out)")
        (auto simp: snapshot_def sbind_def [of _ "\<lambda>_. sbind get_instance _"] sbind_def [of "smap_err _ _"] checked_same
          split: if_splits dest!: snapshot_of_text_checked [OF assms(1)] ensure_then_checked [OF assms(1), rotated -1])
  next
    case False
    with assms(2) e o show ?thesis
      by (cases r2) (auto simp: snapshot_def sbind_def checked_def split: res.splits option.splits)
  qed
qed

lemma snapshot_Ok:
  "snapshot P (i, w) = (Ok s, st') \<longleftrightarrow>
   (\<exists>c w1 out w' text. process_handle i = Some c \<and> os_try_wait P (child_id c) w = (Ok None, w1) \<and>
      os_output P ''pmc'' (pmc_args i) w1 = (Ok out, w') \<and> exit_success (out_status out) \<and>
      from_utf8 (out_stdout out) = Some text \<and> parse_pmc_output text = Ok s \<and> st' = (i, w'))"
  (is "_ = ?R")
proof
  assume "snapshot P (i, w) = (Ok s, st')"
  then obtain c w1 where c: "process_handle i = Some c" "os_try_wait P (child_id c) w = (Ok None, w1)"
    by (auto simp: snapshot_def sbind_eq_Ok [of "ensure_process_running P"] ensure_running_Ok)
  with \<open>snapshot P (i, w) = (Ok s, st')\<close> show ?R
    by (cases "os_output P ''pmc'' (pmc_args i) w1")
      (auto simp: snapshot_def sbind_eq_Ok ensure_running_Ok snapshot_of_text_Ok split: if_splits)
next
  assume ?R
  then show "snapshot P (i, w) = (Ok s, st')"
    by (auto simp: snapshot_def sbind_def ensure_running snapshot_of_text_Ok)
qed

end
