(* ===== verification/InstanceLife.thy ===== *)
theory InstanceLife
  imports Instance
begin

text \<open>
  The life of a managed daemon: which child processes an instance leaves behind, when its end is
  noticed, and what a query returns.
\<close>

section \<open>Child processes\<close>

text \<open>
  What the operating system promises of child processes, over the identifiers of the children that
  have not been reaped: a new child is one more, which has both piped streams; waiting for a child,
  or finding that it has exited, reaps it; a signal does not, and no other call concerns children.
\<close>

locale process_table =
  fixes P :: "'w proc_ops" and live :: "'w \<Rightarrow> u32 set"
  assumes spawn_Ok: "os_spawn P prog args w = (Ok c, w') \<Longrightarrow>
      child_id c \<notin> live w \<and> live w' = insert (child_id c) (live w)"
    and spawn_fails: "os_spawn P prog args w = (r, w') \<Longrightarrow> (\<And>c. r \<noteq> Ok c) \<Longrightarrow> live w' = live w"
    and try_wait_live: "os_try_wait P p w = (x, w') \<Longrightarrow>
      live w' = (case x of Ok (Some st) \<Rightarrow> live w - {p} | _ \<Rightarrow> live w)"
    and wait_live: "live (snd (os_wait P p w)) = live w - {p}"
    and kill_live: "live (snd (os_kill P p w)) = live w"
    and output_live: "live (snd (os_output P prog args w)) = live w"
    and logger_live: "live (snd (os_spawn_logger P name p kind w)) = live w"
    and file_live: "live (snd (os_create_file P path w)) = live w"
      "live (snd (os_write_file P path content w)) = live w" "live (snd (os_remove_file P path w)) = live w"
    and returns: "fst (os_kill P p w) \<noteq> Panic" "fst (os_wait P p w) \<noteq> Panic"
      "fst (os_spawn_logger P name p kind w) \<noteq> Panic" "fst (os_remove_file P path w) \<noteq> Panic"

text \<open>The children of the machine are the instance's own, if it has one, and those of others.\<close>

definition own_child :: "ptp_instance \<Rightarrow> u32 set" where
  "own_child i = (case process_handle i of None \<Rightarrow> {} | Some c \<Rightarrow> {child_id c})"

lemma own_child_simps [simp]:
  "own_child (i\<lparr>process_handle := None\<rparr>) = {}"
  "own_child (i\<lparr>process_handle := Some c\<rparr>) = {child_id c}"
  "process_handle i = None \<Longrightarrow> own_child i = {}"
  "process_handle i = Some c \<Longrightarrow> own_child i = {child_id c}"
  by (simp_all add: own_child_def)

definition tracked :: "('w \<Rightarrow> u32 set) \<Rightarrow> u32 set \<Rightarrow> ptp_instance \<times> 'w \<Rightarrow> bool" where
  "tracked live others s \<longleftrightarrow>
     live (snd s) = own_child (fst s) \<union> others \<and> own_child (fst s) \<inter> others = {}"

text \<open>The uses of an instance that keep track of the daemon: it is started when none is held.\<close>

inductive inst_step :: "'w proc_ops \<Rightarrow> ptp_instance \<times> 'w \<Rightarrow> ptp_instance \<times> 'w \<Rightarrow> bool" for P where
  step_start: "process_handle (fst s) = None \<Longrightarrow> start P s = (r, s') \<Longrightarrow> inst_step P s s'"
| step_stop: "stop P s = (Ok (), s') \<Longrightarrow> inst_step P s s'"
| step_snapshot: "snapshot P s = (r, s') \<Longrightarrow> inst_step P s s'"

context process_table
begin

lemma attach_live:
  assumes "attach_log_threads P i c w = (r, w')"
  shows "live w' = live w \<and> r \<noteq> Panic \<and> (\<forall>c'. r = Ok c' \<longrightarrow> child_id c' = child_id c)"
proof -
  obtain r1 w1 where 1: "os_spawn_logger P (''ptp4l-'' @ inst_name i @ ''-'' @ ''stdout'') (child_id c) Stdout w = (r1, w1)"
    by (cases "os_spawn_logger P (''ptp4l-'' @ inst_name i @ ''-'' @ ''stdout'') (child_id c) Stdout w")
  obtain r2 w2 where 2: "os_spawn_logger P (''ptp4l-'' @ inst_name i @ ''-'' @ ''stderr'') (child_id c) Stderr w1 = (r2, w2)"
    by (cases "os_spawn_logger P (''ptp4l-'' @ inst_name i @ ''-'' @ ''stderr'') (child_id c) Stderr w1")
  have l: "live w1 = live w" "live w2 = live w1" "r1 \<noteq> Panic" "r2 \<noteq> Panic"
    using logger_live returns(3) 1 2 by (metis fst_conv snd_conv)+
  with assms 1 2 show ?thesis
    by (cases r1; cases r2)
      (auto simp: attach_log_threads_def spawn_stream_logger_def sbind_def ensure_def split: if_splits)
qed

lemma kill_cases:
  obtains (killed) w' where "os_kill P p w = (Ok (), w')" "live w' = live w"
  | (failed) e w' where "os_kill P p w = (Err e, w')" "live w' = live w"
proof -
  obtain r w' where "os_kill P p w = (r, w')" by (cases "os_kill P p w")
  then show thesis using killed failed kill_live [of p w] returns(1) [of p w] by (cases r) auto
qed

lemma wait_cases:
  obtains r w' where "os_wait P p w = (r, w')" "r \<noteq> Panic" "live w' = live w - {p}"
  using wait_live [of p w] returns(2) [of p w] by (cases "os_wait P p w") auto

lemma start_run:
  assumes "start P (i, w) = (r, (i', w'))"
  shows "(\<exists>c. r = Ok () \<and> i' = i\<lparr>process_handle := Some c\<rparr> \<and> child_id c \<notin> live w \<and>
      live w' = insert (child_id c) (live w)) \<or>
    r \<noteq> Ok () \<and> i' = i \<and> live w' = live w"
proof -
  obtain r1 w1 where sp: "os_spawn P ''ptp4l'' (ptp4l_args i) w = (r1, w1)"
    by (cases "os_spawn P ''ptp4l'' (ptp4l_args i) w")
  show ?thesis
  proof (cases "\<exists>c. r1 = Ok c")
    case True
    then obtain c where r1: "r1 = Ok c" ..
    note c = spawn_Ok [OF sp [unfolded r1]]
    obtain r2 w2 where at: "attach_log_threads P i c w1 = (r2, w2)" by (cases "attach_log_threads P i c w1")
    note a = attach_live [OF at]
    obtain x3 w3 where k: "scatch (os_call (os_kill P (child_id c))) (i, w2) = (Ok x3 :: (os_error, _) res, (i, w3))"
        "live w3 = live w2"
      by (rule kill_cases [of "child_id c" w2]) (auto simp: scatch_def)
    obtain x4 w4 where v: "scatch (os_call (os_wait P (child_id c))) (i, w3) = (Ok x4 :: (os_error, _) res, (i, w4))"
        "live w4 = live w3 - {child_id c}"
    proof (rule wait_cases [of "child_id c" w3])
      fix r' w'
      assume "os_wait P (child_id c) w3 = (r', w')" "r' \<noteq> Panic" "live w' = live w3 - {child_id c}"
      then show thesis using that by (cases r') (auto simp: scatch_def)
    qed
    show ?thesis
    proof (cases r2)
      case (Ok c')
      with at have at': "scatch (os_call (attach_log_threads P i c)) (i, w1) = (Ok (Inr c') :: (os_error, _) res, (i, w2))"
        by (simp add: scatch_def)
      have "start P (i, w) = (Ok (), (i\<lparr>process_handle := Some c'\<rparr>, w2))"
        unfolding start_def by (simp add: sp r1 at')
      moreover have "child_id c' = child_id c" "live w2 = live w1" using a Ok by simp_all
      ultimately show ?thesis using assms c by auto
    next
      case (Err e)
      with at have at': "scatch (os_call (attach_log_threads P i c)) (i, w1) = (Ok (Inl e) :: (os_error, _) res, (i, w2))"
        by (simp add: scatch_def)
      have "start P (i, w) = (Err e, (i, w4))"
        unfolding start_def by (simp add: sp r1 at' k v)
      with assms a c k v show ?thesis by auto
    next
      case Panic
      with a show ?thesis by simp
    qed
  next
    case False
    with spawn_fails [OF sp] assms sp show ?thesis
      by (cases r1) (auto simp: start_def sbind_def)
  qed
qed

lemma stop_run:
  assumes "stop P (i, w) = (r, (i', w'))"
  shows "i' = i\<lparr>process_handle := None\<rparr> \<and>
    (r = Ok () \<and> live w' = live w - own_child i \<or> (\<exists>e. r = Err e) \<and> live w' = live w)"
proof (cases "process_handle i")
  case None
  with assms show ?thesis by (auto simp: stop_def)
next
  case (Some c)
  show ?thesis
  proof (cases rule: kill_cases [of "child_id c" w])
    case (killed w2)
    obtain r3 w3 where "os_wait P (child_id c) w2 = (r3, w3)" "r3 \<noteq> Panic" "live w3 = live w2 - {child_id c}"
      by (rule wait_cases)
    with killed Some assms show ?thesis
      by (cases r3) (auto simp: stop_def sbind_def scatch_def)
  next
    case (failed e w2)
    with Some assms show ?thesis by (auto simp: stop_def sbind_def)
  qed
qed

lemma drop_run:
  assumes "drop_instance P (i, w) = (r, (i', w'))"
  shows "live w' = live w \<or> live w' = live w - own_child i"
    and "\<forall>p w. fst (os_kill P p w) = Ok () \<Longrightarrow> live w' = live w - own_child i"
proof -
  have rm: "live w2 = live w1" if "os_remove_file P path w1 = (r2, w2)" for path w1 r2 w2
    using file_live(3) that by (metis snd_conv)
  have "live w' = live w - own_child i \<or>
      (\<exists>c e w2. os_kill P c w = (Err e, w2)) \<and> live w' = live w"
  proof (cases "process_handle i")
    case None
    with assms rm show ?thesis
      by (auto simp: drop_instance_def sbind_def scatch_def split: prod.splits res.splits)
  next
    case (Some c)
    show ?thesis
    proof (cases rule: kill_cases [of "child_id c" w])
      case (killed w2)
      obtain r3 w3 where "os_wait P (child_id c) w2 = (r3, w3)" "r3 \<noteq> Panic" "live w3 = live w2 - {child_id c}"
        by (rule wait_cases)
      with killed Some assms rm show ?thesis
        by (cases r3) (auto simp: drop_instance_def sbind_def scatch_def split: prod.splits res.splits)
    next
      case (failed e w2)
      with Some assms rm show ?thesis
        by (auto simp: drop_instance_def sbind_def scatch_def split: prod.splits res.splits)
    qed
  qed
  then show "live w' = live w \<or> live w' = live w - own_child i"
    "\<forall>p w. fst (os_kill P p w) = Ok () \<Longrightarrow> live w' = live w - own_child i"
    by (metis fst_conv res.distinct(1))+
qed

lemma ensure_running_tracked: "keeps (tracked live others) (ensure_process_running P)"
proof -
  have "tracked live others (snd (ensure_process_running P (i, w)))" if t: "tracked live others (i, w)" for i w
  proof (cases "process_handle i")
    case None
    with t show ?thesis by (simp add: ensure_running)
  next
    case (Some c)
    obtain r w' where r: "os_try_wait P (child_id c) w = (r, w')" by (cases "os_try_wait P (child_id c) w")
    note l = try_wait_live [OF r]
    show ?thesis
    proof (cases "\<exists>st. r = Ok (Some st)")
      case True
      with Some r l t show ?thesis by (auto simp: ensure_running tracked_def)
    next
      case False
      then have "live w' = live w" using l by (auto split: res.splits option.splits)
      with False Some r t show ?thesis
        by (auto simp: ensure_running tracked_def split: res.splits option.splits)
    qed
  qed
  then show ?thesis by (simp add: keeps_def)
qed

lemma output_tracked: "keeps (tracked live others) (os_call (os_output P prog args))"
  by (rule keeps_os_call) (simp add: tracked_def output_live)

lemma snapshot_tracked: "keeps (tracked live others) (snapshot P)"
proof -
  have "keeps (tracked live others) (snapshot_of_text P t)" for t
    unfolding snapshot_of_text_def
    by (auto intro!: keeps_intros ensure_running_tracked split: res.split snapshot_parse_error.split)
  then show ?thesis
    unfolding snapshot_def
    by (intro keeps_intros ensure_running_tracked output_tracked) (auto intro!: keeps_intros ensure_running_tracked)
qed

lemma step_tracked: "inst_step P s s' \<Longrightarrow> tracked live others s \<Longrightarrow> tracked live others s'"
proof (induction rule: inst_step.induct)
  case (step_start s r s')
  obtain i w i' w' where e: "s = (i, w)" "s' = (i', w')" by (cases s; cases s')
  from step_start.prems step_start.hyps(1) have t: "live w = others" by (simp add: e tracked_def)
  show ?case
    using start_run [OF step_start.hyps(2) [unfolded e]] step_start.prems
  proof (elim disjE exE conjE)
    fix c
    assume "i' = i\<lparr>process_handle := Some c\<rparr>" "child_id c \<notin> live w" "live w' = insert (child_id c) (live w)"
    then show ?thesis using t by (simp add: e tracked_def)
  qed (simp add: e tracked_def)
next
  case (step_stop s s')
  obtain i w i' w' where e: "s = (i, w)" "s' = (i', w')" by (cases s; cases s')
  from stop_run [OF step_stop.hyps [unfolded e]] step_stop.prems show ?case
    by (auto simp: e tracked_def)
next
  case (step_snapshot s r s')
  then show ?case using snapshot_tracked by (blast dest: keepsD)
qed

lemma steps_tracked: "(inst_step P)\<^sup>*\<^sup>* s s' \<Longrightarrow> tracked live others s \<Longrightarrow> tracked live others s'"
  by (induction rule: rtranclp_induct) (auto intro: step_tracked)

end

section \<open>A machine with a table of processes\<close>

text \<open>
  A machine on which \<^verbatim>\<open>ptp4l\<close> can be spawned and \<^verbatim>\<open>pmc\<close> gives a fixed reply: the children not yet
  reaped, those of them that have exited, the files and the next identifier.
\<close>

record os_world =
  w_children :: "u32 list"
  w_exited :: "(u32 \<times> exit_status) list"
  w_next :: u32
  w_files :: "string list"
  w_reply :: proc_output

definition no_child :: os_error where
  "no_child = \<lparr>err_kind = KindOther ''Uncategorized'', err_message = ''No child processes''\<rparr>"

definition no_entry :: os_error where
  "no_entry = \<lparr>err_kind = KindNotFound, err_message = ''No such file or directory''\<rparr>"

definition table_os :: "os_world proc_ops" where
  "table_os =
     \<lparr>os_pid = (\<lambda>_. 1000),
      os_create_file = (\<lambda>path w. (Ok (), w\<lparr>w_files := path # removeAll path (w_files w)\<rparr>)),
      os_write_file = (\<lambda>_ _ w. (Ok (), w)),
      os_remove_file = (\<lambda>path w. if path \<in> set (w_files w)
        then (Ok (), w\<lparr>w_files := removeAll path (w_files w)\<rparr>) else (Err no_entry, w)),
      os_spawn = (\<lambda>prog _ w. if prog \<noteq> ''ptp4l'' \<or> w_next w \<in> set (w_children w) then (Err no_entry, w)
        else (Ok \<lparr>child_id = w_next w, child_stdout = True, child_stderr = True\<rparr>,
          w\<lparr>w_children := w_next w # w_children w, w_next := w_next w + 1\<rparr>)),
      os_output = (\<lambda>_ _ w. (Ok (w_reply w), w)),
      os_try_wait = (\<lambda>p w. if p \<notin> set (w_children w) then (Err no_child, w)
        else case map_of (w_exited w) p of
          None \<Rightarrow> (Ok None, w)
        | Some st \<Rightarrow> (Ok (Some st), w\<lparr>w_children := removeAll p (w_children w)\<rparr>)),
      os_kill = (\<lambda>p w. (Ok (), w\<lparr>w_exited := (p, 9) # w_exited w\<rparr>)),
      os_wait = (\<lambda>p w. if p \<notin> set (w_children w) then (Err no_child, w)
        else (Ok 9, w\<lparr>w_children := removeAll p (w_children w)\<rparr>)),
      os_spawn_logger = (\<lambda>_ _ _ w. (Ok (), w))\<rparr>"

definition table_live :: "os_world \<Rightarrow> u32 set" where
  "table_live w = set (w_children w)"

interpretation table: process_table table_os table_live
  by unfold_locales (auto simp: table_os_def table_live_def split: if_splits option.splits)

definition sample_instance :: ptp_instance where
  "sample_instance = \<lparr>inst_name = ''slave'',
     inst_interface = \<lparr>if_name = ''eth0'', if_mac = None, if_up = True\<rparr>, inst_role = SlaveRole,
     config_path = ''/tmp/ptp4l-slave-1000.cfg'', process_handle = None\<rparr>"

definition sample_world :: os_world where
  "sample_world = \<lparr>w_children = [7], w_exited = [], w_next = 10, w_files = [], w_reply =
     \<lparr>out_status = 0, out_stdout = [], out_stderr = []\<rparr>\<rparr>"

definition sample_child :: child where
  "sample_child = \<lparr>child_id = 10, child_stdout = False, child_stderr = False\<rparr>"

lemma sample_start:
  "start table_os (sample_instance, sample_world) =
     (Ok (), (sample_instance\<lparr>process_handle := Some sample_child\<rparr>,
       sample_world\<lparr>w_children := [10, 7], w_next := 11\<rparr>))"
  by (simp add: start_def sbind_def scatch_def attach_log_threads_def spawn_stream_logger_def table_os_def
      sample_instance_def sample_world_def sample_child_def ensure_def)

lemma sample_restart:
  "start table_os (sample_instance\<lparr>process_handle := Some sample_child\<rparr>,
       sample_world\<lparr>w_children := [10, 7], w_next := 11\<rparr>) =
     (Ok (), (sample_instance\<lparr>process_handle := Some (sample_child\<lparr>child_id := 11\<rparr>)\<rparr>,
       sample_world\<lparr>w_children := [11, 10, 7], w_next := 12\<rparr>))"
  by (simp add: start_def sbind_def scatch_def attach_log_threads_def spawn_stream_logger_def table_os_def
      sample_instance_def sample_world_def sample_child_def ensure_def)

section \<open>Properties\<close>



text \<open>Starting an instance that already holds a process only warns: the new child replaces the old
  one, which is neither killed nor reaped, then or when the instance is dropped.\<close>

theorem restart_leaks_child:
  assumes "process_table P live" "process_handle i = Some c" "child_id c \<in> live w"
    and "start P (i, w) = (Ok (), (i', w'))" "drop_instance P (i', w') = (r, (i'', w''))"
  shows "process_handle i' \<noteq> Some c \<and> own_child i' \<inter> live w = {} \<and> child_id c \<in> live w''"
proof -
  from process_table.start_run [OF assms(1,4)] obtain c' where c': "i' = i\<lparr>process_handle := Some c'\<rparr>"
    "child_id c' \<notin> live w" "live w' = insert (child_id c') (live w)" by auto
  moreover have "child_id c' \<noteq> child_id c" using c'(2) assms(3) by metis
  moreover have "live w'' = live w' \<or> live w'' = live w' - own_child i'"
    by (rule process_table.drop_run(1) [OF assms(1,5)])
  ultimately show ?thesis using assms(3) by auto
qed

theorem restart_leaks_child_witness:
  "\<exists>i' w' i'' w''. start table_os (sample_instance\<lparr>process_handle := Some sample_child\<rparr>,
       sample_world\<lparr>w_children := [10, 7], w_next := 11\<rparr>) = (Ok (), (i', w')) \<and>
     drop_instance table_os (i', w') = (Ok (), (i'', w'')) \<and> 10 \<in> table_live w''"
proof -
  let ?i = "sample_instance\<lparr>process_handle := Some sample_child\<rparr>"
    and ?j = "sample_instance\<lparr>process_handle := Some (sample_child\<lparr>child_id := 11\<rparr>)\<rparr>"
  let ?v = "sample_world\<lparr>w_children := [11, 10, 7], w_next := 12\<rparr>"
  obtain i'' w'' where d: "drop_instance table_os (?j, ?v) = (Ok (), (i'', w''))"
    by (simp add: drop_instance_def sbind_def scatch_def table_os_def sample_instance_def sample_world_def
        sample_child_def)
  have "child_id sample_child \<in> table_live w''"
    using restart_leaks_child [OF table.process_table_axioms _ _ sample_restart d, of sample_child]
    by (simp add: sample_child_def table_live_def)
  then show ?thesis using sample_restart d by (auto simp: sample_child_def)
qed

text \<open>C34: That the daemon has exited is reported once, with its status, and clears the handle; every
  query after that, whatever has happened to the machine, says that no process is running and asks
  nothing of it. A query says so only when no process is held.\<close>

theorem process_exit_reported_once:
  assumes "snapshot P (i, w) = (r, (i', w'))"
  shows "(case r of
      Err (ProcessExited st) \<Rightarrow> process_handle i \<noteq> None \<and> i' = i\<lparr>process_handle := None\<rparr> \<and>
        (\<forall>v. snapshot P (i', v) = (Err ProcessNotRunning, (i', v)))
    | Err ProcessNotRunning \<Rightarrow> process_handle i = None \<and> i' = i \<and> w' = w
    | _ \<Rightarrow> process_handle i \<noteq> None \<and> i' = i)"
proof (cases "process_handle i")
  case None
  with assms have "r = Err ProcessNotRunning" "i' = i" "w' = w" by (simp_all add: snapshot_not_running)
  with None show ?thesis by simp
next
  case (Some c)
  from snapshot_checked [OF Some assms] Some show ?thesis
    by (auto simp: checked_def snapshot_not_running split: res.split ptp_query_error.split)
qed

theorem process_exit_reported_once_witness:
  "snapshot table_os (sample_instance\<lparr>process_handle := Some sample_child\<rparr>,
       sample_world\<lparr>w_children := [10, 7], w_exited := [(10, 256)]\<rparr>) =
     (Err (ProcessExited 256), (sample_instance, sample_world\<lparr>w_exited := [(10, 256)]\<rparr>)) \<and>
   (\<forall>v. snapshot table_os (sample_instance, v) = (Err ProcessNotRunning, (sample_instance, v)))"
proof
  let ?i = "sample_instance\<lparr>process_handle := Some sample_child\<rparr>"
  show 1: "snapshot table_os (?i, sample_world\<lparr>w_children := [10, 7], w_exited := [(10, 256)]\<rparr>) =
     (Err (ProcessExited 256), (sample_instance, sample_world\<lparr>w_exited := [(10, 256)]\<rparr>))"
    by (simp add: snapshot_def sbind_def ensure_running table_os_def sample_child_def sample_world_def
        sample_instance_def)
  from process_exit_reported_once [OF 1]
  show "\<forall>v. snapshot table_os (sample_instance, v) = (Err ProcessNotRunning, (sample_instance, v))"
    by simp
qed

lemma is_ascii_simps [simp]:
  "is_ascii []" "is_ascii (c # s) \<longleftrightarrow> (of_char c :: nat) < 128 \<and> is_ascii s"
  "is_ascii (s @ t) \<longleftrightarrow> is_ascii s \<and> is_ascii t" "is_ascii (replicate n CHR '' '')"
  "is_ascii (concat ss) \<longleftrightarrow> list_all is_ascii ss"
  by (auto simp: is_ascii_def list_all_iff)

lemma is_ascii_show [simp]: "is_ascii (show_nat n)" "is_ascii (show_int j)" "is_ascii (show_bool b)"
proof -
  show n: "is_ascii (show_nat n)" for n
    using show_nat_digits [of n] by (auto simp: is_ascii_def list_all_iff is_digit_def Let_def)
  show "is_ascii (show_int j)" "is_ascii (show_bool b)"
    using n by (simp_all add: show_int_def show_bool_def)
qed

lemma snapshot_from_pmc:
  assumes "process_handle i = Some c" "os_try_wait P (child_id c) w = (Ok None, w1)"
    and "os_output P ''pmc'' (pmc_args i) w1 = (Ok out, w2)" "out_status out = 0"
    and "out_stdout out = ascii_bytes t" "is_ascii t" "parse_pmc_output t = Ok s"
  shows "snapshot P (i, w) = (Ok s, (i, w2))"
  using assms by (auto simp: snapshot_Ok from_utf8_ascii exit_success_def)



text \<open>The socket and configuration paths of two instances.\<close>

lemma last_dash: "CHR ''-'' \<notin> set p \<Longrightarrow> CHR ''-'' \<notin> set q \<Longrightarrow> a @ CHR ''-'' # p = b @ CHR ''-'' # q \<Longrightarrow> a = b \<and> p = q"
proof -
  assume p: "CHR ''-'' \<notin> set p" and q: "CHR ''-'' \<notin> set q" and e: "a @ CHR ''-'' # p = b @ CHR ''-'' # q"
  have r: "takeWhile (\<lambda>c. c \<noteq> CHR ''-'') (rev (x @ CHR ''-'' # y)) = rev y" if "CHR ''-'' \<notin> set y" for x y
    using that by (auto simp: takeWhile_tail takeWhile_eq_all_conv)
  from r [OF p, of a] r [OF q, of b] e have "rev p = rev q" by simp
  with e show ?thesis by simp
qed

lemma show_nat_no_dash: "CHR ''-'' \<notin> set (show_nat n)"
  using show_nat_digits [of n] by (auto simp: list_all_iff)

lemma show_nat_inj: "show_nat m = show_nat n \<Longrightarrow> m = n"
  using parse_digits_show_nat by (metis option.inject)

text \<open>Instances of different names, or in different processes, have no control socket in common: neither
  of one's addresses is an address of the other, nor do an instance's own two addresses coincide.\<close>

theorem sockets_disjoint:
  "({uds_address a p, uds_ro_address a p} \<inter> {uds_address b q, uds_ro_address b q} \<noteq> {} \<longleftrightarrow> a = b \<and> p = q) \<and>
   uds_address a p \<noteq> uds_ro_address b q"
proof -
  have main: "a @ ''-'' @ show_nat (unat p) = b @ ''-'' @ show_nat (unat q) \<longleftrightarrow> a = b \<and> p = q"
    using last_dash [OF show_nat_no_dash show_nat_no_dash, of a "unat p" b "unat q"]
    by (auto dest: show_nat_inj simp: word_unat_eq_iff)
  have ro: "uds_address a p \<noteq> uds_ro_address b q" for a p b q
    using last_dash [OF show_nat_no_dash, of "''ro''" "a" "unat p" "b @ ''-'' @ show_nat (unat q)"]
      show_nat_digits [of "unat p"]
    by (auto simp: uds_address_def uds_ro_address_def is_digit_def)
  have "uds_address a p = uds_address b q \<longleftrightarrow> a = b \<and> p = q"
    "uds_ro_address a p = uds_ro_address b q \<longleftrightarrow> a = b \<and> p = q"
    using main by (simp_all add: uds_address_def uds_ro_address_def del: append_assoc add: append_assoc [symmetric])
  with ro ro [symmetric] show ?thesis by blast
qed

end
