(* ===== verification/Network.thy ===== *)
theory Network
  imports PhcClock Instance
begin

text \<open>
  \<^verbatim>\<open>src/bin_utils/network.rs\<close> and \<^verbatim>\<open>csv.rs\<close>: the validation of a network interface with the clock its
  time is taken from, and the writing of CSV files. The interfaces of the machine come from another
  crate, the directories from the kernel.
\<close>

section \<open>Interfaces and clock sources\<close>

record 'w net_env =
  net_interfaces :: "'w \<Rightarrow> network_interface list"
  net_kernel :: "'w kernel"
  net_exists :: "'w \<Rightarrow> string \<Rightarrow> bool"
  net_read_dir :: "'w \<Rightarrow> string \<Rightarrow> string option list option"

datatype clock_source = PtpDevice string | SystemTimeSource

primrec source_open_clock :: "'w kernel \<Rightarrow> clock_source \<Rightarrow> ('w, phc_error, ptp_clock) sys" where
  "source_open_clock K (PtpDevice path) = clock_open K path"
| "source_open_clock K SystemTimeSource = sret SystemTime"

primrec clock_source_display :: "clock_source \<Rightarrow> string" where
  "clock_source_display (PtpDevice path) = path"
| "clock_source_display SystemTimeSource = ''CLOCK_REALTIME''"

datatype interface_validation_error =
    InterfaceNotFound string
  | NoMacAddress string
  | InterfaceDown string
  | PtpOpenFailed string phc_error

datatype validated_interface_error =
    InterfaceInvalid interface_validation_error
  | NoPtpDevice string

definition find_interface :: "'w net_env \<Rightarrow> 'w \<Rightarrow> string \<Rightarrow> network_interface option" where
  "find_interface E w name = find (\<lambda>i. if_name i = name) (net_interfaces E w)"

definition require_interface ::
    "'w net_env \<Rightarrow> string \<Rightarrow> ('w, interface_validation_error, network_interface) sys" where
  "require_interface E name w =
     (rbind (ok_or (InterfaceNotFound name) (find_interface E w name)) (\<lambda>interface.
      rbind (ensure (if_up interface) (InterfaceDown name)) (\<lambda>_.
      Ok interface)), w)"

record validated_interface =
  vi_interface :: network_interface
  vi_clock_source :: clock_source

definition is_absolute :: "string \<Rightarrow> bool" where
  "is_absolute path \<longleftrightarrow> prefix ''/'' path"

definition with_clock_source ::
    "bool \<Rightarrow> 'w net_env \<Rightarrow> string \<Rightarrow> clock_source \<Rightarrow> ('w, validated_interface_error, validated_interface) sys"
  where
  "with_clock_source dbg E name cs =
     sbind (smap_err InterfaceInvalid (require_interface E name)) (\<lambda>interface.
     sbind (slift (ensure (if_mac interface \<noteq> None) (InterfaceInvalid (NoMacAddress name)))) (\<lambda>_.
     sbind (case cs of
         PtpDevice path \<Rightarrow>
           sbind (smap_err (\<lambda>e. InterfaceInvalid (PtpOpenFailed name e)) (source_open_clock (net_kernel E) cs)) (\<lambda>_.
           slift (debug_assert dbg (is_absolute path)))
       | SystemTimeSource \<Rightarrow> sret ()) (\<lambda>_.
     sret \<lparr>vi_interface = interface, vi_clock_source = cs\<rparr>)))"

definition validated_new ::
    "bool \<Rightarrow> 'w net_env \<Rightarrow> string \<Rightarrow> ('w, validated_interface_error, validated_interface) sys" where
  "validated_new dbg E name w =
     sbind (slift (ok_or (NoPtpDevice name)
         (find_ptp_device_for_interface (net_exists E w) (net_read_dir E w) name))) (\<lambda>ptp_device.
     with_clock_source dbg E name (PtpDevice ptp_device)) w"

definition with_explicit_ptp ::
    "bool \<Rightarrow> 'w net_env \<Rightarrow> string \<Rightarrow> string \<Rightarrow> ('w, validated_interface_error, validated_interface) sys" where
  "with_explicit_ptp dbg E name ptp_device = with_clock_source dbg E name (PtpDevice ptp_device)"

definition with_system_time ::
    "bool \<Rightarrow> 'w net_env \<Rightarrow> string \<Rightarrow> ('w, validated_interface_error, validated_interface) sys" where
  "with_system_time dbg E name = with_clock_source dbg E name SystemTimeSource"

definition from_time_args ::
    "bool \<Rightarrow> 'w net_env \<Rightarrow> string \<Rightarrow> string option \<Rightarrow> bool \<Rightarrow>
     ('w, validated_interface_error, validated_interface) sys" where
  "from_time_args dbg E name explicit_ptp use_system_time =
     (if use_system_time then with_system_time dbg E name
      else case explicit_ptp of
        Some path \<Rightarrow> with_explicit_ptp dbg E name path
      | None \<Rightarrow> validated_new dbg E name)"

definition vi_mac_address :: "validated_interface \<Rightarrow> ('e, mac_addr) res" where
  "vi_mac_address v = expect (if_mac (vi_interface v))"

definition vi_open_clock ::
    "'w kernel \<Rightarrow> validated_interface \<Rightarrow> ('w, validated_interface_error, ptp_clock) sys" where
  "vi_open_clock K v =
     smap_err (\<lambda>e. InterfaceInvalid (PtpOpenFailed (if_name (vi_interface v)) e))
       (source_open_clock K (vi_clock_source v))"

section \<open>CSV files\<close>

text \<open>The records of a file, given by the header line of their type and each record's line.\<close>

definition write_csv :: "'w proc_ops \<Rightarrow> string \<Rightarrow> string \<Rightarrow> string list \<Rightarrow> ('w, os_error, unit) sys" where
  "write_csv P path header record_lines =
     sbind (os_create_file P path) (\<lambda>_.
     sbind (os_write_file P path (header @ [newline])) (\<lambda>_.
     sbind (smapM (\<lambda>l. os_write_file P path (l @ [newline])) record_lines) (\<lambda>_.
     sret ())))"

section \<open>What is validated\<close>

lemma find_interface_Some:
  "find_interface E w name = Some i \<Longrightarrow> i \<in> set (net_interfaces E w) \<and> if_name i = name"
  unfolding find_interface_def by (auto simp: find_Some_iff in_set_conv_nth)

text \<open>The clock source that the arguments ask for, if there is one.\<close>

definition requested_source :: "'w net_env \<Rightarrow> 'w \<Rightarrow> string \<Rightarrow> string option \<Rightarrow> bool \<Rightarrow> clock_source option" where
  "requested_source E w name explicit_ptp use_system_time =
     (if use_system_time then Some SystemTimeSource
      else case explicit_ptp of
        Some path \<Rightarrow> Some (PtpDevice path)
      | None \<Rightarrow> map_option PtpDevice (find_ptp_device_for_interface (net_exists E w) (net_read_dir E w) name))"

lemma from_time_args_eq:
  "from_time_args dbg E name explicit_ptp use_system_time w =
     (case requested_source E w name explicit_ptp use_system_time of
        None \<Rightarrow> (Err (NoPtpDevice name), w)
      | Some cs \<Rightarrow> with_clock_source dbg E name cs w)"
  by (auto simp: from_time_args_def requested_source_def with_system_time_def with_explicit_ptp_def
      validated_new_def sbind_def split: option.split)

lemma with_clock_source_eq:
  "with_clock_source dbg E name cs w =
     (case find_interface E w name of
        None \<Rightarrow> (Err (InterfaceInvalid (InterfaceNotFound name)), w)
      | Some i \<Rightarrow>
          (if \<not> if_up i then (Err (InterfaceInvalid (InterfaceDown name)), w)
           else if if_mac i = None then (Err (InterfaceInvalid (NoMacAddress name)), w)
           else case cs of
             SystemTimeSource \<Rightarrow> (Ok \<lparr>vi_interface = i, vi_clock_source = cs\<rparr>, w)
           | PtpDevice path \<Rightarrow>
               (case sys_open (net_kernel E) path w of
                  (Ok d, w') \<Rightarrow>
                    (if dbg \<and> \<not> is_absolute path then Panic else Ok \<lparr>vi_interface = i, vi_clock_source = cs\<rparr>, w')
                | (Err e, w') \<Rightarrow> (Err (InterfaceInvalid (PtpOpenFailed name (OpenDevice path e))), w')
                | (Panic, w') \<Rightarrow> (Panic, w'))))"
  by (cases cs)
    (auto simp: with_clock_source_def require_interface_def sbind_def ensure_def clock_open_def hardware_open_def
      debug_assert_def split: option.split prod.split res.split)

definition single_host :: "unit net_env" where
  "single_host = \<lparr>net_interfaces = (\<lambda>_. [\<lparr>if_name = ''lo'', if_mac = None, if_up = True\<rparr>,
       \<lparr>if_name = ''eth0'', if_mac = Some (MacAddr 2 0 0 0 0 1), if_up = True\<rparr>]),
     net_kernel = \<lparr>sys_open = (\<lambda>path w. (if path = ''/dev/ptp0'' \<or> path = ''ptp0'' then Ok 5 else Err NotFound, w)),
       sys_read_exact = (\<lambda>_ _ w. (Err UnexpectedEof, w)), sys_clock_gettime = (\<lambda>_ w. (Ok (0, 0), w)),
       ptp_clock_getcaps = (\<lambda>_ caps w. (Ok caps, w)), ptp_pin_getfunc = (\<lambda>_ d w. (Ok d, w)),
       ptp_pin_setfunc = (\<lambda>_ _ w. (Ok (), w)), ptp_extts_request = (\<lambda>_ _ w. (Ok (), w)),
       ptp_extts_request2 = (\<lambda>_ _ w. (Ok (), w)), ptp_perout_request = (\<lambda>_ _ w. (Ok (), w)),
       ptp_perout_request2 = (\<lambda>_ _ w. (Ok (), w))\<rparr>,
     net_exists = (\<lambda>_ _. False), net_read_dir = (\<lambda>_ _. None)\<rparr>"

text \<open>C40: Validation succeeds only for an interface of the machine with the requested name that is up, has a
  MAC address, so that asking for it never panics, and whose clock source is the requested one and can be
  opened by the very call that was made. Each error names what is missing, and a panic means that the
  build is a debug build and a relative device path was opened.\<close>

theorem validated_interface_outcome:
  assumes "from_time_args dbg E name explicit_ptp use_system_time w = (r, w')"
  shows "case r of
      Ok v \<Rightarrow> vi_interface v \<in> set (net_interfaces E w) \<and> if_name (vi_interface v) = name \<and>
        if_up (vi_interface v) \<and> (\<exists>m. vi_mac_address v = (Ok m :: (unit, _) res)) \<and>
        requested_source E w name explicit_ptp use_system_time = Some (vi_clock_source v) \<and>
        (\<exists>c. source_open_clock (net_kernel E) (vi_clock_source v) w = (Ok c, w'))
    | Err (NoPtpDevice n) \<Rightarrow> n = name \<and> requested_source E w name explicit_ptp use_system_time = None
    | Err (InterfaceInvalid (InterfaceNotFound n)) \<Rightarrow> n = name \<and> find_interface E w name = None
    | Err (InterfaceInvalid (InterfaceDown n)) \<Rightarrow> n = name \<and> (\<exists>i. find_interface E w name = Some i \<and> \<not> if_up i)
    | Err (InterfaceInvalid (NoMacAddress n)) \<Rightarrow> n = name \<and> (\<exists>i. find_interface E w name = Some i \<and> if_mac i = None)
    | Err (InterfaceInvalid (PtpOpenFailed n e)) \<Rightarrow>
        n = name \<and> (\<exists>path. requested_source E w name explicit_ptp use_system_time = Some (PtpDevice path) \<and>
          source_open_clock (net_kernel E) (PtpDevice path) w = (Err e, w'))
    | Panic \<Rightarrow> \<exists>path. requested_source E w name explicit_ptp use_system_time = Some (PtpDevice path) \<and>
        (fst (sys_open (net_kernel E) path w) = Panic \<or> dbg \<and> \<not> is_absolute path)"
  using assms
  by (auto simp: from_time_args_eq with_clock_source_eq vi_mac_address_def clock_open_def hardware_open_def
      sbind_def dest: find_interface_Some split: option.splits prod.splits res.splits if_splits clock_source.splits)

theorem validated_interface_outcome_witness:
  "(case from_time_args True single_host ''eth0'' (Some ''/dev/ptp0'') False () of
      (Ok v, _) \<Rightarrow> vi_mac_address v = (Ok (MacAddr 2 0 0 0 0 1) :: (unit, _) res) | _ \<Rightarrow> False) \<and>
   fst (from_time_args True single_host ''eth0'' (Some ''ptp0'') False ()) = Panic \<and>
   fst (from_time_args False single_host ''lo'' (Some ''/dev/ptp0'') False ()) =
     Err (InterfaceInvalid (NoMacAddress ''lo'')) \<and>
   find_interface single_host () ''eth1'' = None"
proof -
  have "from_time_args True single_host ''eth1'' None True () = (Err (InterfaceInvalid (InterfaceNotFound ''eth1'')), ())"
    by (simp add: from_time_args_eq with_clock_source_eq requested_source_def find_interface_def single_host_def)
  from validated_interface_outcome [OF this] have n: "find_interface single_host () ''eth1'' = None" by simp
  show ?thesis
    by (intro conjI n) (simp_all add: from_time_args_eq with_clock_source_eq requested_source_def
        find_interface_def single_host_def vi_mac_address_def is_absolute_def)
qed

end
