(* ===== verification/Monitor.thy ===== *)
theory Monitor
  imports Instance
begin

text \<open>
  \<^verbatim>\<open>src/bin/ptp-syncd.rs\<close>: the daemon that runs a master and a slave instance, waits for the slave to
  synchronise and then watches both. Each handler reads the clock at most once, so the instant is an
  argument; what is logged is a list of levels and messages.
\<close>

section \<open>State\<close>

text \<open>Instants are nanoseconds of the monotonic clock.\<close>

type_synonym instant = nat

definition unsynchronized_poll_interval :: duration where
  "unsynchronized_poll_interval = 1 * nsec_per_sec"

definition synchronized_poll_interval :: duration where
  "synchronized_poll_interval = 5 * nsec_per_sec"

definition degraded_status_log_interval :: duration where
  "degraded_status_log_interval = 10 * nsec_per_sec"

datatype slave_sync_state = SyncUnknown | Unsynchronized | Synchronized

record monitor_state =
  slave_sync :: slave_sync_state
  last_slave_port_state :: "port_state option"
  last_slave_pending_log :: "instant option"
  last_slave_unsync_log :: "instant option"
  last_slave_process_down_log :: "instant option"
  last_master_port_state :: "port_state option"
  last_master_pending_log :: "instant option"
  last_master_process_down_log :: "instant option"

definition monitor_default :: monitor_state where
  "monitor_default =
     \<lparr>slave_sync = SyncUnknown, last_slave_port_state = None, last_slave_pending_log = None,
      last_slave_unsync_log = None, last_slave_process_down_log = None, last_master_port_state = None,
      last_master_pending_log = None, last_master_process_down_log = None\<rparr>"

section \<open>Messages\<close>

datatype level = Debug | Info | Warn | Error

datatype message =
    SlaveReachable | SlaveTemporarilyUnavailable string | SlaveNotReady string
  | SlaveExited exit_status | SlaveRemainsDown exit_status | SlaveNotRunning | SlaveFailed ptp_query_error
  | SlaveAvailable | SlaveNowSynchronized | InitialSync | SyncOffset int string
  | SlaveStateChanged "port_state option" port_state | SlaveStateUnexpected "port_state option" port_state
  | SlaveNotSynchronized port_state | SlaveRemainsUnexpected port_state | SlaveRemainsUnsync port_state
  | UnexpectedWhileWaiting port_state | WaitingForSync port_state
  | MasterReachable | MasterAvailable | MasterStateChanged port_state port_state
  | MasterStateUnexpected port_state port_state | MasterInitialUnexpected port_state
  | MasterInitialState port_state | MasterUnavailable string | MasterNotReady string
  | MasterStillUnavailable string | MasterStillNotReady string | MasterExited exit_status
  | MasterNotRunning | MasterNotRunningStatus exit_status | MasterFailed ptp_query_error
  | StopFailed string os_error

type_synonym log = "level \<times> message"

section \<open>Slave snapshots\<close>

definition should_emit_periodic :: "instant \<Rightarrow> instant option \<Rightarrow> duration \<Rightarrow> bool \<times> instant option" where
  "should_emit_periodic now last_emitted interval =
     (case last_emitted of
        Some previous \<Rightarrow> if now - previous < interval then (False, last_emitted) else (True, Some now)
      | None \<Rightarrow> (True, Some now))"

definition log_synchronized_slave_state_change :: "port_state \<Rightarrow> port_state option \<Rightarrow> log list" where
  "log_synchronized_slave_state_change current_state previous_state =
     [(Debug, SlaveStateChanged previous_state current_state)]"

definition on_synchronized_slave_snapshot ::
    "ptp_snapshot \<Rightarrow> bool \<Rightarrow> port_state \<Rightarrow> port_state option \<Rightarrow> bool \<Rightarrow> monitor_state \<Rightarrow> monitor_state \<times> log list"
  where
  "on_synchronized_slave_snapshot s warn_on_unsync current_state previous_state state_changed m =
     (let offset = (case offset_ns s of Some x \<Rightarrow> x | None \<Rightarrow> 0);
          l1 = (if slave_sync m \<noteq> Synchronized
                then [(Info, if warn_on_unsync then SlaveNowSynchronized else InitialSync)] else []);
          (m, l2) = (if state_changed
             then (m\<lparr>last_slave_port_state := Some current_state\<rparr>,
               log_synchronized_slave_state_change current_state previous_state)
             else (m, if warn_on_unsync then [(Debug, SyncOffset offset (gm_identity (time_status s)))] else [])) in
      (m\<lparr>slave_sync := Synchronized, last_slave_unsync_log := None\<rparr>, l1 @ l2))"

definition log_unsynchronized_slave_status ::
    "instant \<Rightarrow> bool \<Rightarrow> port_state \<Rightarrow> bool \<Rightarrow> bool \<Rightarrow> monitor_state \<Rightarrow> monitor_state \<times> log list" where
  "log_unsynchronized_slave_status now warn_on_unsync current_state unexpected_state state_changed m =
     (if unexpected_state \<and> state_changed then (m, [])
      else if warn_on_unsync \<and> slave_sync m = Synchronized then
        (m\<lparr>last_slave_unsync_log := Some now\<rparr>, [(Warn, SlaveNotSynchronized current_state)])
      else
        let (emit, m) = (if warn_on_unsync
           then (case should_emit_periodic now (last_slave_unsync_log m) degraded_status_log_interval of
                   (emit, l) \<Rightarrow> (emit, m\<lparr>last_slave_unsync_log := l\<rparr>))
           else (False, m)) in
        if emit then
          (m, [if unexpected_state then (Warn, SlaveRemainsUnexpected current_state)
               else (Debug, SlaveRemainsUnsync current_state)])
        else if \<not> warn_on_unsync \<and> slave_sync m \<noteq> Unsynchronized then
          (m, [if unexpected_state then (Warn, UnexpectedWhileWaiting current_state)
               else (Debug, WaitingForSync current_state)])
        else (m, []))"

definition log_unsynchronized_slave_state_change :: "port_state option \<Rightarrow> port_state \<Rightarrow> bool \<Rightarrow> log list" where
  "log_unsynchronized_slave_state_change previous_state current_state unexpected_state =
     [if unexpected_state then (Warn, SlaveStateUnexpected previous_state current_state)
      else (Debug, SlaveStateChanged previous_state current_state)]"

definition on_unsynchronized_slave_snapshot ::
    "instant \<Rightarrow> bool \<Rightarrow> port_state \<Rightarrow> port_state option \<Rightarrow> bool \<Rightarrow> monitor_state \<Rightarrow> monitor_state \<times> log list" where
  "on_unsynchronized_slave_snapshot now warn_on_unsync current_state previous_state state_changed m =
     (let unexpected_state = is_unexpected_for_slave current_state;
          (m, l1) = log_unsynchronized_slave_status now warn_on_unsync current_state unexpected_state state_changed m;
          (m, l2) = (if state_changed
             then (m\<lparr>last_slave_port_state := Some current_state\<rparr>,
               log_unsynchronized_slave_state_change previous_state current_state unexpected_state)
             else (m, [])) in
      (m\<lparr>slave_sync := Unsynchronized\<rparr>, l1 @ l2))"

definition on_slave_snapshot ::
    "instant \<Rightarrow> ptp_snapshot \<Rightarrow> bool \<Rightarrow> monitor_state \<Rightarrow> bool \<times> monitor_state \<times> log list" where
  "on_slave_snapshot now s warn_on_unsync m =
     (let (m, l0) = (if last_slave_pending_log m \<noteq> None
             then (m\<lparr>last_slave_pending_log := None\<rparr>, [(Debug, SlaveAvailable)]) else (m, []));
          current_state = port_state (port_data s);
          previous_state = last_slave_port_state m;
          state_changed = (previous_state \<noteq> Some current_state) in
      if is_synchronized s then
        (case on_synchronized_slave_snapshot s warn_on_unsync current_state previous_state state_changed m of
           (m, l) \<Rightarrow> (True, m, l0 @ l))
      else
        (case on_unsynchronized_slave_snapshot now warn_on_unsync current_state previous_state state_changed m of
           (m, l) \<Rightarrow> (False, m, l0 @ l)))"

text \<open>The arms of the \<^verbatim>\<open>match\<close> of \<^verbatim>\<open>handle_slave_snapshot\<close>. The two for a daemon that is down share one form.\<close>

definition slave_reachable :: "monitor_state \<Rightarrow> monitor_state \<times> log list" where
  "slave_reachable m =
     (m\<lparr>last_slave_process_down_log := None\<rparr>,
      if last_slave_process_down_log m \<noteq> None then [(Info, SlaveReachable)] else [])"

definition slave_down :: "instant \<Rightarrow> message \<Rightarrow> message \<Rightarrow> monitor_state \<Rightarrow> monitor_state \<times> log list" where
  "slave_down now first_message later_message m =
     (let m = m\<lparr>last_slave_pending_log := None, slave_sync := Unsynchronized\<rparr> in
      if last_slave_process_down_log m = None
      then (m\<lparr>last_slave_process_down_log := Some now\<rparr>, [(Error, first_message)])
      else
        case should_emit_periodic now (last_slave_process_down_log m) degraded_status_log_interval of
          (emit, l) \<Rightarrow>
            (m\<lparr>last_slave_process_down_log := l\<rparr>, if emit then [(Warn, later_message)] else []))"

definition slave_not_ready :: "instant \<Rightarrow> string \<Rightarrow> bool \<Rightarrow> monitor_state \<Rightarrow> monitor_state \<times> log list" where
  "slave_not_ready now dataset warn_on_unsync m =
     (let l = (if warn_on_unsync \<and> slave_sync m = Synchronized \<and> last_slave_pending_log m = None
                then [(Warn, SlaveTemporarilyUnavailable dataset)]
                else if last_slave_pending_log m = None then [(Debug, SlaveNotReady dataset)] else []) in
      (m\<lparr>last_slave_pending_log :=
          (case last_slave_pending_log m of Some t \<Rightarrow> Some t | None \<Rightarrow> Some now)\<rparr>, l))"

definition on_slave_error ::
    "instant \<Rightarrow> ptp_query_error \<Rightarrow> bool \<Rightarrow> monitor_state \<Rightarrow> monitor_state \<times> log list" where
  "on_slave_error now e warn_on_unsync m =
     (case e of
        NotReady dataset \<Rightarrow>
          (let (m, l1) = slave_reachable m; (m, l2) = slave_not_ready now dataset warn_on_unsync m in (m, l1 @ l2))
      | ProcessExited status \<Rightarrow> slave_down now (SlaveExited status) (SlaveRemainsDown status) m
      | ProcessNotRunning \<Rightarrow> slave_down now SlaveNotRunning SlaveNotRunning m
      | _ \<Rightarrow> (m\<lparr>last_slave_process_down_log := None, last_slave_pending_log := None\<rparr>, [(Error, SlaveFailed e)]))"

definition on_slave_result ::
    "instant \<Rightarrow> ptp_query_error + ptp_snapshot \<Rightarrow> bool \<Rightarrow> monitor_state \<Rightarrow> bool \<times> monitor_state \<times> log list" where
  "on_slave_result now r warn_on_unsync m =
     (case r of
        Inr s \<Rightarrow>
          (let (m, l1) = slave_reachable m; (b, m, l2) = on_slave_snapshot now s warn_on_unsync m in (b, m, l1 @ l2))
      | Inl e \<Rightarrow> (case on_slave_error now e warn_on_unsync m of (m, l) \<Rightarrow> (False, m, l)))"

section \<open>Master snapshots\<close>

definition master_reachable :: "monitor_state \<Rightarrow> monitor_state \<times> log list" where
  "master_reachable m =
     (m\<lparr>last_master_process_down_log := None\<rparr>,
      if last_master_process_down_log m \<noteq> None then [(Info, MasterReachable)] else [])"

definition on_master_snapshot_ok :: "ptp_snapshot \<Rightarrow> monitor_state \<Rightarrow> monitor_state \<times> log list" where
  "on_master_snapshot_ok s m =
     (let (m, l1) = master_reachable m;
          (m, l2) = (if last_master_pending_log m \<noteq> None
             then (m\<lparr>last_master_pending_log := None\<rparr>, [(Debug, MasterAvailable)]) else (m, []));
          current_state = port_state (port_data s);
          unexpected_state = is_unexpected_for_master current_state;
          l3 = (case last_master_port_state m of
             Some previous_state \<Rightarrow>
               if previous_state \<noteq> current_state then
                 [if unexpected_state then (Warn, MasterStateUnexpected previous_state current_state)
                  else (Debug, MasterStateChanged previous_state current_state)]
               else []
           | None \<Rightarrow>
               [if unexpected_state then (Warn, MasterInitialUnexpected current_state)
                else (Debug, MasterInitialState current_state)]) in
      (m\<lparr>last_master_port_state := Some current_state\<rparr>, l1 @ l2 @ l3))"

definition on_master_snapshot_not_ready :: "instant \<Rightarrow> string \<Rightarrow> monitor_state \<Rightarrow> monitor_state \<times> log list" where
  "on_master_snapshot_not_ready now dataset m =
     (let (m, l1) = master_reachable m; seen = (last_master_port_state m \<noteq> None) in
      if last_master_pending_log m = None then
        (m\<lparr>last_master_pending_log := Some now\<rparr>,
         l1 @ [if seen then (Warn, MasterUnavailable dataset) else (Debug, MasterNotReady dataset)])
      else
        case should_emit_periodic now (last_master_pending_log m) degraded_status_log_interval of
          (emit, l) \<Rightarrow>
            (m\<lparr>last_master_pending_log := l\<rparr>,
             l1 @ (if emit then [if seen then (Warn, MasterStillUnavailable dataset)
                                 else (Debug, MasterStillNotReady dataset)] else [])))"

definition on_master_process_down ::
    "instant \<Rightarrow> exit_status option \<Rightarrow> monitor_state \<Rightarrow> monitor_state \<times> log list" where
  "on_master_process_down now status m =
     (let m = m\<lparr>last_master_pending_log := None\<rparr> in
      if last_master_process_down_log m = None then
        (m\<lparr>last_master_process_down_log := Some now\<rparr>,
         [(Error, case status of Some st \<Rightarrow> MasterExited st | None \<Rightarrow> MasterNotRunning)])
      else
        case should_emit_periodic now (last_master_process_down_log m) degraded_status_log_interval of
          (emit, l) \<Rightarrow>
            (m\<lparr>last_master_process_down_log := l\<rparr>,
             if emit then [(Warn, case status of Some st \<Rightarrow> MasterNotRunningStatus st | None \<Rightarrow> MasterNotRunning)]
             else []))"

definition on_master_result ::
    "instant \<Rightarrow> ptp_query_error + ptp_snapshot \<Rightarrow> monitor_state \<Rightarrow> monitor_state \<times> log list" where
  "on_master_result now r m =
     (case r of
        Inr s \<Rightarrow> on_master_snapshot_ok s m
      | Inl e \<Rightarrow>
          (case e of
             NotReady dataset \<Rightarrow> on_master_snapshot_not_ready now dataset m
           | ProcessExited status \<Rightarrow> on_master_process_down now (Some status) m
           | ProcessNotRunning \<Rightarrow> on_master_process_down now None m
           | _ \<Rightarrow> (m\<lparr>last_master_process_down_log := None, last_master_pending_log := None\<rparr>,
                   [(Error, MasterFailed e)])))"

section \<open>What the state of the slave reflects\<close>

text \<open>A run of the slave's handler over successive results, each with its instant and its mode.\<close>

type_synonym slave_result = "instant \<times> (ptp_query_error + ptp_snapshot) \<times> bool"

definition slave_step :: "slave_result \<Rightarrow> monitor_state \<Rightarrow> monitor_state" where
  "slave_step x m = (case x of (now, r, warn_on_unsync) \<Rightarrow> fst (snd (on_slave_result now r warn_on_unsync m)))"

definition run_slave :: "slave_result list \<Rightarrow> monitor_state \<Rightarrow> monitor_state" where
  "run_slave = fold slave_step"

text \<open>What a result says about synchronisation, if anything.\<close>

definition verdict :: "ptp_query_error + ptp_snapshot \<Rightarrow> slave_sync_state option" where
  "verdict r =
     (case r of
        Inr s \<Rightarrow> Some (if port_state (port_data s) = Slave then Synchronized else Unsynchronized)
      | Inl e \<Rightarrow>
          (case e of ProcessExited _ \<Rightarrow> Some Unsynchronized | ProcessNotRunning \<Rightarrow> Some Unsynchronized
           | _ \<Rightarrow> None))"

lemma slave_step_sync:
  "slave_sync (slave_step (now, r, warn) m) = (case verdict r of Some v \<Rightarrow> v | None \<Rightarrow> slave_sync m)"
proof (cases r)
  case (Inl e)
  then show ?thesis
    by (cases e) (auto simp: slave_step_def on_slave_result_def on_slave_error_def verdict_def slave_down_def
        slave_reachable_def slave_not_ready_def Let_def split: prod.split)
next
  case (Inr s)
  then show ?thesis
    by (auto simp: slave_step_def on_slave_result_def verdict_def on_slave_snapshot_def is_synchronized_def
        on_synchronized_slave_snapshot_def on_unsynchronized_slave_snapshot_def Let_def split: prod.split)
qed

lemma slave_result_value: "fst (on_slave_result now r warn m) \<longleftrightarrow> verdict r = Some Synchronized"
  by (cases r) (auto simp: on_slave_result_def on_slave_snapshot_def is_synchronized_def verdict_def Let_def
      split: prod.split ptp_query_error.split)

section \<open>Outages\<close>

definition is_down :: "ptp_query_error \<Rightarrow> bool" where
  "is_down e \<longleftrightarrow> e = ProcessNotRunning \<or> (\<exists>st. e = ProcessExited st)"

text \<open>What is logged while every query fails because the daemon is down, with the instants.\<close>

primrec outage_log :: "(instant \<times> ptp_query_error) list \<Rightarrow> bool \<Rightarrow> monitor_state \<Rightarrow> (instant \<times> level) list" where
  "outage_log [] warn m = []"
| "outage_log (x # xs) warn m =
     (case on_slave_result (fst x) (Inl (snd x)) warn m of
        (_, m', l) \<Rightarrow> map (\<lambda>y. (fst x, fst y)) l @ outage_log xs warn m')"

lemma down_step:
  assumes "is_down e"
  obtains m' l where "on_slave_result now (Inl e) warn m = (False, m', l)"
    "case last_slave_process_down_log m of
       None \<Rightarrow> last_slave_process_down_log m' = Some now \<and> map fst l = [Error]
     | Some u \<Rightarrow> if now - u < degraded_status_log_interval
         then last_slave_process_down_log m' = Some u \<and> l = []
         else last_slave_process_down_log m' = Some now \<and> map fst l = [Warn]"
proof (rule that)
  show "on_slave_result now (Inl e) warn m =
      (False, fst (on_slave_error now e warn m), snd (on_slave_error now e warn m))"
    by (simp add: on_slave_result_def split: prod.split)
qed (use assms in \<open>auto simp: is_down_def on_slave_error_def slave_down_def should_emit_periodic_def Let_def
      split: option.split\<close>)

lemma outage_log_after:
  assumes "\<forall>x\<in>set xs. is_down (snd x)" "last_slave_process_down_log m = Some u"
    "sorted_wrt (\<le>) (u # map fst xs)"
  shows "(\<forall>y\<in>set (outage_log xs warn m). snd y = Warn) \<and>
    sorted_wrt (\<lambda>s t. s + degraded_status_log_interval \<le> t) (u # map fst (outage_log xs warn m)) \<and>
    (\<forall>x\<in>set xs. \<exists>t\<in>set (u # map fst (outage_log xs warn m)). t \<le> fst x \<and> fst x < t + degraded_status_log_interval)"
  using assms
proof (induction xs arbitrary: m u)
  case (Cons x xs)
  obtain m' l where s: "on_slave_result (fst x) (Inl (snd x)) warn m = (False, m', l)"
    "if fst x - u < degraded_status_log_interval
         then last_slave_process_down_log m' = Some u \<and> l = []
         else last_slave_process_down_log m' = Some (fst x) \<and> map fst l = [Warn]"
    using down_step [of "snd x" "fst x" warn m] Cons.prems(1,2) by auto
  have le: "u \<le> fst x" using Cons.prems(3) by simp
  show ?case
  proof (cases "fst x - u < degraded_status_log_interval")
    case True
    with s Cons.IH [of m' u] Cons.prems le show ?thesis by auto
  next
    case False
    then have "map (\<lambda>y. (fst x, fst y)) l = [(fst x, Warn)]" using s(2) by (cases l) auto
    with False s Cons.IH [of m' "fst x"] Cons.prems le show ?thesis
      by (auto simp: not_less degraded_status_log_interval_def)
  qed
qed simp

section \<open>Properties\<close>

text \<open>C37: What the monitor believes of the slave is what the last result that says anything about it said: a
  snapshot, by its port state, or the end of its process. Incomplete answers and other failures change
  nothing, and before the first such result nothing is believed. A handler reports synchronisation
  exactly when its own result is a synchronised snapshot.\<close>

theorem sync_state_reflects_last:
  "slave_sync (run_slave rs monitor_default) =
     (case find (\<lambda>v. v \<noteq> None) (rev (map (\<lambda>(_, r, _). verdict r) rs)) of
        Some v \<Rightarrow> the v | None \<Rightarrow> SyncUnknown) \<and>
   fst (on_slave_result now r warn m) = (verdict r = Some Synchronized)"
proof
  show "fst (on_slave_result now r warn m) = (verdict r = Some Synchronized)" by (rule slave_result_value)
  show "slave_sync (run_slave rs monitor_default) =
     (case find (\<lambda>v. v \<noteq> None) (rev (map (\<lambda>(_, r, _). verdict r) rs)) of
        Some v \<Rightarrow> the v | None \<Rightarrow> SyncUnknown)"
  proof (induction rs rule: rev_induct)
    case Nil
    show ?case by (simp add: run_slave_def monitor_default_def)
  next
    case (snoc x rs)
    then show ?case
      by (cases x) (auto simp: run_slave_def slave_step_sync split: option.split)
  qed
qed

text \<open>C38: An outage is logged once as an error, when it is noticed, and then as warnings that are at least ten
  seconds apart, whatever the polling rate; and at every poll the last message is less than ten seconds
  old, so that the log never falls silent.\<close>

theorem outage_log_spaced:
  assumes "\<forall>x\<in>set xs. is_down (snd x)" "last_slave_process_down_log m = None" "sorted_wrt (\<le>) (map fst xs)"
    and "xs \<noteq> []"
  shows "\<exists>ws. outage_log xs warn m = (fst (xs ! 0), Error) # ws \<and> (\<forall>y\<in>set ws. snd y = Warn) \<and>
    sorted_wrt (\<lambda>s t. s + degraded_status_log_interval \<le> t) (map fst (outage_log xs warn m)) \<and>
    (\<forall>x\<in>set xs. \<exists>t\<in>set (map fst (outage_log xs warn m)). t \<le> fst x \<and> fst x < t + degraded_status_log_interval)"
proof -
  obtain x ys where x: "xs = x # ys" using assms(4) by (cases xs) auto
  obtain m' l where s: "on_slave_result (fst x) (Inl (snd x)) warn m = (False, m', l)"
    "last_slave_process_down_log m' = Some (fst x)" "map fst l = [Error]"
    by (rule down_step [of "snd x" "fst x" warn m]) (use assms(1,2) x in auto)
  then have "map (\<lambda>y. (fst x, fst y)) l = [(fst x, Error)]" by (cases l) auto
  with s x have e: "outage_log xs warn m = (fst x, Error) # outage_log ys warn m'" by simp
  from outage_log_after [of ys m' "fst x" warn] assms(1,3) s(2) x show ?thesis
    unfolding e by (auto simp: degraded_status_log_interval_def)
qed

theorem outage_log_spaced_witness:
  "outage_log [(5, ProcessExited 256), (1000000005, ProcessNotRunning), (12000000000, ProcessNotRunning)] True
     monitor_default = [(5, Error), (12000000000, Warn)]"
proof -
  have "\<exists>ws. outage_log [(5, ProcessExited 256), (1000000005, ProcessNotRunning), (12000000000, ProcessNotRunning)] True
     monitor_default = (5, Error) # ws \<and> (\<forall>y\<in>set ws. snd y = Warn)"
    using outage_log_spaced [of "[(5, ProcessExited 256), (1000000005, ProcessNotRunning), (12000000000, ProcessNotRunning)]"
        monitor_default True]
    by (auto simp: is_down_def monitor_default_def)
  then show ?thesis
    by (simp add: on_slave_result_def on_slave_error_def slave_down_def should_emit_periodic_def monitor_default_def
        degraded_status_log_interval_def)
qed

end
