(* ===== verification/Daemon.thy ===== *)
theory Daemon
  imports Monitor Network
begin

text \<open>
  \<^verbatim>\<open>src/bin/ptp-syncd.rs\<close>, its two loops and \<^verbatim>\<open>main\<close>: the daemon's state is its two instances, the monitor
  state, what has been logged and the machine. Interrupts set the shared flag at any moment: reading
  it, like reading the clock, is a function of the machine, which every call and every sleep changes.
\<close>

section \<open>Handlers\<close>

record 'w daemon_env =
  env_os :: "'w proc_ops"
  env_running :: "'w \<Rightarrow> bool"
  env_now :: "'w \<Rightarrow> instant"
  env_sleep :: "duration \<Rightarrow> 'w \<Rightarrow> 'w"

record 'w daemon =
  d_master :: ptp_instance
  d_slave :: ptp_instance
  d_monitor :: monitor_state
  d_logs :: "log list"
  d_world :: 'w

definition handle_slave_snapshot :: "'w daemon_env \<Rightarrow> bool \<Rightarrow> ('w daemon, unit, bool) sys" where
  "handle_slave_snapshot E warn_on_unsync d =
     (case snapshot (env_os E) (d_slave d, d_world d) of (r, (i, w)) \<Rightarrow>
      let d = d\<lparr>d_slave := i, d_world := w\<rparr>;
          finish = (\<lambda>x. case on_slave_result (env_now E w) x warn_on_unsync (d_monitor d) of
             (b, m, l) \<Rightarrow> (Ok b, d\<lparr>d_monitor := m, d_logs := d_logs d @ l\<rparr>)) in
      case r of Ok s \<Rightarrow> finish (Inr s) | Err e \<Rightarrow> finish (Inl e) | Panic \<Rightarrow> (Panic, d))"

definition handle_master_snapshot :: "'w daemon_env \<Rightarrow> ('w daemon, unit, unit) sys" where
  "handle_master_snapshot E d =
     (case snapshot (env_os E) (d_master d, d_world d) of (r, (i, w)) \<Rightarrow>
      let d = d\<lparr>d_master := i, d_world := w\<rparr>;
          finish = (\<lambda>x. case on_master_result (env_now E w) x (d_monitor d) of
             (m, l) \<Rightarrow> (Ok (), d\<lparr>d_monitor := m, d_logs := d_logs d @ l\<rparr>)) in
      case r of Ok s \<Rightarrow> finish (Inr s) | Err e \<Rightarrow> finish (Inl e) | Panic \<Rightarrow> (Panic, d))"

definition poll :: "'w daemon_env \<Rightarrow> bool \<Rightarrow> ('w daemon, unit, bool) sys" where
  "poll E warn_on_unsync =
     sbind (handle_slave_snapshot E warn_on_unsync) (\<lambda>slave_synchronized.
     sbind (handle_master_snapshot E) (\<lambda>_. sret slave_synchronized))"

definition pause :: "'w daemon_env \<Rightarrow> duration \<Rightarrow> 'w daemon \<Rightarrow> 'w daemon" where
  "pause E t d = d\<lparr>d_world := env_sleep E t (d_world d)\<rparr>"

section \<open>The two loops\<close>

text \<open>None is the loop that never ends.\<close>

partial_function (option) wait_for_initial_sync ::
    "'w daemon_env \<Rightarrow> 'w daemon \<Rightarrow> ((unit, bool) res \<times> 'w daemon) option" where
  "wait_for_initial_sync E d =
     (if \<not> env_running E (d_world d) then Some (Ok False, d)
      else case poll E False d of (r, d') \<Rightarrow>
        if r = Ok True then Some (Ok True, d')
        else if r = Ok False then wait_for_initial_sync E (pause E unsynchronized_poll_interval d')
        else Some (r, d'))"

definition poll_interval :: "bool \<Rightarrow> duration" where
  "poll_interval slave_synchronized =
     (if slave_synchronized then synchronized_poll_interval else unsynchronized_poll_interval)"

partial_function (option) monitor_loop ::
    "'w daemon_env \<Rightarrow> 'w daemon \<Rightarrow> ((unit, unit) res \<times> 'w daemon) option" where
  "monitor_loop E d =
     (if \<not> env_running E (d_world d) then Some (Ok (), d)
      else case poll E True d of (r, d') \<Rightarrow>
        (case r of
           Ok slave_synchronized \<Rightarrow> monitor_loop E (pause E (poll_interval slave_synchronized) d')
         | _ \<Rightarrow> Some (Panic, d')))"

section \<open>Start and shutdown\<close>

definition stop_master :: "'w daemon_env \<Rightarrow> 'w daemon \<Rightarrow> 'w daemon" where
  "stop_master E d =
     (case stop (env_os E) (d_master d, d_world d) of (r, (i, w)) \<Rightarrow>
      d\<lparr>d_master := i, d_world := w,
        d_logs := d_logs d @ (case r of Err e \<Rightarrow> [(Error, StopFailed ''master'' e)] | _ \<Rightarrow> [])\<rparr>)"

definition stop_slave :: "'w daemon_env \<Rightarrow> 'w daemon \<Rightarrow> 'w daemon" where
  "stop_slave E d =
     (case stop (env_os E) (d_slave d, d_world d) of (r, (i, w)) \<Rightarrow>
      d\<lparr>d_slave := i, d_world := w,
        d_logs := d_logs d @ (case r of Err e \<Rightarrow> [(Error, StopFailed ''slave'' e)] | _ \<Rightarrow> [])\<rparr>)"

text \<open>At the end of \<^verbatim>\<open>main\<close> the slave is dropped first, being declared last.\<close>

definition drop_both :: "'w daemon_env \<Rightarrow> 'w daemon \<Rightarrow> 'w" where
  "drop_both E d =
     (case drop_instance (env_os E) (d_slave d, d_world d) of (_, (_, w)) \<Rightarrow>
      case drop_instance (env_os E) (d_master d, w) of (_, (_, w')) \<Rightarrow> w')"

text \<open>
  How \<^verbatim>\<open>main\<close> ends: it returns, after which its instances are dropped; or it is \<^verbatim>\<open>fatal\<close>, which exits the
  process at once, with nothing dropped; or a panic unwinds it.
\<close>

datatype 'w main_end = Returned 'w | Fatal string 'w | Panicked 'w

definition main_loops :: "'w daemon_env \<Rightarrow> 'w daemon \<Rightarrow> 'w main_end option" where
  "main_loops E d =
     (case wait_for_initial_sync E d of
        None \<Rightarrow> None
      | Some (r, d) \<Rightarrow>
          (case r of
             Ok synchronized \<Rightarrow>
               (if \<not> synchronized then Some (Returned (drop_both E (stop_slave E (stop_master E d))))
                else case monitor_loop E d of
                  None \<Rightarrow> None
                | Some (r, d) \<Rightarrow>
                    (case r of
                       Ok _ \<Rightarrow> Some (Returned (drop_both E (stop_slave E (stop_master E d))))
                     | _ \<Rightarrow> Some (Panicked (drop_both E d))))
           | _ \<Rightarrow> Some (Panicked (drop_both E d))))"

text \<open>
  The start: an error is \<^verbatim>\<open>fatal\<close>, here with the step that failed. Installing the interrupt handler, which
  is another crate's, can fail too.
\<close>

definition on_instance :: "('w, 'e, unit) inst_op \<Rightarrow> ptp_instance \<Rightarrow> ('w, 'e, ptp_instance) sys" where
  "on_instance m i w = (case m (i, w) of (r, (i', w')) \<Rightarrow> (rbind r (\<lambda>_. Ok i'), w'))"

definition startup ::
    "'w net_env \<Rightarrow> 'w daemon_env \<Rightarrow> ('w, unit, unit) sys \<Rightarrow> string \<Rightarrow> string \<Rightarrow>
     ('w, string, ptp_instance \<times> ptp_instance) sys" where
  "startup N E set_handler master_name slave_name =
     sbind (smap_err (\<lambda>_. ''failed to validate interface '' @ master_name) (require_interface N master_name)) (\<lambda>master_iface.
     sbind (smap_err (\<lambda>_. ''failed to validate interface '' @ slave_name) (require_interface N slave_name)) (\<lambda>slave_iface.
     sbind (smap_err (\<lambda>_. ''failed to create master'') (instance_new (env_os E) master_iface MasterRole ''master'')) (\<lambda>master.
     sbind (smap_err (\<lambda>_. ''failed to create slave'') (instance_new (env_os E) slave_iface SlaveRole ''slave'')) (\<lambda>slave.
     sbind (smap_err (\<lambda>_. ''failed to start master'') (on_instance (start (env_os E)) master)) (\<lambda>master.
     sbind (smap_err (\<lambda>_. ''failed to start slave'') (on_instance (start (env_os E)) slave)) (\<lambda>slave.
     sbind (smap_err (\<lambda>_. ''failed to install Ctrl+C handler'') set_handler) (\<lambda>_.
     sret (master, slave))))))))"

definition main_syncd ::
    "'w net_env \<Rightarrow> 'w daemon_env \<Rightarrow> ('w, unit, unit) sys \<Rightarrow> string \<Rightarrow> string \<Rightarrow> 'w \<Rightarrow> 'w main_end option" where
  "main_syncd N E set_handler master_name slave_name w =
     (case startup N E set_handler master_name slave_name w of
        (Ok (master, slave), w) \<Rightarrow>
          main_loops E \<lparr>d_master = master, d_slave = slave, d_monitor = monitor_default, d_logs = [],
            d_world = w\<rparr>
      | (Err message, w) \<Rightarrow> Some (Fatal message w)
      | (Panic, w) \<Rightarrow> Some (Panicked w))"

end
