(* ===== verification/DaemonLife.thy ===== *)
theory DaemonLife
  imports Daemon InstanceLife
begin

text \<open>
  What the daemon of \<^verbatim>\<open>src/bin/ptp-syncd.rs\<close> does as a whole: when its loops end and with what, and which
  child processes it leaves behind, in its normal end and in a failed start.
\<close>

section \<open>When the loops end\<close>

text \<open>The daemon after one more unsuccessful round of waiting, and after one more round of monitoring.\<close>

definition wait_round :: "'w daemon_env \<Rightarrow> 'w daemon \<Rightarrow> 'w daemon" where
  "wait_round E d = pause E unsynchronized_poll_interval (snd (poll E False d))"

definition monitor_round :: "'w daemon_env \<Rightarrow> 'w daemon \<Rightarrow> 'w daemon" where
  "monitor_round E d = pause E (poll_interval (fst (poll E True d) = Ok True)) (snd (poll E True d))"

definition running :: "'w daemon_env \<Rightarrow> 'w daemon \<Rightarrow> bool" where
  "running E d = env_running E (d_world d)"

text \<open>The n-th round is the last one, and its outcome.\<close>

definition wait_ends :: "'w daemon_env \<Rightarrow> 'w daemon \<Rightarrow> (unit, bool) res \<times> 'w daemon \<Rightarrow> bool" where
  "wait_ends E d out \<longleftrightarrow>
     (if \<not> running E d then out = (Ok False, d) else poll E False d = out \<and> fst out \<noteq> Ok False)"

definition monitor_ends :: "'w daemon_env \<Rightarrow> 'w daemon \<Rightarrow> (unit, unit) res \<times> 'w daemon \<Rightarrow> bool" where
  "monitor_ends E d out \<longleftrightarrow>
     (if \<not> running E d then out = (Ok (), d)
      else (\<forall>b. fst (poll E True d) \<noteq> Ok b) \<and> out = (Panic, snd (poll E True d)))"

lemma wait_goes_on: "running E d \<Longrightarrow> fst (poll E False d) = Ok False \<Longrightarrow>
    wait_for_initial_sync E d = wait_for_initial_sync E (wait_round E d)"
  by (subst wait_for_initial_sync.simps) (auto simp: running_def wait_round_def split: prod.split)

lemma wait_ends_now: "wait_ends E d out \<Longrightarrow> wait_for_initial_sync E d = Some out"
  by (subst wait_for_initial_sync.simps) (auto simp: running_def wait_ends_def split: prod.split if_splits)

lemma monitor_goes_on: "running E d \<Longrightarrow> fst (poll E True d) = Ok b \<Longrightarrow>
    monitor_loop E d = monitor_loop E (monitor_round E d)"
  by (subst monitor_loop.simps) (auto simp: running_def monitor_round_def split: prod.split)

lemma monitor_ends_now: "monitor_ends E d out \<Longrightarrow> monitor_loop E d = Some out"
  by (subst monitor_loop.simps)
    (auto simp: running_def monitor_ends_def split: prod.split if_splits res.split)

lemma funpow_first:
  "(\<exists>n. (\<forall>k<n. Q ((f ^^ k) d)) \<and> R ((f ^^ n) d)) \<longleftrightarrow> R d \<or> Q d \<and> (\<exists>n. (\<forall>k<n. Q ((f ^^ k) (f d))) \<and> R ((f ^^ n) (f d)))"
  (is "?L \<longleftrightarrow> R d \<or> Q d \<and> ?L'")
proof
  assume ?L
  then obtain n where n: "\<forall>k<n. Q ((f ^^ k) d)" "R ((f ^^ n) d)" by blast
  show "R d \<or> Q d \<and> ?L'"
  proof (cases n)
    case 0
    with n show ?thesis by simp
  next
    case (Suc m)
    have "\<forall>k<m. Q ((f ^^ k) (f d))"
      using n(1) Suc by (metis Suc_mono funpow_simps_right(2) comp_apply)
    moreover have "R ((f ^^ m) (f d))" using n(2) Suc by (simp add: funpow_swap1)
    moreover have "Q d" using n(1) Suc by (metis funpow_0 zero_less_Suc)
    ultimately show ?thesis by blast
  qed
next
  assume "R d \<or> Q d \<and> ?L'"
  then show ?L
  proof
    assume "R d"
    then show ?L by (intro exI [of _ 0]) simp
  next
    assume "Q d \<and> ?L'"
    then obtain n where n: "Q d" "\<forall>k<n. Q ((f ^^ k) (f d))" "R ((f ^^ n) (f d))" by blast
    have "\<forall>k<Suc n. Q ((f ^^ k) d)"
      using n(1,2) by (auto simp: less_Suc_eq_0_disj funpow_swap1)
    with n(3) show ?L by (intro exI [of _ "Suc n"]) (simp add: funpow_swap1)
  qed
qed

text \<open>A loop that goes on while \<open>Q\<close> and ends when \<open>R\<close>, as an equation and by its rounds.\<close>

lemma loop_iff:
  fixes loop :: "'d \<Rightarrow> 'o option"
  assumes goes_on: "\<And>d. Q d \<Longrightarrow> loop d = loop (f d)" and ends: "\<And>d out. R d out \<Longrightarrow> loop d = Some out"
    and unfold: "\<And>P d out. loop d = Some out \<Longrightarrow> (\<And>d out. R d out \<Longrightarrow> P d out) \<Longrightarrow>
      (\<And>d out. Q d \<Longrightarrow> P (f d) out \<Longrightarrow> P d out) \<Longrightarrow> P d out"
  shows "loop d = Some out \<longleftrightarrow> (\<exists>n. (\<forall>k<n. Q ((f ^^ k) d)) \<and> R ((f ^^ n) d) out)"
proof
  assume "loop d = Some out"
  then show "\<exists>n. (\<forall>k<n. Q ((f ^^ k) d)) \<and> R ((f ^^ n) d) out"
  proof (rule unfold)
    fix d out
    show "\<exists>n. (\<forall>k<n. Q ((f ^^ k) d)) \<and> R ((f ^^ n) d) out" if "R d out"
      using that funpow_first [of Q f d "\<lambda>d. R d out"] by blast
    show "\<exists>n. (\<forall>k<n. Q ((f ^^ k) d)) \<and> R ((f ^^ n) d) out"
      if "Q d" "\<exists>n. (\<forall>k<n. Q ((f ^^ k) (f d))) \<and> R ((f ^^ n) (f d)) out"
      using that funpow_first [of Q f d "\<lambda>d. R d out"] by blast
  qed
next
  assume "\<exists>n. (\<forall>k<n. Q ((f ^^ k) d)) \<and> R ((f ^^ n) d) out"
  then obtain n where "\<forall>k<n. Q ((f ^^ k) d)" "R ((f ^^ n) d) out" by blast
  then show "loop d = Some out"
  proof (induction n arbitrary: d)
    case 0
    then show ?case by (simp add: ends)
  next
    case (Suc n)
    have "Q d" using Suc.prems(1) by (metis funpow_0 zero_less_Suc)
    moreover have "loop (f d) = Some out"
      using Suc.prems by (intro Suc.IH) (auto simp: funpow_swap1 dest: spec [of _ "Suc _"])
    ultimately show ?case by (simp add: goes_on)
  qed
qed

lemma poll_not_Err: "fst (poll E warn d) \<noteq> Err e"
  by (auto simp: poll_def sbind_def handle_slave_snapshot_def handle_master_snapshot_def Let_def
      split: prod.split res.split)

lemma wait_induct [consumes 1, case_names ends goes_on]:
  assumes "wait_for_initial_sync E d = Some out"
    and ends: "\<And>d out. wait_ends E d out \<Longrightarrow> P d out"
    and goes_on: "\<And>d out. running E d \<and> fst (poll E False d) = Ok False \<Longrightarrow> P (wait_round E d) out \<Longrightarrow> P d out"
  shows "P d out"
proof -
  have "E = E \<longrightarrow> P d out"
  proof (rule wait_for_initial_sync.raw_induct [where P = "\<lambda>E' d out. E' = E \<longrightarrow> P d out", OF _ assms(1)])
    fix loop and E' :: "'a daemon_env" and d out
    assume IH: "\<And>E' d out. loop E' d = Some out \<Longrightarrow> E' = E \<longrightarrow> P d out"
      and eq: "(if \<not> env_running E' (d_world d) then Some (Ok False, d)
         else case poll E' False d of (r, d') \<Rightarrow>
           if r = Ok True then Some (Ok True, d')
           else if r = Ok False then loop E' (pause E' unsynchronized_poll_interval d') else Some (r, d')) = Some out"
    show "E' = E \<longrightarrow> P d out"
    proof
      assume E: "E' = E"
      show "P d out"
      proof (cases "running E d \<and> fst (poll E False d) = Ok False")
        case True
        then have "loop E (wait_round E d) = Some out"
          using eq by (auto simp: E running_def wait_round_def split: prod.splits)
        with IH [of E] True show ?thesis by (blast intro: goes_on)
      next
        case False
        obtain r d' where p: "poll E False d = (r, d')" by (rule prod.exhaust)
        from False eq have "wait_ends E d out"
          by (auto simp: E running_def wait_ends_def p split: if_splits)
        then show ?thesis by (rule ends)
      qed
    qed
  qed
  then show ?thesis by simp
qed

lemma monitor_induct [consumes 1, case_names ends goes_on]:
  assumes "monitor_loop E d = Some out"
    and ends: "\<And>d out. monitor_ends E d out \<Longrightarrow> P d out"
    and goes_on: "\<And>d out. running E d \<and> (\<exists>b. fst (poll E True d) = Ok b) \<Longrightarrow> P (monitor_round E d) out \<Longrightarrow> P d out"
  shows "P d out"
proof -
  have "E = E \<longrightarrow> P d out"
  proof (rule monitor_loop.raw_induct [where P = "\<lambda>E' d out. E' = E \<longrightarrow> P d out", OF _ assms(1)])
    fix loop and E' :: "'a daemon_env" and d out
    assume IH: "\<And>E' d out. loop E' d = Some out \<Longrightarrow> E' = E \<longrightarrow> P d out"
      and eq: "(if \<not> env_running E' (d_world d) then Some (Ok (), d)
         else case poll E' True d of (r, d') \<Rightarrow>
           (case r of
              Ok slave_synchronized \<Rightarrow> loop E' (pause E' (poll_interval slave_synchronized) d')
            | _ \<Rightarrow> Some (Panic, d'))) = Some out"
    show "E' = E \<longrightarrow> P d out"
    proof
      assume E: "E' = E"
      show "P d out"
      proof (cases "running E d \<and> (\<exists>b. fst (poll E True d) = Ok b)")
        case True
        then have "loop E (monitor_round E d) = Some out"
          using eq by (auto simp: E running_def monitor_round_def split: prod.splits)
        with IH [of E] True show ?thesis by (blast intro: goes_on)
      next
        case False
        then have "monitor_ends E d out"
          using eq by (auto simp: E running_def monitor_ends_def split: prod.splits if_splits res.splits)
        then show ?thesis by (rule ends)
      qed
    qed
  qed
  then show ?thesis by simp
qed

lemma wait_iff:
  "wait_for_initial_sync E d = Some out \<longleftrightarrow>
     (\<exists>n. (\<forall>k<n. running E ((wait_round E ^^ k) d) \<and> fst (poll E False ((wait_round E ^^ k) d)) = Ok False) \<and>
       wait_ends E ((wait_round E ^^ n) d) out)"
  by (rule loop_iff [where Q = "\<lambda>d. running E d \<and> fst (poll E False d) = Ok False"])
    (auto intro: wait_goes_on wait_ends_now wait_induct)

lemma monitor_iff:
  "monitor_loop E d = Some out \<longleftrightarrow>
     (\<exists>n. (\<forall>k<n. running E ((monitor_round E ^^ k) d) \<and> (\<exists>b. fst (poll E True ((monitor_round E ^^ k) d)) = Ok b)) \<and>
       monitor_ends E ((monitor_round E ^^ n) d) out)"
  by (rule loop_iff [where Q = "\<lambda>d. running E d \<and> (\<exists>b. fst (poll E True d) = Ok b)"])
    (auto intro: monitor_goes_on monitor_ends_now monitor_induct)

section \<open>Child processes of the daemon\<close>

text \<open>Both instances' children are their own, apart from each other and from those of others.\<close>

definition tracked2 :: "('w \<Rightarrow> u32 set) \<Rightarrow> u32 set \<Rightarrow> 'w daemon \<Rightarrow> bool" where
  "tracked2 live others d \<longleftrightarrow>
     tracked live (own_child (d_slave d) \<union> others) (d_master d, d_world d) \<and> own_child (d_slave d) \<inter> others = {}"

lemma tracked2_slave:
  "tracked2 live others d \<longleftrightarrow>
     tracked live (own_child (d_master d) \<union> others) (d_slave d, d_world d) \<and> own_child (d_master d) \<inter> others = {}"
  by (auto simp: tracked2_def tracked_def)

text \<open>Sleeping and installing the interrupt handler do not concern children either.\<close>

locale daemon_process_table = process_table "env_os E" live
  for E :: "'w daemon_env" and live :: "'w \<Rightarrow> u32 set" +
  fixes set_handler :: "('w, unit, unit) sys"
  assumes sleep_live: "live (env_sleep E t w) = live w"
    and set_handler_live: "live (snd (set_handler w)) = live w"
    and kills: "fst (os_kill (env_os E) p w) = Ok ()"
begin

lemma handle_slave_tracked: "tracked2 live others d \<Longrightarrow> tracked2 live others (snd (handle_slave_snapshot E warn d))"
proof -
  assume t: "tracked2 live others d"
  obtain r i w where s: "snapshot (env_os E) (d_slave d, d_world d) = (r, (i, w))"
    by (cases "snapshot (env_os E) (d_slave d, d_world d)") auto
  from t have "tracked live (own_child (d_master d) \<union> others) (i, w) \<and> own_child (d_master d) \<inter> others = {}"
    using keepsD [OF snapshot_tracked _ s] by (auto simp: tracked2_slave)
  then show ?thesis
    by (auto simp: handle_slave_snapshot_def s Let_def tracked2_slave split: prod.split res.split)
qed

lemma handle_master_tracked: "tracked2 live others d \<Longrightarrow> tracked2 live others (snd (handle_master_snapshot E d))"
proof -
  assume t: "tracked2 live others d"
  obtain r i w where s: "snapshot (env_os E) (d_master d, d_world d) = (r, (i, w))"
    by (cases "snapshot (env_os E) (d_master d, d_world d)") auto
  from t have "tracked live (own_child (d_slave d) \<union> others) (i, w) \<and> own_child (d_slave d) \<inter> others = {}"
    using keepsD [OF snapshot_tracked _ s] by (auto simp: tracked2_def)
  then show ?thesis
    by (auto simp: handle_master_snapshot_def s Let_def tracked2_def split: prod.split res.split)
qed

lemma poll_tracked: "tracked2 live others d \<Longrightarrow> tracked2 live others (snd (poll E warn d))"
proof -
  have "keeps (tracked2 live others) (poll E warn)"
    unfolding poll_def by (intro keeps_intros) (auto simp: keeps_def handle_slave_tracked handle_master_tracked)
  then show "tracked2 live others d \<Longrightarrow> tracked2 live others (snd (poll E warn d))" by (simp add: keeps_def)
qed

lemma pause_tracked: "tracked2 live others d \<Longrightarrow> tracked2 live others (pause E t d)"
  by (simp add: tracked2_def tracked_def pause_def sleep_live)

lemma wait_tracked: "wait_for_initial_sync E d = Some out \<Longrightarrow> tracked2 live others d \<Longrightarrow> tracked2 live others (snd out)"
proof (induction rule: wait_induct)
  case (ends d out)
  then show ?case using poll_tracked [of others d] by (auto simp: wait_ends_def split: if_splits)
next
  case (goes_on d out)
  then show ?case by (simp add: wait_round_def pause_tracked poll_tracked)
qed

lemma monitor_tracked: "monitor_loop E d = Some out \<Longrightarrow> tracked2 live others d \<Longrightarrow> tracked2 live others (snd out)"
proof (induction rule: monitor_induct)
  case (ends d out)
  then show ?case using poll_tracked [of others d] by (auto simp: monitor_ends_def split: if_splits)
next
  case (goes_on d out)
  then show ?case by (simp add: monitor_round_def pause_tracked poll_tracked)
qed

lemma stop_clears:
  assumes "stop (env_os E) (i, w) = (r, (i', w'))" "tracked live others (i, w)"
  shows "live w' = others \<and> own_child i' = {}"
proof -
  have "\<not> (\<exists>e. r = Err e)"
  proof
    assume "\<exists>e. r = Err e"
    then obtain e where r: "r = Err e" ..
    show False
    proof (cases "process_handle i")
      case None
      with assms(1) r show False by (simp add: stop_def)
    next
      case (Some c)
      obtain w2 where k: "os_kill (env_os E) (child_id c) w = (Ok (), w2)"
        using kills [of "child_id c" w] by (cases "os_kill (env_os E) (child_id c) w") auto
      obtain r3 w3 where "os_wait (env_os E) (child_id c) w2 = (r3, w3)" "r3 \<noteq> Panic"
        "live w3 = live w2 - {child_id c}"
        by (rule wait_cases)
      with assms(1) r Some k show False by (cases r3) (auto simp: stop_def sbind_def scatch_def)
    qed
  qed
  with stop_run [OF assms(1)] assms(2) show ?thesis by (auto simp: tracked_def)
qed

lemma drop_clears:
  assumes "drop_instance (env_os E) (i, w) = (r, (i', w'))" "tracked live others (i, w)"
  shows "live w' = others"
proof -
  have "live w' = live w - own_child i" by (rule drop_run(2) [OF assms(1)]) (simp add: kills)
  with assms(2) show ?thesis by (auto simp: tracked_def)
qed

lemma drop_both_clears: "tracked2 live others d \<Longrightarrow> live (drop_both E d) = others"
proof -
  assume t: "tracked2 live others d"
  obtain r i w where 1: "drop_instance (env_os E) (d_slave d, d_world d) = (r, (i, w))" by (metis prod.exhaust)
  obtain q j v where 2: "drop_instance (env_os E) (d_master d, w) = (q, (j, v))" by (metis prod.exhaust)
  from t have s: "tracked live (own_child (d_master d) \<union> others) (d_slave d, d_world d)" "own_child (d_master d) \<inter> others = {}"
    by (simp_all add: tracked2_slave)
  have "live w = own_child (d_master d) \<union> others" by (rule drop_clears [OF 1 s(1)])
  then have "tracked live others (d_master d, w)" using s(2) by (simp add: tracked_def)
  from drop_clears [OF 2 this] show ?thesis by (simp add: drop_both_def 1 2)
qed

lemma stop_both_tracked: "tracked2 live others d \<Longrightarrow> tracked2 live others (stop_slave E (stop_master E d))"
proof -
  assume t: "tracked2 live others d"
  obtain r i w where 1: "stop (env_os E) (d_master d, d_world d) = (r, (i, w))" by (metis prod.exhaust)
  obtain q j v where 2: "stop (env_os E) (d_slave d, w) = (q, (j, v))" by (metis prod.exhaust)
  from t have m: "live w = own_child (d_slave d) \<union> others \<and> own_child i = {}" "own_child (d_slave d) \<inter> others = {}"
    using stop_clears [OF 1, of "own_child (d_slave d) \<union> others"] by (simp_all add: tracked2_def)
  then have "live v = others \<and> own_child j = {}"
    by (intro stop_clears [OF 2]) (simp add: tracked_def)
  with m show ?thesis by (simp add: stop_master_def stop_slave_def 1 2 tracked2_def tracked_def)
qed

lemma main_loops_clears:
  assumes "main_loops E d = Some (Returned w)" "tracked2 live others d"
  shows "live w = others"
proof -
  obtain r d1 where 1: "wait_for_initial_sync E d = Some (r, d1)"
    using assms(1) by (auto simp: main_loops_def split: option.splits)
  from wait_tracked [OF 1 assms(2)] have t1: "tracked2 live others d1" by simp
  from assms(1) 1 consider "w = drop_both E (stop_slave E (stop_master E d1))"
    | q d2 where "monitor_loop E d1 = Some (q, d2)" "w = drop_both E (stop_slave E (stop_master E d2))"
    by (auto simp: main_loops_def split: res.splits if_splits option.splits)
  then show ?thesis
  proof cases
    case 1
    with t1 show ?thesis by (simp add: drop_both_clears stop_both_tracked)
  next
    case 2
    from monitor_tracked [OF 2(1) t1] 2(2) show ?thesis by (simp add: drop_both_clears stop_both_tracked)
  qed
qed

text \<open>The start: the interfaces are looked up, the configurations written, then the two daemons started.\<close>

lemma instance_new_run:
  assumes "instance_new (env_os E) iface role name w = (r, w')"
  shows "live w' = live w \<and> (\<forall>i. r = Ok i \<longrightarrow> process_handle i = None)"
proof -
  have f: "os_create_file (env_os E) path w1 = (x, w2) \<Longrightarrow> live w2 = live w1"
    "os_write_file (env_os E) path t w1 = (x, w2) \<Longrightarrow> live w2 = live w1" for path t w1 x w2
    using file_live by (metis snd_conv)+
  show ?thesis
    using assms by (auto simp: instance_new_def create_config_def sbind_def Let_def f
        split: prod.splits res.splits)
qed

lemma on_instance_start:
  assumes "on_instance (start (env_os E)) i w = (r, w')" "process_handle i = None"
  shows "case r of
      Ok i' \<Rightarrow> (\<exists>p. own_child i' = {p} \<and> p \<notin> live w \<and> live w' = insert p (live w))
    | _ \<Rightarrow> live w' = live w"
proof -
  obtain q i' v where s: "start (env_os E) (i, w) = (q, (i', v))" by (metis prod.exhaust)
  from start_run [OF s] assms s show ?thesis
    by (cases q) (auto simp: on_instance_def)
qed

lemma startup_run:
  assumes "startup N E set_handler mn sn w = (r, w')"
  shows "case r of
      Ok (m, s) \<Rightarrow> tracked2 live (live w) \<lparr>d_master = m, d_slave = s, d_monitor = mon, d_logs = [], d_world = w'\<rparr>
    | Err msg \<Rightarrow> \<exists>left. left \<inter> live w = {} \<and> live w' = left \<union> live w \<and> card left =
        (if msg = ''failed to start slave'' then 1 else if msg = ''failed to install Ctrl+C handler'' then 2 else 0)
    | Panic \<Rightarrow> True"
proof -
  have req: "require_interface N name v = (q, v') \<Longrightarrow> v' = v" for name v q v'
    by (simp add: require_interface_def)
  have set: "set_handler v = (q, v') \<Longrightarrow> live v' = live v" for v q v'
    using set_handler_live by (metis snd_conv)
  obtain r1 w1 where 1: "require_interface N mn w = (r1, w1)" by (rule prod.exhaust)
  obtain r2 w2 where 2: "require_interface N sn w1 = (r2, w2)" by (rule prod.exhaust)
  have w2: "w1 = w" "w2 = w1" by (rule req [OF 1]) (rule req [OF 2])
  have none: ?thesis if "live w' = live w" "\<And>x. r \<noteq> Ok x"
    "\<And>m. r = Err m \<Longrightarrow> m \<noteq> ''failed to start slave'' \<and> m \<noteq> ''failed to install Ctrl+C handler''"
    using that by (cases r) (auto intro: exI [of _ "{}"])
  show ?thesis
  proof (cases "\<exists>i j. r1 = Ok i \<and> r2 = Ok j")
    case False
    then show ?thesis
      using assms 1 2 w2 by (intro none; cases r1; cases r2) (auto simp: startup_def sbind_def)
  next
    case True
    then obtain mi si where [simp]: "r1 = Ok mi" "r2 = Ok si" by blast
    obtain r3 w3 where 3: "instance_new (env_os E) mi MasterRole ''master'' w = (r3, w3)" by (rule prod.exhaust)
    obtain r4 w4 where 4: "instance_new (env_os E) si SlaveRole ''slave'' w3 = (r4, w4)" by (rule prod.exhaust)
    note n3 = instance_new_run [OF 3] and n4 = instance_new_run [OF 4]
    show ?thesis
    proof (cases "\<exists>i j. r3 = Ok i \<and> r4 = Ok j")
      case False
      then show ?thesis
        using assms 1 2 w2 3 4 n3 n4 by (intro none; cases r3; cases r4) (auto simp: startup_def sbind_def)
    next
      case True
      then obtain m s where [simp]: "r3 = Ok m" "r4 = Ok s" by blast
      have p: "process_handle m = None" "process_handle s = None" "live w4 = live w" using n3 n4 by simp_all
      obtain r5 w5 where 5: "on_instance (start (env_os E)) m w4 = (r5, w5)" by (rule prod.exhaust)
      obtain r6 w6 where 6: "on_instance (start (env_os E)) s w5 = (r6, w6)" by (rule prod.exhaust)
      obtain r7 w7 where 7: "set_handler w6 = (r7, w7)" by (rule prod.exhaust)
      note n5 = on_instance_start [OF 5 p(1)] and n6 = on_instance_start [OF 6 p(2)] and n7 = set [OF 7]
      have run: "startup N E set_handler mn sn w =
          (case r5 of
             Ok m \<Rightarrow> (case r6 of
                Ok s \<Rightarrow> (case r7 of Ok _ \<Rightarrow> (Ok (m, s), w7) | Err _ \<Rightarrow> (Err ''failed to install Ctrl+C handler'', w7)
                  | Panic \<Rightarrow> (Panic, w7))
              | Err _ \<Rightarrow> (Err ''failed to start slave'', w6) | Panic \<Rightarrow> (Panic, w6))
           | Err _ \<Rightarrow> (Err ''failed to start master'', w5) | Panic \<Rightarrow> (Panic, w5))"
        using 1 2 w2 3 4 5 6 7 by (auto simp: startup_def sbind_def split: res.split)
      show ?thesis
      proof (cases r5)
        case (Ok m')
        then obtain a where a: "own_child m' = {a}" "a \<notin> live w" "live w5 = insert a (live w)"
          using n5 p by auto
        show ?thesis
        proof (cases r6)
          case (Ok s')
          then obtain b where b: "own_child s' = {b}" "b \<notin> live w5" "live w6 = insert b (live w5)"
            using n6 by auto
          have l: "{a, b} \<inter> live w = {} \<and> live w7 = {a, b} \<union> live w \<and> card {a, b} = 2" using a b n7 by auto
          show ?thesis
          proof (cases r7)
            case (Err u)
            have "r = Err ''failed to install Ctrl+C handler''" "w' = w7"
              using assms \<open>r5 = Ok m'\<close> Ok Err unfolding run by auto
            then show ?thesis by (simp only: res.case) (rule exI [of _ "{a, b}"], simp add: l [simplified])
          qed (use assms a b n7 \<open>r5 = Ok m'\<close> Ok in \<open>auto simp: run tracked2_def tracked_def\<close>)
        next
          case (Err e)
          have "r = Err ''failed to start slave''" "w' = w6"
            using assms \<open>r5 = Ok m'\<close> Err unfolding run by auto
          moreover have "live w6 = live w5" using n6 Err by simp
          ultimately show ?thesis using a by (simp only: res.case) (rule exI [of _ "{a}"], simp)
        next
          case Panic
          then show ?thesis using assms \<open>r5 = Ok m'\<close> unfolding run by auto
        qed
      next
        case (Err e)
        then show ?thesis using assms n5 p unfolding run by (intro none) auto
      next
        case Panic
        then show ?thesis using assms unfolding run by auto
      qed
    qed
  qed
qed

end

text \<open>A machine on which the daemon is interrupted at once.\<close>

definition table_env :: "os_world daemon_env" where
  "table_env = \<lparr>env_os = table_os, env_running = (\<lambda>_. False), env_now = (\<lambda>_. 0), env_sleep = (\<lambda>_ w. w)\<rparr>"

definition table_handler :: "(os_world, unit, unit) sys" where
  "table_handler w = (Ok (), w)"

interpretation table_daemon: daemon_process_table table_env table_live table_handler
  by unfold_locales
    (simp_all add: table_env_def table_handler_def table.process_table_axioms [unfolded process_table_def]
      table.spawn_Ok table.spawn_fails table.try_wait_live table.wait_live table.kill_live table.output_live
      table.logger_live table.file_live table.returns, simp add: table_os_def)

definition two_hosts :: "os_world net_env" where
  "two_hosts = \<lparr>net_interfaces = (\<lambda>_. [\<lparr>if_name = ''eth0'', if_mac = None, if_up = True\<rparr>,
       \<lparr>if_name = ''eth1'', if_mac = None, if_up = True\<rparr>]),
     net_kernel = \<lparr>sys_open = (\<lambda>path w. (Err NotFound, w)),
       sys_read_exact = (\<lambda>_ _ w. (Err UnexpectedEof, w)), sys_clock_gettime = (\<lambda>_ w. (Ok (0, 0), w)),
       ptp_clock_getcaps = (\<lambda>_ caps w. (Ok caps, w)), ptp_pin_getfunc = (\<lambda>_ d w. (Ok d, w)),
       ptp_pin_setfunc = (\<lambda>_ _ w. (Ok (), w)), ptp_extts_request = (\<lambda>_ _ w. (Ok (), w)),
       ptp_extts_request2 = (\<lambda>_ _ w. (Ok (), w)), ptp_perout_request = (\<lambda>_ _ w. (Ok (), w)),
       ptp_perout_request2 = (\<lambda>_ _ w. (Ok (), w))\<rparr>,
     net_exists = (\<lambda>_ _. False), net_read_dir = (\<lambda>_ _. None)\<rparr>"

lemmas table_run_defs = startup_def sbind_def require_interface_def find_interface_def two_hosts_def
  instance_new_def create_config_def Let_def on_instance_def start_def scatch_def attach_log_threads_def
  spawn_stream_logger_def table_os_def table_env_def table_handler_def sample_world_def ensure_def

section \<open>Properties\<close>





text \<open>C39: A failed start is fatal, and the process exits without dropping what it has built: when the slave's
  daemon cannot be started the master's is left running, and when the interrupt handler cannot be
  installed both are. Any earlier failure leaves no process behind.\<close>

theorem failed_start_leaves_children:
  assumes "daemon_process_table E live set_handler"
    and "main_syncd N E set_handler master_name slave_name w = Some (Fatal message w')"
  shows "\<exists>left. left \<inter> live w = {} \<and> live w' = left \<union> live w \<and> card left =
    (if message = ''failed to start slave'' then 1
     else if message = ''failed to install Ctrl+C handler'' then 2 else 0)"
proof -
  obtain r w1 where s: "startup N E set_handler master_name slave_name w = (r, w1)" by (rule prod.exhaust)
  have "main_loops E d \<noteq> Some (Fatal message w')" for d
    by (auto simp: main_loops_def split: option.splits res.splits if_splits)
  with assms(2) s have "r = Err message" "w1 = w'"
    by (auto simp: main_syncd_def split: res.splits)
  with daemon_process_table.startup_run [OF assms(1) s] show ?thesis by simp
qed

theorem failed_start_leaves_children_witness:
  "\<exists>w'. main_syncd two_hosts table_env table_handler ''eth0'' ''eth1'' (sample_world\<lparr>w_next := 6\<rparr>) =
      Some (Fatal ''failed to start slave'' w') \<and> table_live w' \<noteq> table_live (sample_world\<lparr>w_next := 6\<rparr>)"
proof -
  obtain w' where m: "main_syncd two_hosts table_env table_handler ''eth0'' ''eth1'' (sample_world\<lparr>w_next := 6\<rparr>) =
      Some (Fatal ''failed to start slave'' w')"
    by (simp add: main_syncd_def table_run_defs)
  from failed_start_leaves_children [OF table_daemon.daemon_process_table_axioms m] m show ?thesis
    by (auto simp: card_1_singleton_iff)
qed

end
