(* ===== verification/Transport.thy ===== *)
theory Transport
  imports Avtpdu NetIface Sys
begin

unbundle bit_operations_syntax

text \<open>
  \<^verbatim>\<open>src/avtp/transport/ethernet.rs\<close>: AVTP packets in Ethernet II frames. The raw sockets are those of
  another crate: a record of what opening a channel, sending a frame and receiving one do to the
  machine.
\<close>

section \<open>Sockets\<close>

text \<open>
  Opening gives the channel's handle, or none when the channel is not an Ethernet one; sending gives
  nothing at all when the socket does not accept the frame.
\<close>

record 'w datalink =
  dl_channel :: "network_interface \<Rightarrow> ('w, io_error, nat option) sys"
  dl_send :: "nat \<Rightarrow> byte list \<Rightarrow> 'w \<Rightarrow> (io_error, unit) res option \<times> 'w"
  dl_next :: "nat \<Rightarrow> ('w, io_error, byte list) sys"

definition ETHER_TYPE :: u16 where
  "ETHER_TYPE = 0x22F0"

definition u16_to_be_bytes :: "u16 \<Rightarrow> byte list" where
  "u16_to_be_bytes x = [ucast (drop_bit 8 x), ucast x]"

definition u16_from_be_bytes :: "byte \<Rightarrow> byte \<Rightarrow> u16" where
  "u16_from_be_bytes a b = push_bit 8 (ucast a) OR ucast b"

definition not_ethernet :: io_error where
  "not_ethernet = IoOther ''unexpected non-ethernet channel type''"

section \<open>Sending\<close>

datatype ethernet_sender_error =
    SenderChannelOpen io_error
  | NoMac
  | Serialize "avtpdu_error io_wrap"
  | Send io_error

record ethernet_avtp_sender =
  es_tx :: nat
  es_src_mac :: mac_addr
  es_dst_mac :: mac_addr

definition sender_new ::
    "'w datalink \<Rightarrow> network_interface \<Rightarrow> mac_addr \<Rightarrow> ('w, ethernet_sender_error, ethernet_avtp_sender) sys" where
  "sender_new D interface dst_mac =
     sbind (slift (ok_or NoMac (if_mac interface))) (\<lambda>src_mac.
     sbind (smap_err SenderChannelOpen (dl_channel D interface)) (\<lambda>channel.
     sbind (slift (ok_or (SenderChannelOpen not_ethernet) channel)) (\<lambda>tx.
     sret \<lparr>es_tx = tx, es_src_mac = src_mac, es_dst_mac = dst_mac\<rparr>)))"

text \<open>The buffer the frame is built in is cleared first, so that it is local to the call.\<close>

definition frame_header :: "ethernet_avtp_sender \<Rightarrow> byte list" where
  "frame_header s = mac_octets (es_dst_mac s) @ mac_octets (es_src_mac s) @ u16_to_be_bytes ETHER_TYPE"

definition build_frame ::
    "bool \<Rightarrow> 'b bit_write_ops \<Rightarrow> ethernet_avtp_sender \<Rightarrow> avtpdu \<Rightarrow> (ethernet_sender_error, byte list) res" where
  "build_frame dbg W s packet =
     rbind (map_err Serialize (avtpdu_write dbg W packet (wr_vec W (frame_header s)))) (\<lambda>b.
     Ok (wr_buffer W b))"

definition sender_send ::
    "bool \<Rightarrow> 'b bit_write_ops \<Rightarrow> 'w datalink \<Rightarrow> ethernet_avtp_sender \<Rightarrow> avtpdu \<Rightarrow>
     ('w, ethernet_sender_error, unit) sys" where
  "sender_send dbg W D s packet =
     sbind (slift (build_frame dbg W s packet)) (\<lambda>frame w.
     case dl_send D (es_tx s) frame w of
       (None, w') \<Rightarrow> (Err (Send (IoOther ''send returned None'')), w')
     | (Some r, w') \<Rightarrow> (map_err Send r, w'))"

section \<open>Receiving\<close>

datatype ethernet_receiver_error =
    ReceiverChannelOpen io_error
  | Receive io_error
  | Parse "avtpdu_error io_wrap"

record ethernet_avtp_receiver =
  er_rx :: nat

definition receiver_new ::
    "'w datalink \<Rightarrow> network_interface \<Rightarrow> ('w, ethernet_receiver_error, ethernet_avtp_receiver) sys" where
  "receiver_new D interface =
     sbind (smap_err ReceiverChannelOpen (dl_channel D interface)) (\<lambda>channel.
     sbind (slift (ok_or (ReceiverChannelOpen not_ethernet) channel)) (\<lambda>rx.
     sret \<lparr>er_rx = rx\<rparr>))"

definition is_avtp_frame :: "byte list \<Rightarrow> bool" where
  "is_avtp_frame frame \<longleftrightarrow>
     14 \<le> length frame \<and> u16_from_be_bytes (frame ! 12) (frame ! 13) = ETHER_TYPE"

text \<open>The loop skips the other frames; the caller's function runs before the packet is parsed.\<close>

partial_function (option) recv_next_with ::
    "bool \<Rightarrow> 'b bit_read_ops \<Rightarrow> 'w datalink \<Rightarrow> ethernet_avtp_receiver \<Rightarrow> ('w \<Rightarrow> 't \<times> 'w) \<Rightarrow> 'w \<Rightarrow>
     ((ethernet_receiver_error, 't \<times> avtpdu) res \<times> 'w) option" where
  "recv_next_with dbg R D rx on_frame_received w =
     (case dl_next D (er_rx rx) w of (r, w) \<Rightarrow>
        (case r of
           Err e \<Rightarrow> Some (Err (Receive e), w)
         | Panic \<Rightarrow> Some (Panic, w)
         | Ok frame \<Rightarrow>
             if \<not> is_avtp_frame frame then recv_next_with dbg R D rx on_frame_received w
             else case on_frame_received w of (metadata, w) \<Rightarrow>
               Some (rbind (map_err Parse (avtpdu_read dbg R (rd_slice R (drop 14 frame)))) (\<lambda>(packet, _).
                 Ok (metadata, packet)), w)))"

definition recv_next ::
    "bool \<Rightarrow> 'b bit_read_ops \<Rightarrow> 'w datalink \<Rightarrow> ethernet_avtp_receiver \<Rightarrow> 'w \<Rightarrow>
     ((ethernet_receiver_error, avtpdu) res \<times> 'w) option" where
  "recv_next dbg R D rx w =
     map_option (\<lambda>(r, w'). (rbind r (\<lambda>(_, packet). Ok packet), w')) (recv_next_with dbg R D rx (\<lambda>w. ((), w)) w)"

section \<open>Frames\<close>

lemma length_frame_header [simp]: "length (frame_header s) = 14"
  by (simp add: frame_header_def u16_to_be_bytes_def)

lemma frame_header_avtp: "is_avtp_frame (frame_header s @ bs)"
  by (cases "es_dst_mac s"; cases "es_src_mac s")
    (simp add: is_avtp_frame_def frame_header_def u16_to_be_bytes_def ETHER_TYPE_def u16_from_be_bytes_def nth_append)

text \<open>The frames that successive calls of the socket give.\<close>

primrec delivers :: "'w datalink \<Rightarrow> nat \<Rightarrow> 'w \<Rightarrow> byte list list \<Rightarrow> 'w \<Rightarrow> bool" where
  "delivers D h w [] w' \<longleftrightarrow> w' = w"
| "delivers D h w (f # fs) w' \<longleftrightarrow> (\<exists>w1. dl_next D h w = (Ok f, w1) \<and> delivers D h w1 fs w')"

lemma recv_skips:
  "delivers D (er_rx rx) w (junk @ [frame]) w' \<Longrightarrow> list_all (\<lambda>f. \<not> is_avtp_frame f) junk \<Longrightarrow> is_avtp_frame frame \<Longrightarrow>
   recv_next_with dbg R D rx cb w = (case cb w' of (m, w2) \<Rightarrow>
     Some (rbind (map_err Parse (avtpdu_read dbg R (rd_slice R (drop 14 frame)))) (\<lambda>(p, _). Ok (m, p)), w2))"
  by (induction junk arbitrary: w) (auto simp: recv_next_with.simps [of dbg R D rx cb])

lemma build_frame_bytes:
  assumes "bit_writer_laws W snk" "pdu_typed p" "pdu_payload_ok p"
  shows "\<exists>bs. build_frame dbg W s p = Ok (frame_header s @ bs) \<and> bytes_bits bs = avtpdu_bits p"
proof -
  from bit_writer_laws.avtpdu_append_vec [OF assms] obtain w bs where
    "avtpdu_write dbg W p (wr_vec W (frame_header s)) = Ok w" "wr_buffer W w = frame_header s @ bs"
    "bytes_bits bs = avtpdu_bits p" by blast
  then show ?thesis by (auto simp: build_frame_def)
qed

text \<open>A wire: what is sent is received, in order, padded to the 60 bytes of the shortest frame.\<close>

definition wire :: "byte list list datalink" where
  "wire = \<lparr>dl_channel = (\<lambda>_ w. (Ok (Some 0), w)),
     dl_send = (\<lambda>_ f w. (Some (Ok ()), w @ [f @ replicate (60 - length f) 0])),
     dl_next = (\<lambda>_ w. case w of [] \<Rightarrow> (Err UnexpectedEof, []) | f # fs \<Rightarrow> (Ok f, fs))\<rparr>"

definition sample_sender :: ethernet_avtp_sender where
  "sample_sender = \<lparr>es_tx = 0, es_src_mac = MacAddr 2 0 0 0 0 1, es_dst_mac = MacAddr 2 0 0 0 0 2\<rparr>"



end
