(* ===== verification/BinHeap.thy ===== *)
theory BinHeap
  imports Main "HOL-Library.Multiset"
begin

text \<open>
  The standard library's \<^verbatim>\<open>BinaryHeap<Reverse<T>>\<close>, which the jitter buffer of the integration test is: a
  vector whose element at position \<open>i\<close> has its children at \<open>2 i + 1\<close> and \<open>2 i + 2\<close>, with the least key first.
  Pushing appends and sifts up; popping moves the last element to the root, sifts it down to the bottom
  and up again. The locale states what a priority queue promises, and the heap keeps it.
\<close>

section \<open>Operations\<close>

definition swap_at :: "'a list \<Rightarrow> nat \<Rightarrow> nat \<Rightarrow> 'a list" where
  "swap_at xs i j = xs[i := xs ! j, j := xs ! i]"

definition parent :: "nat \<Rightarrow> nat" where
  "parent i = (i - 1) div 2"

function sift_up :: "('a \<Rightarrow> 'k::linorder) \<Rightarrow> nat \<Rightarrow> 'a list \<Rightarrow> 'a list" where
  "sift_up key pos xs =
     (if pos = 0 \<or> key (xs ! parent pos) \<le> key (xs ! pos) then xs
      else sift_up key (parent pos) (swap_at xs pos (parent pos)))"
  by pat_completeness auto

termination
  by (relation "measure (\<lambda>(_, pos, _). pos)") (auto simp: parent_def)

declare sift_up.simps [simp del]

text \<open>The lesser child, the right one when they are equal, moves up at each step.\<close>

lemma length_swap_at [simp]: "length (swap_at xs i j) = length xs"
  by (simp add: swap_at_def)

function sift_to_bottom :: "('a \<Rightarrow> 'k::linorder) \<Rightarrow> nat \<Rightarrow> 'a list \<Rightarrow> nat \<times> 'a list" where
  "sift_to_bottom key pos xs =
     (let child = 2 * pos + 1; n = length xs in
      if child \<le> n - 2 then
        let c = (if key (xs ! (child + 1)) \<le> key (xs ! child) then child + 1 else child) in
        sift_to_bottom key c (swap_at xs pos c)
      else if child = n - 1 then (child, swap_at xs pos child)
      else (pos, xs))"
  by pat_completeness auto

termination
  by (relation "measure (\<lambda>(_, pos, xs). length xs - pos)") (auto simp: Let_def split: if_splits)

declare sift_to_bottom.simps [simp del]

definition heap_push :: "('a \<Rightarrow> 'k::linorder) \<Rightarrow> 'a \<Rightarrow> 'a list \<Rightarrow> 'a list" where
  "heap_push key x xs = sift_up key (length xs) (xs @ [x])"

definition heap_pop :: "('a \<Rightarrow> 'k::linorder) \<Rightarrow> 'a list \<Rightarrow> ('a \<times> 'a list) option" where
  "heap_pop key xs =
     (if xs = [] then None
      else let item = last xs; xs = butlast xs in
        if xs = [] then Some (item, [])
        else case sift_to_bottom key 0 (xs[0 := item]) of (pos, ys) \<Rightarrow> Some (xs ! 0, sift_up key pos ys))"

definition heap_peek :: "'a list \<Rightarrow> 'a option" where
  "heap_peek xs = (if xs = [] then None else Some (xs ! 0))"

section \<open>Contents\<close>

lemma mset_swap_at: "i < length xs \<Longrightarrow> j < length xs \<Longrightarrow> mset (swap_at xs i j) = mset xs"
  by (cases "i = j") (simp_all add: swap_at_def mset_swap)

lemma parent_less: "0 < i \<Longrightarrow> parent i < i"
  by (simp add: parent_def)

lemma sift_up_mset: "pos < length xs \<Longrightarrow> mset (sift_up key pos xs) = mset xs"
proof (induction key pos xs rule: sift_up.induct)
  case (1 key pos xs)
  show ?case
  proof (cases "pos = 0 \<or> key (xs ! parent pos) \<le> key (xs ! pos)")
    case True
    then show ?thesis by (subst sift_up.simps) simp
  next
    case False
    then have "parent pos < length xs" using 1(2) parent_less [of pos] by simp
    with False 1 show ?thesis by (subst sift_up.simps) (simp add: mset_swap_at)
  qed
qed

lemma sift_to_bottom_mset:
  "pos < length xs \<Longrightarrow> sift_to_bottom key pos xs = (p, ys) \<Longrightarrow> mset ys = mset xs \<and> p < length xs"
proof (induction key pos xs rule: sift_to_bottom.induct)
  case (1 key pos xs)
  define c where "c = (if key (xs ! (2 * pos + 2)) \<le> key (xs ! (2 * pos + 1)) then 2 * pos + 2 else 2 * pos + 1)"
  consider "2 * pos + 1 \<le> length xs - 2" | "\<not> 2 * pos + 1 \<le> length xs - 2" by blast
  then show ?case
  proof cases
    case 1
    then have c: "c < length xs" by (auto simp: c_def)
    from 1 "1.prems"(2) have e: "sift_to_bottom key c (swap_at xs pos c) = (p, ys)"
      by (subst (asm) sift_to_bottom.simps) (simp add: Let_def c_def split: if_splits)
    have "mset ys = mset (swap_at xs pos c) \<and> p < length (swap_at xs pos c)"
      by (rule "1.IH" [OF refl refl _ _ _ e]) (use 1 c in \<open>auto simp: c_def\<close>)
    with c "1.prems"(1) show ?thesis by (simp add: mset_swap_at)
  next
    case 2
    with "1.prems" show ?thesis
      by (subst (asm) sift_to_bottom.simps) (auto simp: Let_def mset_swap_at split: if_splits)
  qed
qed

section \<open>Order\<close>

definition heap_ordered :: "('a \<Rightarrow> 'k::linorder) \<Rightarrow> 'a list \<Rightarrow> bool" where
  "heap_ordered key xs \<longleftrightarrow> (\<forall>i<length xs. 0 < i \<longrightarrow> key (xs ! parent i) \<le> key (xs ! i))"

text \<open>Ordered but for the element at one position, which may be too small, or anything.\<close>

definition small_at :: "('a \<Rightarrow> 'k::linorder) \<Rightarrow> nat \<Rightarrow> 'a list \<Rightarrow> bool" where
  "small_at key pos xs \<longleftrightarrow>
     (\<forall>i<length xs. 0 < i \<longrightarrow> i \<noteq> pos \<longrightarrow> key (xs ! parent i) \<le> key (xs ! i)) \<and>
     (\<forall>i<length xs. 0 < i \<longrightarrow> parent i = pos \<longrightarrow> 0 < pos \<longrightarrow> key (xs ! parent pos) \<le> key (xs ! i))"

definition hole_at :: "('a \<Rightarrow> 'k::linorder) \<Rightarrow> nat \<Rightarrow> 'a list \<Rightarrow> bool" where
  "hole_at key pos xs \<longleftrightarrow>
     (\<forall>i<length xs. 0 < i \<longrightarrow> i \<noteq> pos \<longrightarrow> parent i \<noteq> pos \<longrightarrow> key (xs ! parent i) \<le> key (xs ! i)) \<and>
     (\<forall>i<length xs. 0 < i \<longrightarrow> parent i = pos \<longrightarrow> 0 < pos \<longrightarrow> key (xs ! parent pos) \<le> key (xs ! i))"

lemma swap_at_nth: "i < length xs \<Longrightarrow> j < length xs \<Longrightarrow>
    swap_at xs i j ! k = (if k = j then xs ! i else if k = i then xs ! j else xs ! k)"
  by (auto simp: swap_at_def nth_list_update)

lemma sift_up_ordered: "pos < length xs \<Longrightarrow> small_at key pos xs \<Longrightarrow> heap_ordered key (sift_up key pos xs)"
proof (induction key pos xs rule: sift_up.induct)
  case (1 key pos xs)
  show ?case
  proof (cases "pos = 0 \<or> key (xs ! parent pos) \<le> key (xs ! pos)")
    case True
    then have "heap_ordered key xs" using 1(3) by (auto simp: small_at_def heap_ordered_def)
    with True show ?thesis by (subst sift_up.simps) simp
  next
    case False
    define q where "q = parent pos"
    have q: "q < pos" "pos < length xs" "q < length xs" using False 1(2) parent_less [of pos] by (simp_all add: q_def)
    have lt: "key (xs ! pos) \<le> key (xs ! q)" using False by (simp add: q_def not_le less_imp_le)
    let ?ys = "swap_at xs pos q"
    note nth = swap_at_nth [OF q(2,3)]
    have "small_at key q ?ys"
      unfolding small_at_def
    proof (intro conjI allI impI)
      fix i assume i: "i < length ?ys" "0 < i" "i \<noteq> q"
      show "key (?ys ! parent i) \<le> key (?ys ! i)"
      proof (cases "i = pos")
        case True
        then show ?thesis using lt q by (simp add: nth q_def [symmetric])
      next
        case False
        then have p: "key (xs ! parent i) \<le> key (xs ! i)" using 1(3) i by (simp add: small_at_def)
        show ?thesis
        proof (cases "parent i = pos")
          case True
          then have "key (xs ! q) \<le> key (xs ! i)" using 1(3) i q by (simp add: small_at_def q_def)
          with True False i(3) q show ?thesis by (simp add: nth)
        next
          case False
          with p lt \<open>i \<noteq> pos\<close> i(3) show ?thesis by (auto simp: nth)
        qed
      qed
    next
      fix i assume i: "i < length ?ys" "0 < i" "parent i = q" "0 < q"
      have g: "key (xs ! parent q) \<le> key (xs ! q)" using 1(3) q i(4) by (simp add: small_at_def)
      have ne: "parent q \<noteq> q" "parent q \<noteq> pos" "i \<noteq> q" using parent_less [of q] parent_less [of i] i q by auto
      show "key (?ys ! parent q) \<le> key (?ys ! i)"
      proof (cases "i = pos")
        case True
        with g ne show ?thesis by (simp add: nth)
      next
        case False
        then have "key (xs ! q) \<le> key (xs ! i)" using 1(3) i by (auto simp: small_at_def)
        with g ne False show ?thesis by (simp add: nth)
      qed
    qed
    with False 1(1) q show ?thesis by (subst sift_up.simps) (simp add: q_def)
  qed
qed

lemma child_of: "0 < i \<Longrightarrow> parent i = pos \<longleftrightarrow> i = 2 * pos + 1 \<or> i = 2 * pos + 2"
  by (auto simp: parent_def)

lemma hole_moves:
  assumes "hole_at key pos xs" "pos < length xs" "c < length xs" "0 < c" "parent c = pos"
    and "\<forall>i<length xs. 0 < i \<longrightarrow> parent i = pos \<longrightarrow> key (xs ! c) \<le> key (xs ! i)"
  shows "hole_at key c (swap_at xs pos c)"
proof -
  let ?ys = "swap_at xs pos c"
  note nth = swap_at_nth [OF assms(2,3)]
  have pc: "pos < c" using parent_less [OF assms(4)] assms(5) by simp
  show ?thesis
    unfolding hole_at_def
  proof (intro conjI allI impI)
    fix i assume i: "i < length ?ys" "0 < i" "i \<noteq> c" "parent i \<noteq> c"
    consider "i = pos" | "i \<noteq> pos" "parent i = pos" | "i \<noteq> pos" "parent i \<noteq> pos" by blast
    then show "key (?ys ! parent i) \<le> key (?ys ! i)"
    proof cases
      case 1
      with i parent_less [of pos] assms(1,3,5) pc show ?thesis
        using assms(4) by (auto simp: nth hole_at_def)
    next
      case 2
      with i assms(6) show ?thesis by (simp add: nth)
    next
      case 3
      with i assms(1) show ?thesis by (simp add: nth hole_at_def)
    qed
  next
    fix i assume i: "i < length ?ys" "0 < i" "parent i = c" "0 < c"
    have "i \<noteq> c" "i \<noteq> pos" using parent_less [OF i(2)] i(3) pc by auto
    with i assms(1,5) pc show "key (?ys ! parent c) \<le> key (?ys ! i)"
      by (auto simp: nth hole_at_def)
  qed
qed

lemma sift_to_bottom_hole:
  "pos < length xs \<Longrightarrow> hole_at key pos xs \<Longrightarrow> sift_to_bottom key pos xs = (p, ys) \<Longrightarrow> small_at key p ys"
proof (induction key pos xs rule: sift_to_bottom.induct)
  case (1 key pos xs)
  define c where "c = (if key (xs ! (2 * pos + 2)) \<le> key (xs ! (2 * pos + 1)) then 2 * pos + 2 else 2 * pos + 1)"
  consider "2 * pos + 1 \<le> length xs - 2" | "\<not> 2 * pos + 1 \<le> length xs - 2" "2 * pos + 1 = length xs - 1"
    | "\<not> 2 * pos + 1 \<le> length xs - 2" "2 * pos + 1 \<noteq> length xs - 1" by blast
  then show ?case
  proof cases
    case 1
    then have c: "c < length xs" "0 < c" "parent c = pos" by (auto simp: c_def parent_def)
    have m: "\<forall>i<length xs. 0 < i \<longrightarrow> parent i = pos \<longrightarrow> key (xs ! c) \<le> key (xs ! i)"
      by (auto simp: child_of c_def)
    from 1 "1.prems"(3) have e: "sift_to_bottom key c (swap_at xs pos c) = (p, ys)"
      by (subst (asm) sift_to_bottom.simps) (simp add: Let_def c_def split: if_splits)
    show ?thesis
      by (rule "1.IH" [OF refl refl _ _ _ _ e])
        (use 1 c hole_moves [OF "1.prems"(2,1) c m] in \<open>auto simp: c_def\<close>)
  next
    case 2
    then have c: "2 * pos + 1 < length xs" "parent (2 * pos + 1) = pos" by (auto simp: parent_def)
    have m: "\<forall>i<length xs. 0 < i \<longrightarrow> parent i = pos \<longrightarrow> key (xs ! (2 * pos + 1)) \<le> key (xs ! i)"
      using 2 by (auto simp: child_of)
    from 2 "1.prems"(3) have e: "p = 2 * pos + 1" "ys = swap_at xs pos (2 * pos + 1)"
      by (subst (asm) sift_to_bottom.simps, simp add: Let_def)+
    have h: "hole_at key p ys"
      unfolding e by (rule hole_moves [OF "1.prems"(2,1) c(1) _ c(2) m]) simp
    have "parent i \<noteq> p" if "i < length ys" "0 < i" for i
      using that 2 child_of [of i p] by (auto simp: e)
    with h show ?thesis by (simp add: small_at_def hole_at_def)
  next
    case 3
    from 3 "1.prems"(3) have e: "p = pos" "ys = xs"
      by (subst (asm) sift_to_bottom.simps, simp add: Let_def)+
    have "parent i \<noteq> pos" if "i < length xs" "0 < i" for i
      using that 3 child_of [of i pos] by auto
    with "1.prems"(2) show ?thesis by (simp add: small_at_def hole_at_def e)
  qed
qed

lemma heap_root_least: "heap_ordered key xs \<Longrightarrow> i < length xs \<Longrightarrow> key (xs ! 0) \<le> key (xs ! i)"
proof (induction i rule: less_induct)
  case (less i)
  show ?case
  proof (cases "i = 0")
    case False
    then have "parent i < i" by (simp add: parent_less)
    with less have "key (xs ! 0) \<le> key (xs ! parent i)" by simp
    also have "\<dots> \<le> key (xs ! i)" using less.prems False by (simp add: heap_ordered_def)
    finally show ?thesis .
  qed simp
qed

section \<open>A priority queue\<close>

text \<open>What successive pops give; in a priority queue they come in order, and before all that is left.\<close>

primrec pops :: "('q \<Rightarrow> ('a \<times> 'q) option) \<Rightarrow> 'q \<Rightarrow> 'a list \<Rightarrow> 'q \<Rightarrow> bool" where
  "pops pop q [] r \<longleftrightarrow> r = q"
| "pops pop q (x # xs) r \<longleftrightarrow> (\<exists>p. pop q = Some (x, p) \<and> pops pop p xs r)"

locale priority_queue =
  fixes key :: "'a \<Rightarrow> 'k::linorder"
    and empty :: "'q" and push :: "'a \<Rightarrow> 'q \<Rightarrow> 'q" and pop :: "'q \<Rightarrow> ('a \<times> 'q) option"
    and items :: "'q \<Rightarrow> 'a multiset" and invar :: "'q \<Rightarrow> bool"
  assumes items_empty: "items empty = {#}" "invar empty"
    and items_push: "invar q \<Longrightarrow> items (push x q) = add_mset x (items q)" "invar q \<Longrightarrow> invar (push x q)"
    and pop_None: "invar q \<Longrightarrow> pop q = None \<longleftrightarrow> items q = {#}"
    and pop_Some: "invar q \<Longrightarrow> pop q = Some (x, q') \<Longrightarrow>
      items q = add_mset x (items q') \<and> invar q' \<and> (\<forall>y\<in>#items q'. key x \<le> key y)"
begin

lemma pops_in_order:
  "invar q \<Longrightarrow> pops pop q xs r \<Longrightarrow>
   items q = mset xs + items r \<and> invar r \<and> sorted (map key xs) \<and> (\<forall>x\<in>set xs. \<forall>y\<in>#items r. key x \<le> key y)"
proof (induction xs arbitrary: q)
  case (Cons x xs)
  then obtain p where p: "pop q = Some (x, p)" "pops pop p xs r" by auto
  with pop_Some [OF Cons.prems(1) p(1)] Cons.IH [of p] show ?case by auto
qed simp

end

lemma heap_push_ordered: "heap_ordered key xs \<Longrightarrow> heap_ordered key (heap_push key x xs)"
  unfolding heap_push_def
proof (rule sift_up_ordered)
  assume h: "heap_ordered key xs"
  have p: "parent i < length xs" if "i < length (xs @ [x])" "0 < i" for i
    using that parent_less [of i] by simp
  show "small_at key (length xs) (xs @ [x])"
    unfolding small_at_def
  proof (intro conjI allI impI)
    fix i assume i: "i < length (xs @ [x])" "0 < i" "i \<noteq> length xs"
    with p [of i] h show "key ((xs @ [x]) ! parent i) \<le> key ((xs @ [x]) ! i)"
      by (simp add: nth_append heap_ordered_def)
  next
    fix i assume "i < length (xs @ [x])" "0 < i" "parent i = length xs"
    with p [of i] show "key ((xs @ [x]) ! parent (length xs)) \<le> key ((xs @ [x]) ! i)" by simp
  qed
qed simp

lemma heap_push_mset: "mset (heap_push key x xs) = add_mset x (mset xs)"
  by (simp add: heap_push_def sift_up_mset)

lemma heap_pop_Some:
  assumes "heap_ordered key xs" "heap_pop key xs = Some (x, ys)"
  shows "mset xs = add_mset x (mset ys) \<and> heap_ordered key ys \<and> (\<forall>y\<in>#mset ys. key x \<le> key y) \<and> x = xs ! 0"
proof -
  have ne: "xs \<noteq> []" using assms(2) by (auto simp: heap_pop_def)
  then obtain zs z where xs: "xs = zs @ [z]" by (cases xs rule: rev_cases) auto
  show ?thesis
  proof (cases zs)
    case Nil
    with assms(2) xs show ?thesis by (auto simp: heap_pop_def heap_ordered_def)
  next
    case (Cons a as)
    let ?hs = "z # as"
    obtain p hs where s: "sift_to_bottom key 0 ?hs = (p, hs)" by (rule prod.exhaust)
    then have r: "x = a" "ys = sift_up key p hs"
      using assms(2) xs Cons by (auto simp: heap_pop_def Let_def)
    have hs: "mset hs = mset ?hs" "p < length hs"
      using sift_to_bottom_mset [OF _ s] mset_eq_length by fastforce+
    have "hole_at key 0 ?hs"
      unfolding hole_at_def
    proof (intro conjI allI impI)
      fix i assume i: "i < length ?hs" "0 < i" "i \<noteq> 0" "parent i \<noteq> 0"
      then have "i < length xs" using xs Cons by simp
      then have "key (xs ! parent i) \<le> key (xs ! i)" using assms(1) i(2) by (simp add: heap_ordered_def)
      moreover have "xs ! j = ?hs ! j" if "0 < j" "j \<le> i" for j
        using that i(1) xs Cons by (cases j) (simp_all add: nth_append)
      then have "xs ! i = ?hs ! i" "xs ! parent i = ?hs ! parent i"
        using i parent_less [of i] by simp_all
      ultimately show "key (?hs ! parent i) \<le> key (?hs ! i)" by simp
    qed simp
    from sift_to_bottom_hole [OF _ this s] have "small_at key p hs" by simp
    then have o: "heap_ordered key ys" unfolding r by (rule sift_up_ordered [OF hs(2)])
    have m: "mset xs = add_mset x (mset ys)" using hs xs Cons by (simp add: r sift_up_mset)
    have "key x \<le> key y" if "y \<in># mset ys" for y
    proof -
      have "y \<in> set xs" using that m by (metis set_mset_mset union_single_eq_member insert_iff set_mset_add_mset_insert)
      then obtain i where "i < length xs" "y = xs ! i" by (auto simp: in_set_conv_nth)
      with heap_root_least [OF assms(1)] r(1) xs Cons show ?thesis by fastforce
    qed
    with o m r(1) xs Cons show ?thesis by simp
  qed
qed

lemma heap_pop_length: "heap_pop key xs = Some (x, ys) \<Longrightarrow> length ys < length xs"
proof -
  assume p: "heap_pop key xs = Some (x, ys)"
  then obtain zs z where xs: "xs = zs @ [z]" by (cases xs rule: rev_cases) (auto simp: heap_pop_def)
  show ?thesis
  proof (cases zs)
    case Nil
    with p xs show ?thesis by (auto simp: heap_pop_def)
  next
    case (Cons a as)
    obtain q hs where s: "sift_to_bottom key 0 (z # as) = (q, hs)" by (rule prod.exhaust)
    have hs: "mset hs = mset (z # as)" "q < length (z # as)" using sift_to_bottom_mset [OF _ s] by simp_all
    then have "q < length hs" using mset_eq_length [OF hs(1)] by simp
    with hs(1) have "mset ys = mset (z # as)" using p xs Cons s
      by (auto simp: heap_pop_def Let_def sift_up_mset)
    then have "length ys = length (z # as)" by (rule mset_eq_length)
    then show ?thesis using xs Cons by simp
  qed
qed

lemma heap_pop_None: "heap_pop key xs = None \<longleftrightarrow> xs = []"
  by (simp add: heap_pop_def Let_def split: prod.split)

interpretation bin_heap: priority_queue key "[]" "heap_push key" "heap_pop key" mset "heap_ordered key"
  for key :: "'a \<Rightarrow> 'k::linorder"
  by unfold_locales
    (auto simp: heap_push_mset heap_push_ordered heap_pop_None heap_pop_Some heap_ordered_def [of _ "[]"]
      dest: heap_pop_Some)

end
