(* ===== verification/Integration.thy ===== *)
theory Integration
  imports AafStream PhcSync Wav Network Transport BinHeap
begin

text \<open>
  \<^verbatim>\<open>src/bin/avtp-integration-test.rs\<close>: a talker thread paces the packets of a WAV file onto the network, a
  receiver thread turns packets into frames, and the main thread keeps the frames in a jitter buffer
  until their presentation time, writes what it has presented and compares it with what was sent. Each
  thread is a function of the machine, on which the others run at the same time: what they do shows in
  what its calls return.
\<close>

section \<open>Arguments, records and errors\<close>

record args =
  wav_file :: string
  talker_interface :: string
  listener_interface :: string
  talker_ptp :: "string option"
  listener_ptp :: "string option"
  system_time_arg :: bool
  playback_delay_ms :: u32
  stream_uid :: u16
  timeout_secs :: "64 word"
  output_dir_arg :: "string option"
  samples_per_packet_arg :: "u32 option"

text \<open>The messages of the program's errors, by what went wrong.\<close>

datatype test_error =
    OpenWav io_error
  | ReadWav wav_error
  | InterfaceError string validated_interface_error
  | SameInterface string
  | ReceiverFailed string
  | ReceiverGone
  | TooLargeToSchedule
  | MissingInterface string
  | ChannelFailed string
  | ClockFailed string phc_error
  | SyncClockFailed "phc_error clock_error"
  | NoMacAddr
  | InvalidBitDepth u16
  | UnsupportedFormat unsupported_wav_encoding
  | UnsupportedRate u32
  | TalkerConfig talker_config_error
  | BuildFailed "phc_error talker_error"
  | SendFailed ethernet_sender_error
  | ReceiveFailed ethernet_receiver_error
  | TalkerPanicked
  | TalkerUnfinished
  | OutputDir io_error
  | WriteFailed string os_error
  | WavWrite io_error
  | ValidationFailed

record loaded_wav =
  lw_header :: wav_header
  lw_pcm_le :: "byte list"

record talker_record =
  t_frame_idx :: nat
  t_seq_num :: byte
  t_phc_time_at_send :: ptp_time
  t_avtp_timestamp_embedded :: u32

record listener_record =
  l_frame_idx :: nat
  l_seq_num :: byte
  l_phc_time_at_receive :: ptp_time
  l_avtp_timestamp_embedded :: u32
  l_phc_time_at_present :: ptp_time

definition comma :: "string list \<Rightarrow> string" where
  "comma fs = (case fs of [] \<Rightarrow> [] | f # fs \<Rightarrow> f @ concat (map (\<lambda>g. CHR '','' # g) fs))"

definition talker_csv_header :: string where
  "talker_csv_header = ''frame_idx,seq_num,phc_time_at_send,avtp_timestamp_embedded''"

definition talker_csv_line :: "talker_record \<Rightarrow> string" where
  "talker_csv_line r =
     comma [show_nat (t_frame_idx r), show_nat (unat (t_seq_num r)), ptp_display (t_phc_time_at_send r),
       show_nat (unat (t_avtp_timestamp_embedded r))]"

definition listener_csv_header :: string where
  "listener_csv_header = ''frame_idx,seq_num,phc_time_at_receive,avtp_timestamp_embedded,phc_time_at_present''"

definition listener_csv_line :: "listener_record \<Rightarrow> string" where
  "listener_csv_line r =
     comma [show_nat (l_frame_idx r), show_nat (unat (l_seq_num r)), ptp_display (l_phc_time_at_receive r),
       show_nat (unat (l_avtp_timestamp_embedded r)), ptp_display (l_phc_time_at_present r)]"

text \<open>A received frame with the time it arrived, and with the time it is to be presented.\<close>

type_synonym event = "received_pcm \<times> ptp_time"

record buffered =
  b_presentation_time :: ptp_time
  b_phc_time_at_receive :: ptp_time
  b_pcm :: received_pcm

section \<open>Byte order\<close>

text \<open>
  \<^verbatim>\<open>chunks_exact_mut\<close> panics for a word size of zero; the bytes after the last whole word are not visited.
\<close>

fun swap_words :: "nat \<Rightarrow> byte list \<Rightarrow> byte list" where
  "swap_words n bs = (if n = 0 \<or> length bs < n then bs else rev (take n bs) @ swap_words n (drop n bs))"

declare swap_words.simps [simp del]

definition swap_byte_order :: "byte list \<Rightarrow> nat \<Rightarrow> ('e, byte list) res" where
  "swap_byte_order buf n = (if n = 0 then Panic else Ok (swap_words n buf))"

text \<open>\<^verbatim>\<open>chunks\<close>: the last chunk may be shorter; a chunk size of zero panics.\<close>

fun chunks_of :: "nat \<Rightarrow> byte list \<Rightarrow> byte list list" where
  "chunks_of n bs = (if n = 0 \<or> bs = [] then [] else take n bs # chunks_of n (drop n bs))"

declare chunks_of.simps [simp del]

section \<open>Setup\<close>

definition load_wav :: "bool \<Rightarrow> (io_error, byte list) res \<Rightarrow> (test_error, loaded_wav) res" where
  "load_wav dbg file =
     rbind (map_err OpenWav file) (\<lambda>bytes.
     rbind (map_err ReadWav (wav_read dbg bytes)) (\<lambda>(w, _).
     Ok \<lparr>lw_header = header w, lw_pcm_le = wav_data w\<rparr>))"

definition validate_interface ::
    "bool \<Rightarrow> 'w net_env \<Rightarrow> string \<Rightarrow> bool \<Rightarrow> string option \<Rightarrow> string \<Rightarrow> ('w, test_error, validated_interface) sys"
  where
  "validate_interface dbg E name use_system_time explicit_ptp role =
     smap_err (InterfaceError role) (from_time_args dbg E name explicit_ptp use_system_time)"

definition validate_and_extract_interfaces ::
    "bool \<Rightarrow> 'w net_env \<Rightarrow> args \<Rightarrow> ('w, test_error, validated_interface \<times> validated_interface) sys" where
  "validate_and_extract_interfaces dbg E a =
     sbind (validate_interface dbg E (talker_interface a) (system_time_arg a) (talker_ptp a) ''talker'') (\<lambda>talker.
     sbind (validate_interface dbg E (listener_interface a) (system_time_arg a) (listener_ptp a) ''listener'') (\<lambda>listener.
     sbind (slift (ensure (if_name (vi_interface talker) \<noteq> if_name (vi_interface listener))
       (SameInterface (if_name (vi_interface talker))))) (\<lambda>_.
     sret (talker, listener))))"

definition samples_per_packet :: "args \<Rightarrow> wav_header \<Rightarrow> u32" where
  "samples_per_packet a h =
     (case samples_per_packet_arg a of Some n \<Rightarrow> n | None \<Rightarrow> max (wav_sample_rate h div 1000) 1)"

definition header_bytes_per_sample :: "wav_header \<Rightarrow> nat" where
  "header_bytes_per_sample h = unat (bits_per_sample h) div 8"

text \<open>The division by the bytes per second panics when there are none.\<close>

definition total_audio_duration :: "wav_header \<Rightarrow> nat \<Rightarrow> (test_error, duration) res" where
  "total_audio_duration h len =
     (let bytes_per_second = unat (wav_sample_rate h) * unat (wav_channels h) * header_bytes_per_sample h in
      if bytes_per_second = 0 then Panic
      else
        let total_audio_ns = len * 1000000000 div bytes_per_second in
        rbind (ensure (total_audio_ns < 2 ^ 64) TooLargeToSchedule) (\<lambda>_. Ok total_audio_ns))"

text \<open>Instants are signed 64-bit seconds with their nanoseconds; an addition beyond them panics.\<close>

definition drain_deadline :: "args \<Rightarrow> nat \<Rightarrow> duration \<Rightarrow> ('e, nat) res" where
  "drain_deadline a now dur =
     (let t = now + dur + nsec_per_sec + unat (playback_delay_ms a) * 3 * 1000000 + unat (timeout_secs a) * nsec_per_sec in
      if t < 2 ^ 63 * nsec_per_sec then Ok t else Panic)"

section \<open>The machine\<close>

datatype 'r try_recv = Received 'r | Empty | Disconnected

record 'w test_env =
  te_net :: "'w net_env"
  te_link :: "'w datalink"
  te_files :: "'w proc_ops"
  te_now :: "'w \<Rightarrow> nat"
  te_sleep :: "duration \<Rightarrow> 'w \<Rightarrow> 'w"
  te_epoch_secs :: "'w \<Rightarrow> nat option"
  te_create_dir :: "string \<Rightarrow> ('w, io_error, unit) sys"
  te_ready :: "('w, test_error, unit) sys"
  te_send_event :: "event \<Rightarrow> 'w \<Rightarrow> bool \<times> 'w"
  te_recv_event :: "'w \<Rightarrow> event option \<times> 'w"
  te_recv_talker :: "'w \<Rightarrow> (test_error, talker_record list) res try_recv \<times> 'w"

abbreviation te_kernel :: "'w test_env \<Rightarrow> 'w kernel" where
  "te_kernel E \<equiv> net_kernel (te_net E)"

definition open_source :: "'w test_env \<Rightarrow> clock_source \<Rightarrow> string \<Rightarrow> ('w, test_error, ptp_clock) sys" where
  "open_source E cs what = smap_err (ClockFailed what) (source_open_clock (te_kernel E) cs)"

definition read_clock :: "bool \<Rightarrow> 'w test_env \<Rightarrow> ptp_clock \<Rightarrow> string \<Rightarrow> ('w, test_error, ptp_time) sys" where
  "read_clock dbg E clk what = smap_err (ClockFailed what) (ptp_clock_time dbg (te_kernel E) clk)"

section \<open>The receiver thread\<close>

text \<open>One packet: the clock is read when its frame has arrived, and a failed reading ends the thread.\<close>

definition receive_one ::
    "bool \<Rightarrow> 'b bit_read_ops \<Rightarrow> 'w test_env \<Rightarrow> ethernet_avtp_receiver \<Rightarrow> ptp_clock \<Rightarrow> 'w \<Rightarrow>
     ((test_error, ptp_time \<times> avtpdu) res \<times> 'w) option" where
  "receive_one dbg R E rx clk w =
     map_option (\<lambda>(r, w'). (rbind (map_err ReceiveFailed r) (\<lambda>(t, pdu).
         rbind (map_err (ClockFailed ''receive'') t) (\<lambda>t. Ok (t, pdu))), w'))
       (recv_next_with dbg R (te_link E) rx (ptp_clock_time dbg (te_kernel E) clk) w)"

partial_function (option) receiver_loop ::
    "bool \<Rightarrow> 'b bit_read_ops \<Rightarrow> 'w test_env \<Rightarrow> ethernet_avtp_receiver \<Rightarrow> ptp_clock \<Rightarrow> aaf_pcm_listener \<Rightarrow> 'w \<Rightarrow>
     ((test_error, unit) res \<times> 'w) option" where
  "receiver_loop dbg R E rx clk listener w =
     (case receive_one dbg R E rx clk w of
        None \<Rightarrow> None
      | Some (received, w) \<Rightarrow>
          (case received of
             Err e \<Rightarrow> Some (Err e, w)
           | Panic \<Rightarrow> Some (Panic, w)
           | Ok (t, pdu) \<Rightarrow>
               (case process dbg R pdu listener of (r, listener) \<Rightarrow>
                  (case r of
                     Panic \<Rightarrow> Some (Panic, w)
                   | Err _ \<Rightarrow> receiver_loop dbg R E rx clk listener w
                   | Ok None \<Rightarrow> receiver_loop dbg R E rx clk listener w
                   | Ok (Some pcm) \<Rightarrow>
                       (case te_send_event E (pcm, t) w of (sent, w) \<Rightarrow>
                          if sent then receiver_loop dbg R E rx clk listener w else Some (Ok (), w))))))"

text \<open>
  The thread reports through \<open>ready\<close> whether the channel could be opened before it starts; that the
  clock cannot be opened is not reported but closes the channel of the report.
\<close>

definition receiver_setup ::
    "'w test_env \<Rightarrow> string \<Rightarrow> clock_source \<Rightarrow> mac_addr \<Rightarrow> u16 \<Rightarrow>
     ('w, test_error, ethernet_avtp_receiver \<times> ptp_clock \<times> aaf_pcm_listener) sys" where
  "receiver_setup E iface_name cs talker_mac uid =
     sbind (\<lambda>w. (ok_or ReceiverGone (find_interface (te_net E) w iface_name), w)) (\<lambda>iface.
     sbind (smap_err (\<lambda>_. ReceiverFailed iface_name) (receiver_new (te_link E) iface)) (\<lambda>rx.
     sbind (smap_err (\<lambda>_. ReceiverGone) (source_open_clock (te_kernel E) cs)) (\<lambda>clk.
     sret (rx, clk, listener_new (Some \<lparr>mac_address = talker_mac, unique_id = uid\<rparr>)))))"

definition receiver_thread ::
    "bool \<Rightarrow> 'b bit_read_ops \<Rightarrow> 'w test_env \<Rightarrow> string \<Rightarrow> clock_source \<Rightarrow> mac_addr \<Rightarrow> u16 \<Rightarrow> 'w \<Rightarrow>
     ((test_error, unit) res \<times> 'w) option" where
  "receiver_thread dbg R E iface_name cs talker_mac uid w =
     (case receiver_setup E iface_name cs talker_mac uid w of (r, w) \<Rightarrow>
        (case r of
           Err e \<Rightarrow> Some (Err e, w)
         | Panic \<Rightarrow> Some (Panic, w)
         | Ok (rx, clk, listener) \<Rightarrow> receiver_loop dbg R E rx clk listener w))"

section \<open>The talker thread\<close>

text \<open>The reading of the clock that a synchronised clock makes when its resynchronisation is due.\<close>

definition due_reading ::
    "bool \<Rightarrow> 'w test_env \<Rightarrow> ptp_clock \<Rightarrow> sync_clock \<Rightarrow> 'w \<Rightarrow> phc_error reading \<times> 'w" where
  "due_reading dbg E clk c w =
     (if resync_interval c \<le> duration_since (te_now E w) (last_ptp_instant c)
      then ptp_clock_time dbg (te_kernel E) clk w else (Ok (last_ptp_time c), w))"

record talker_setup =
  ts_sender :: ethernet_avtp_sender
  ts_sync_source :: ptp_clock
  ts_check_clock :: ptp_clock
  ts_talker :: aaf_pcm_talker

text \<open>The \<^verbatim>\<open>u10\<close> of the channels panics beyond 1023.\<close>

definition talker_start ::
    "bool \<Rightarrow> 'w test_env \<Rightarrow> string \<Rightarrow> clock_source \<Rightarrow> mac_addr \<Rightarrow> u16 \<Rightarrow> u32 \<Rightarrow> wav_header \<Rightarrow>
     ('w, test_error, talker_setup) sys" where
  "talker_start dbg E iface_name cs dst_mac uid delay_ms h =
     sbind (\<lambda>w. (ok_or (MissingInterface iface_name) (find_interface (te_net E) w iface_name), w)) (\<lambda>iface.
     sbind (smap_err (\<lambda>_. ChannelFailed iface_name) (sender_new (te_link E) iface dst_mac)) (\<lambda>sender.
     sbind (open_source E cs ''talker'') (\<lambda>sync_source.
     sbind (\<lambda>w. case ptp_clock_time dbg (te_kernel E) sync_source w of
         (reading, w) \<Rightarrow> (map_err SyncClockFailed (sync_clock_new reading (te_now E w)), w)) (\<lambda>ptp_sync.
     sbind (open_source E cs ''talker validation'') (\<lambda>check_clock.
     sbind (slift (ok_or NoMacAddr (if_mac iface))) (\<lambda>mac.
     sbind (slift (ensure (unat (valid_bits_per_sample h) < 256) (InvalidBitDepth (valid_bits_per_sample h)))) (\<lambda>_.
     sbind (slift (map_err UnsupportedFormat (from_wav_header h))) (\<lambda>fmt.
     sbind (slift (ok_or (UnsupportedRate (wav_sample_rate h)) (from_hz (wav_sample_rate h)))) (\<lambda>rate.
     sbind (slift (if unat (wav_channels h) < 1024 then Ok () else Panic)) (\<lambda>_.
     sbind (slift (map_err TalkerConfig (talker_new dbg \<lparr>mac_address = mac, unique_id = uid\<rparr> fmt rate
         (ucast (wav_channels h)) (ucast (valid_bits_per_sample h)) ptp_sync delay_ms))) (\<lambda>talker.
     sret \<lparr>ts_sender = sender, ts_sync_source = sync_source, ts_check_clock = check_clock,
           ts_talker = talker\<rparr>)))))))))))"

definition embedded_timestamp :: "avtpdu \<Rightarrow> ('e, u32) res" where
  "embedded_timestamp pdu =
     (case pdu of Stream h \<Rightarrow> Ok (as_u32 (avtp_timestamp (generic h))) | _ \<Rightarrow> Panic)"

text \<open>One chunk: wait for its time, read the clock, swap the byte order, build, send and record.\<close>

definition talker_step ::
    "bool \<Rightarrow> 'b bit_write_ops \<Rightarrow> 'w test_env \<Rightarrow> talker_setup \<Rightarrow> nat \<Rightarrow> nat \<Rightarrow> nat \<Rightarrow> nat \<Rightarrow> byte list \<Rightarrow>
     aaf_pcm_talker \<Rightarrow> ('w, test_error, talker_record \<times> aaf_pcm_talker) sys" where
  "talker_step dbg W E su bytes_per_sample packet_duration_ns start_pacing frame_idx chunk tk w =
     (let target_time = start_pacing + frame_idx * packet_duration_ns;
          w = (if te_now E w \<le> target_time then te_sleep E (target_time - te_now E w) w else w) in
      sbind (read_clock dbg E (ts_check_clock su) ''talker'') (\<lambda>phc_time_at_send.
      sbind (slift (swap_byte_order chunk bytes_per_sample)) (\<lambda>payload_be.
      sbind (\<lambda>w. case due_reading dbg E (ts_sync_source su) (tk_ptp_clock tk) w of (reading, w') \<Rightarrow>
          case build_packet dbg W (te_now E w) reading payload_be tk of (r, tk') \<Rightarrow>
          (rbind (map_err BuildFailed r) (\<lambda>pdu. Ok (pdu, tk')), w')) (\<lambda>(avtpdu, tk').
      sbind (smap_err SendFailed (sender_send dbg W (te_link E) (ts_sender su) avtpdu)) (\<lambda>_.
      sbind (slift (embedded_timestamp avtpdu)) (\<lambda>ts.
      sret (\<lparr>t_frame_idx = frame_idx, t_seq_num = of_nat frame_idx, t_phc_time_at_send = phc_time_at_send,
             t_avtp_timestamp_embedded = ts\<rparr>, tk')))))) w)"

primrec talker_loop ::
    "bool \<Rightarrow> 'b bit_write_ops \<Rightarrow> 'w test_env \<Rightarrow> talker_setup \<Rightarrow> nat \<Rightarrow> nat \<Rightarrow> nat \<Rightarrow> nat \<Rightarrow> byte list list \<Rightarrow>
     aaf_pcm_talker \<Rightarrow> ('w, test_error, talker_record list) sys" where
  "talker_loop dbg W E su bps dur start_pacing frame_idx [] tk = sret []"
| "talker_loop dbg W E su bps dur start_pacing frame_idx (chunk # cs) tk =
     sbind (talker_step dbg W E su bps dur start_pacing frame_idx chunk tk) (\<lambda>(r, tk').
     sbind (talker_loop dbg W E su bps dur start_pacing (Suc frame_idx) cs tk') (\<lambda>rs.
     sret (r # rs)))"

definition talker_thread ::
    "bool \<Rightarrow> 'b bit_write_ops \<Rightarrow> 'w test_env \<Rightarrow> string \<Rightarrow> clock_source \<Rightarrow> mac_addr \<Rightarrow> u16 \<Rightarrow> u32 \<Rightarrow> u32 \<Rightarrow>
     wav_header \<Rightarrow> byte list \<Rightarrow> ('w, test_error, talker_record list) sys" where
  "talker_thread dbg W E iface_name cs dst_mac uid delay_ms samples h pcm_le =
     sbind (talker_start dbg E iface_name cs dst_mac uid delay_ms h) (\<lambda>su.
     let bytes_per_sample = header_bytes_per_sample h;
         chunk_size = unat samples * (unat (wav_channels h) * bytes_per_sample);
         packet_duration_ns = unat samples * 1000000000 div unat (wav_sample_rate h) in
     sbind (slift (if chunk_size = 0 then Panic else Ok ())) (\<lambda>_ w.
     talker_loop dbg W E su bytes_per_sample packet_duration_ns (te_now E w) 0 (chunks_of chunk_size pcm_le)
       (ts_talker su) w))"

section \<open>The drain loop\<close>

text \<open>
  The jitter buffer is a heap on the presentation time: \<^verbatim>\<open>Buffered\<close> is compared by it alone.
\<close>

abbreviation jitter_push :: "buffered \<Rightarrow> buffered list \<Rightarrow> buffered list" where
  "jitter_push \<equiv> heap_push b_presentation_time"

abbreviation jitter_pop :: "buffered list \<Rightarrow> (buffered \<times> buffered list) option" where
  "jitter_pop \<equiv> heap_pop b_presentation_time"

definition make_buffered :: "event \<Rightarrow> ('e, buffered) res" where
  "make_buffered ev =
     rbind (expand_near (rx_avtp_timestamp (fst ev)) (snd ev)) (\<lambda>t.
     Ok \<lparr>b_presentation_time = t, b_phc_time_at_receive = snd ev, b_pcm = fst ev\<rparr>)"

partial_function (option) receive_events ::
    "'w test_env \<Rightarrow> buffered list \<Rightarrow> 'w \<Rightarrow> ((test_error, buffered list) res \<times> 'w) option" where
  "receive_events E buf w =
     (case te_recv_event E w of (ev, w) \<Rightarrow>
        (case ev of
           None \<Rightarrow> Some (Ok buf, w)
         | Some ev \<Rightarrow>
             (case make_buffered ev of
                Ok b \<Rightarrow> receive_events E (jitter_push b buf) w
              | Err e \<Rightarrow> Some (Err e, w)
              | Panic \<Rightarrow> Some (Panic, w))))"

record presented =
  jitter_buf :: "buffered list"
  listener_records :: "listener_record list"
  received_pcm_le :: "byte list"

text \<open>The presentation of what is due: the records count the frames presented.\<close>

function present ::
    "bool \<Rightarrow> 'w test_env \<Rightarrow> ptp_clock \<Rightarrow> ptp_time \<Rightarrow> buffered list \<Rightarrow> listener_record list \<Rightarrow> byte list \<Rightarrow>
     ('w, test_error, presented) sys" where
  "present dbg E clk current buf recs pcm w =
     (case heap_peek buf of
        None \<Rightarrow> (Ok \<lparr>jitter_buf = buf, listener_records = recs, received_pcm_le = pcm\<rparr>, w)
      | Some first \<Rightarrow>
          if \<not> b_presentation_time first \<le> current
          then (Ok \<lparr>jitter_buf = buf, listener_records = recs, received_pcm_le = pcm\<rparr>, w)
          else (case jitter_pop buf of
             None \<Rightarrow> (Panic, w)
           | Some (b, rest) \<Rightarrow>
               (case read_clock dbg E clk ''presentation'' w of (r, w) \<Rightarrow>
                  (case r of
                     Err e \<Rightarrow> (Err e, w)
                   | Panic \<Rightarrow> (Panic, w)
                   | Ok phc_time_at_present \<Rightarrow>
                       (case swap_byte_order (payload_be (b_pcm b)) (unat (rx_bit_depth (b_pcm b)) div 8) of
                          Err e \<Rightarrow> (Err e, w)
                        | Panic \<Rightarrow> (Panic, w)
                        | Ok pcm_le \<Rightarrow>
                            present dbg E clk current rest
                              (recs @ [\<lparr>l_frame_idx = length recs, l_seq_num = rx_seq_num (b_pcm b),
                                l_phc_time_at_receive = b_phc_time_at_receive b,
                                l_avtp_timestamp_embedded = as_u32 (rx_avtp_timestamp (b_pcm b)),
                                l_phc_time_at_present = phc_time_at_present\<rparr>])
                              (pcm @ pcm_le) w)))))"
  by pat_completeness auto

termination
  by (relation "measure (\<lambda>(dbg, E, clk, current, buf, recs, pcm, w). length buf)") (auto dest: heap_pop_length)

declare present.simps [simp del]

type_synonym talker_result = "(test_error, talker_record list) res option"

definition poll_talker :: "'w test_env \<Rightarrow> talker_result \<Rightarrow> 'w \<Rightarrow> talker_result \<times> 'w" where
  "poll_talker E tr w =
     (if tr \<noteq> None then (tr, w)
      else case te_recv_talker E w of (x, w) \<Rightarrow>
        ((case x of Received r \<Rightarrow> Some r | Empty \<Rightarrow> None | Disconnected \<Rightarrow> Some (Err TalkerPanicked)), w))"

definition drain_pass ::
    "bool \<Rightarrow> 'w test_env \<Rightarrow> ptp_clock \<Rightarrow> presented \<times> talker_result \<Rightarrow> 'w \<Rightarrow>
     ((test_error, presented \<times> talker_result) res \<times> 'w) option" where
  "drain_pass dbg E clk st w =
     (case st of (p, tr) \<Rightarrow>
      case receive_events E (jitter_buf p) w of
        None \<Rightarrow> None
      | Some (r, w) \<Rightarrow>
          (case r of
             Err e \<Rightarrow> Some (Err e, w)
           | Panic \<Rightarrow> Some (Panic, w)
           | Ok buf \<Rightarrow>
               (case poll_talker E tr w of (tr, w) \<Rightarrow>
                  Some (sbind (read_clock dbg E clk ''presentation'') (\<lambda>current.
                    sbind (present dbg E clk current buf (listener_records p) (received_pcm_le p)) (\<lambda>p.
                    sret (p, tr))) w))))"

partial_function (option) drain_rounds ::
    "bool \<Rightarrow> 'w test_env \<Rightarrow> ptp_clock \<Rightarrow> nat \<Rightarrow> presented \<times> talker_result \<Rightarrow> 'w \<Rightarrow>
     ((test_error, presented \<times> talker_result) res \<times> 'w) option" where
  "drain_rounds dbg E clk deadline st w =
     (case drain_pass dbg E clk st w of
        None \<Rightarrow> None
      | Some (r, w) \<Rightarrow>
          (case r of
             Err e \<Rightarrow> Some (Err e, w)
           | Panic \<Rightarrow> Some (Panic, w)
           | Ok (p, tr) \<Rightarrow>
               if tr \<noteq> None \<and> jitter_buf p = [] then Some (Ok (p, tr), w)
               else if deadline < te_now E w then Some (Ok (p, tr), w)
               else drain_rounds dbg E clk deadline (p, tr) (te_sleep E 1000000 w)))"

definition nothing_presented :: presented where
  "nothing_presented = \<lparr>jitter_buf = [], listener_records = [], received_pcm_le = []\<rparr>"

definition drain_result ::
    "presented \<times> talker_result \<Rightarrow> (test_error, talker_record list \<times> listener_record list \<times> byte list) res" where
  "drain_result st =
     (case st of (p, tr) \<Rightarrow>
      rbind (case tr of Some r \<Rightarrow> r | None \<Rightarrow> Err TalkerUnfinished) (\<lambda>talker_records.
      Ok (talker_records, listener_records p, received_pcm_le p)))"

definition drain_loop ::
    "bool \<Rightarrow> 'w test_env \<Rightarrow> clock_source \<Rightarrow> nat \<Rightarrow> 'w \<Rightarrow>
     ((test_error, talker_record list \<times> listener_record list \<times> byte list) res \<times> 'w) option" where
  "drain_loop dbg E cs deadline w =
     (case open_source E cs ''presentation'' w of (r, w) \<Rightarrow>
        (case r of
           Err e \<Rightarrow> Some (Err e, w)
         | Panic \<Rightarrow> Some (Panic, w)
         | Ok clk \<Rightarrow>
             map_option (\<lambda>(r, w). (rbind r drain_result, w))
               (drain_rounds dbg E clk deadline (nothing_presented, None) w)))"

section \<open>Analysis\<close>

datatype failure =
    CountMismatch nat nat
  | MetadataMismatch nat byte u32 byte u32
  | LengthMismatch nat nat
  | PcmMismatch nat byte byte

definition first_index :: "('a \<Rightarrow> bool) \<Rightarrow> 'a list \<Rightarrow> nat option" where
  "first_index P xs = find (\<lambda>i. P (xs ! i)) [0..<length xs]"

definition failures_of ::
    "talker_record list \<Rightarrow> listener_record list \<Rightarrow> byte list \<Rightarrow> byte list \<Rightarrow> failure list" where
  "failures_of ts ls sent received =
     (if length ts \<noteq> length ls then [CountMismatch (length ts) (length ls)] else []) @
     (case first_index (\<lambda>(t, l). t_seq_num t \<noteq> l_seq_num l \<or>
          t_avtp_timestamp_embedded t \<noteq> l_avtp_timestamp_embedded l) (zip ts ls) of
        None \<Rightarrow> []
      | Some i \<Rightarrow> [MetadataMismatch i (t_seq_num (ts ! i)) (t_avtp_timestamp_embedded (ts ! i))
          (l_seq_num (ls ! i)) (l_avtp_timestamp_embedded (ls ! i))]) @
     (if length sent \<noteq> length received then [LengthMismatch (length sent) (length received)] else []) @
     (case first_index (\<lambda>(s, r). s \<noteq> r) (zip sent received) of
        None \<Rightarrow> [] | Some i \<Rightarrow> [PcmMismatch i (sent ! i) (received ! i)])"

definition analyze_and_report ::
    "talker_record list \<Rightarrow> listener_record list \<Rightarrow> byte list \<Rightarrow> byte list \<Rightarrow> (test_error, unit) res" where
  "analyze_and_report ts ls sent received = ensure (failures_of ts ls sent received = []) ValidationFailed"

section \<open>Files\<close>

text \<open>\<^verbatim>\<open>Path::join\<close> with a relative file name.\<close>

definition path_join :: "string \<Rightarrow> string \<Rightarrow> string" where
  "path_join dir name =
     (if dir = [] then name else if last dir = CHR ''/'' then dir @ name else dir @ ''/'' @ name)"

text \<open>The file of the received audio is created first; \<open>write_wav\<close> is what writing the bytes to it does.\<close>

definition save_outputs ::
    "bool \<Rightarrow> 'w proc_ops \<Rightarrow> (byte list \<Rightarrow> ('w, io_error, unit) sys) \<Rightarrow> string \<Rightarrow> talker_record list \<Rightarrow>
     listener_record list \<Rightarrow> byte list \<Rightarrow> wav_header \<Rightarrow> ('w, test_error, unit) sys" where
  "save_outputs dbg P write_wav dir ts ls pcm h =
     sbind (smap_err (WriteFailed ''talker.csv'')
       (write_csv P (path_join dir ''talker.csv'') talker_csv_header (map talker_csv_line ts))) (\<lambda>_.
     sbind (smap_err (WriteFailed ''listener.csv'')
       (write_csv P (path_join dir ''listener.csv'') listener_csv_header (map listener_csv_line ls))) (\<lambda>_.
     sbind (smap_err (WriteFailed ''received.wav'') (os_create_file P (path_join dir ''received.wav''))) (\<lambda>_.
     sbind (smap_err WavWrite (sbind (slift (wav_write dbg (from_header_and_data h pcm) ([], None))) (\<lambda>(bytes, _).
       write_wav bytes))) (\<lambda>_.
     sret ()))))"

section \<open>The main thread\<close>

definition setup_output_dir :: "'w test_env \<Rightarrow> args \<Rightarrow> ('w, test_error, string) sys" where
  "setup_output_dir E a w =
     (let dir = (case output_dir_arg a of
          Some d \<Rightarrow> d
        | None \<Rightarrow> ''/tmp/avtp-test-'' @ show_nat (case te_epoch_secs E w of Some n \<Rightarrow> n | None \<Rightarrow> 0)) in
      sbind (smap_err OutputDir (te_create_dir E dir)) (\<lambda>_. sret dir) w)"

text \<open>The lines of the configuration; how an address is printed is up to the crate of its type.\<close>

definition interface_line :: "(mac_addr \<Rightarrow> string) \<Rightarrow> string \<Rightarrow> validated_interface \<Rightarrow> ('e, string) res" where
  "interface_line show_mac role v =
     rbind (vi_mac_address v) (\<lambda>mac.
     Ok (role @ '' interface: '' @ if_name (vi_interface v) @ '' ('' @ show_mac mac @ '') ['' @
       clock_source_display (vi_clock_source v) @ '']''))"

definition log_config ::
    "(mac_addr \<Rightarrow> string) \<Rightarrow> args \<Rightarrow> wav_header \<Rightarrow> validated_interface \<Rightarrow> validated_interface \<Rightarrow> string \<Rightarrow>
     ('e, string list) res" where
  "log_config show_mac a h talker listener output_dir =
     rbind (interface_line show_mac ''Talker'' talker) (\<lambda>talker_line.
     rbind (interface_line show_mac ''Listener'' listener) (\<lambda>listener_line.
     Ok [''=== AVTP Integration Test ==='',
       ''Input WAV: '' @ wav_file a @ '' ('' @ show_nat (unat (wav_sample_rate h)) @ '' Hz, '' @
         show_nat (unat (wav_channels h)) @ '' ch, '' @ show_nat (unat (bits_per_sample h)) @ '' bits container, '' @
         show_nat (unat (valid_bits_per_sample h)) @ '' bits valid)'',
       talker_line, listener_line,
       ''Playback delay: '' @ show_nat (unat (playback_delay_ms a)) @ ''ms'',
       ''Output dir: '' @ output_dir, []]))"

text \<open>What the main thread starts the two other threads with.\<close>

definition spawned_receiver ::
    "bool \<Rightarrow> 'b bit_read_ops \<Rightarrow> 'w test_env \<Rightarrow> args \<Rightarrow> validated_interface \<Rightarrow> mac_addr \<Rightarrow> 'w \<Rightarrow>
     ((test_error, unit) res \<times> 'w) option" where
  "spawned_receiver dbg R E a listener talker_mac =
     receiver_thread dbg R E (if_name (vi_interface listener)) (vi_clock_source listener) talker_mac (stream_uid a)"

definition spawned_talker ::
    "bool \<Rightarrow> 'b bit_write_ops \<Rightarrow> 'w test_env \<Rightarrow> args \<Rightarrow> loaded_wav \<Rightarrow> validated_interface \<Rightarrow> mac_addr \<Rightarrow>
     ('w, test_error, talker_record list) sys" where
  "spawned_talker dbg W E a wav talker dst_mac =
     talker_thread dbg W E (if_name (vi_interface talker)) (vi_clock_source talker) dst_mac (stream_uid a)
       (playback_delay_ms a) (samples_per_packet a (lw_header wav)) (lw_header wav) (lw_pcm_le wav)"

text \<open>
  Once the receiver has reported that it is ready and the talker is started, the main thread drains;
  \<open>te_ready\<close> is what the report says, or that the receiver is gone.
\<close>

definition run_test ::
    "bool \<Rightarrow> 'w test_env \<Rightarrow> args \<Rightarrow> loaded_wav \<Rightarrow> validated_interface \<Rightarrow> validated_interface \<Rightarrow> 'w \<Rightarrow>
     ((test_error, talker_record list \<times> listener_record list \<times> byte list) res \<times> 'w) option" where
  "run_test dbg E a wav talker listener w =
     (case sbind (slift (vi_mac_address talker)) (\<lambda>_.
           sbind (te_ready E) (\<lambda>_.
           sbind (slift (total_audio_duration (lw_header wav) (length (lw_pcm_le wav)))) (\<lambda>dur.
           sbind (slift (vi_mac_address listener)) (\<lambda>_ w.
           slift (drain_deadline a (te_now E w) dur) w)))) w of (r, w) \<Rightarrow>
        (case r of
           Err e \<Rightarrow> Some (Err e, w)
         | Panic \<Rightarrow> Some (Panic, w)
         | Ok deadline \<Rightarrow> drain_loop dbg E (vi_clock_source listener) deadline w))"

definition main_test ::
    "bool \<Rightarrow> (mac_addr \<Rightarrow> string) \<Rightarrow> 'w test_env \<Rightarrow> args \<Rightarrow> (io_error, byte list) res \<Rightarrow> (byte list \<Rightarrow> ('w, io_error, unit) sys) \<Rightarrow>
     'w \<Rightarrow> ((test_error, unit) res \<times> 'w) option" where
  "main_test dbg show_mac E a file write_wav w =
     (case sbind (slift (load_wav dbg file)) (\<lambda>wav.
        sbind (validate_and_extract_interfaces dbg (te_net E) a) (\<lambda>(talker, listener).
        sbind (setup_output_dir E a) (\<lambda>dir.
        sbind (slift (log_config show_mac a (lw_header wav) talker listener dir)) (\<lambda>_.
        sret (wav, talker, listener, dir))))) w of (r, w) \<Rightarrow>
        (case r of
           Err e \<Rightarrow> Some (Err e, w)
         | Panic \<Rightarrow> Some (Panic, w)
         | Ok (wav, talker, listener, dir) \<Rightarrow>
             map_option (\<lambda>(r, w).
                 sbind (slift r) (\<lambda>(ts, ls, pcm).
                 sbind (save_outputs dbg (te_files E) write_wav dir ts ls pcm (lw_header wav)) (\<lambda>_.
                 slift (analyze_and_report ts ls (lw_pcm_le wav) pcm))) w)
               (run_test dbg E a wav talker listener w)))"

end
