(* ===== verification/IntegrationLink.thy ===== *)
theory IntegrationLink
  imports Integration
begin

text \<open>
  The two threads of the integration test that use the network. What each needs of the machine is a
  locale, stated by what the calls do to the frames on the link and the events handed over: the talker
  puts a frame on the link for each chunk of the audio, from which a listener gets the chunk back, and
  the receiver hands over what the listener makes of the frames that come in. The analysis accepts
  exactly equal lists.
\<close>

section \<open>Byte order and chunks\<close>

lemma length_swap_words [simp]: "length (swap_words n bs) = length bs"
proof (induction n bs rule: swap_words.induct)
  case (1 n bs)
  then show ?case by (subst swap_words.simps) simp
qed

lemma swap_words_twice: "swap_words n (swap_words n bs) = bs"
proof (induction n bs rule: swap_words.induct)
  case (1 n bs)
  show ?case
  proof (cases "n = 0 \<or> length bs < n")
    case True
    then show ?thesis by (simp add: swap_words.simps)
  next
    case False
    then have "swap_words n bs = rev (take n bs) @ swap_words n (drop n bs)"
      by (subst swap_words.simps) simp
    moreover have "swap_words n (rev (take n bs) @ swap_words n (drop n bs)) = take n bs @ drop n bs"
      using False 1 by (subst swap_words.simps) simp
    ultimately show ?thesis by simp
  qed
qed

lemma chunks_of_concat: "0 < n \<Longrightarrow> concat (chunks_of n bs) = bs"
proof (induction n bs rule: chunks_of.induct)
  case (1 n bs)
  then show ?case by (subst chunks_of.simps) simp
qed

lemma chunks_of_sizes: "0 < n \<Longrightarrow> c \<in> set (chunks_of n bs) \<Longrightarrow> c \<noteq> [] \<and> length c \<le> n"
proof (induction n bs rule: chunks_of.induct)
  case (1 n bs)
  then show ?case by (subst (asm) chunks_of.simps) (auto split: if_splits)
qed

section \<open>Analysis\<close>

lemma first_index_None: "first_index P xs = None \<longleftrightarrow> list_all (\<lambda>x. \<not> P x) xs"
  by (auto simp: first_index_def find_None_iff list_all_length)

definition record_meta :: "talker_record \<Rightarrow> byte \<times> u32" where
  "record_meta t = (t_seq_num t, t_avtp_timestamp_embedded t)"

definition presented_meta :: "listener_record \<Rightarrow> byte \<times> u32" where
  "presented_meta l = (l_seq_num l, l_avtp_timestamp_embedded l)"

lemma case_option_Nil: "(case x of None \<Rightarrow> [] | Some i \<Rightarrow> [f i]) = [] \<longleftrightarrow> x = None"
  by (simp split: option.split)

lemma failures_of_Nil:
  "failures_of ts ls sent received = [] \<longleftrightarrow> map record_meta ts = map presented_meta ls \<and> sent = received"
proof -
  have a: "length ts = length ls \<Longrightarrow> list_all (\<lambda>(t, l). t_seq_num t = l_seq_num l \<and>
      t_avtp_timestamp_embedded t = l_avtp_timestamp_embedded l) (zip ts ls) \<longleftrightarrow>
      map record_meta ts = map presented_meta ls"
    by (auto simp: list_all_length list_eq_iff_nth_eq record_meta_def presented_meta_def)
  have b: "length sent = length received \<Longrightarrow>
      list_all (\<lambda>(s, r). s = r) (zip sent received) \<longleftrightarrow> sent = received"
    by (auto simp: list_all_length list_eq_iff_nth_eq)
  show ?thesis
    using a b map_eq_imp_length_eq [of record_meta ts presented_meta ls]
    by (cases "length ts = length ls"; cases "length sent = length received")
      (auto simp: failures_of_def case_option_Nil first_index_None case_prod_unfold)
qed

lemma analyze_eq: "analyze_and_report ts ls sent received =
    (if map record_meta ts = map presented_meta ls \<and> sent = received then Ok () else Err ValidationFailed)"
  by (simp add: analyze_and_report_def failures_of_Nil ensure_def)


section \<open>The talker\<close>

lemma unat_ucast_byte: "unat x < 256 \<Longrightarrow> unat (ucast (x :: u16) :: byte) = unat x"
  by (simp add: unsigned_ucast_eq take_bit_eq_mod)

lemma sender_new_dst: "fst (sender_new D i dst w) = Ok s \<Longrightarrow> es_dst_mac s = dst"
  by (cases "sender_new D i dst w") (auto simp: sender_new_def sbind_eq_Ok)

lemma aaf_encode_timestamp: "avtp_timestamp (generic (aaf_encode a)) = avtp_timestamp (stream_data a)"
  by (simp add: aaf_encode_def Let_def)

text \<open>What the talker needs of the machine: only sending puts a frame on the link.\<close>

locale talker_link =
  fixes dbg :: bool and E :: "'w test_env" and sent :: "'w \<Rightarrow> byte list list"
  assumes sleep_keeps: "sent (te_sleep E d w) = sent w"
    and clock_keeps: "ptp_clock_time dbg (te_kernel E) clk w = (r, w') \<Longrightarrow> sent w' = sent w"
    and open_keeps: "sys_open (te_kernel E) path w = (fd, w') \<Longrightarrow> sent w' = sent w"
    and channel_keeps: "dl_channel (te_link E) i w = (ch, w') \<Longrightarrow> sent w' = sent w"
    and send_appends: "dl_send (te_link E) h f w = (Some (Ok ()), w') \<Longrightarrow> sent w' = sent w @ [f]"
begin

lemma send_sends:
  assumes "sender_send dbg W (te_link E) s pdu w = (Ok (), w')"
  obtains frame where "build_frame dbg W s pdu = Ok frame" "sent w' = sent w @ [frame]"
proof -
  from assms obtain frame where f: "build_frame dbg W s pdu = Ok frame"
    by (cases "build_frame dbg W s pdu") (auto simp: sender_send_def sbind_def)
  obtain o' w1 where o: "dl_send (te_link E) (es_tx s) frame w = (o', w1)" by (rule prod.exhaust)
  from assms f o have "o' = Some (Ok ())" "w1 = w'"
    by (auto simp: sender_send_def sbind_def split: option.splits)
  with o send_appends f that show thesis by blast
qed

lemma talker_step_sends:
  assumes "bit_writer_laws W snk"
    and "talker_step dbg W E su bps dur start_pacing idx chunk tk w = (Ok (r, tk'), w')"
  obtains t clk frame where "aaf_wf (sent_aaf tk t (swap_words bps chunk))"
    "build_frame dbg W (ts_sender su) (Stream (aaf_encode (sent_aaf tk t (swap_words bps chunk)))) = Ok frame"
    "sent w' = sent w @ [frame]"
    "tk' = tk\<lparr>tk_ptp_clock := clk, tk_sequence_num := tk_sequence_num tk + 1\<rparr>"
    "record_meta r = (of_nat idx, as_u32 (ts_wrapping_add (ts_from_ptp t) (playback_delay_ns tk)))"
    "t_frame_idx r = idx" "bps \<noteq> 0"
proof -
  define w0 where "w0 = (let target_time = start_pacing + idx * dur in
    if te_now E w \<le> target_time then te_sleep E (target_time - te_now E w) w else w)"
  have s0: "sent w0 = sent w" by (simp add: w0_def Let_def sleep_keeps)
  obtain tr w1 where c: "ptp_clock_time dbg (te_kernel E) (ts_check_clock su) w0 = (tr, w1)" by (rule prod.exhaust)
  obtain reading w2 where d: "due_reading dbg E (ts_sync_source su) (tk_ptp_clock tk) w1 = (reading, w2)"
    by (rule prod.exhaust)
  obtain pr tk1 where b: "build_packet dbg W (te_now E w1) reading (swap_words bps chunk) tk = (pr, tk1)"
    by (rule prod.exhaust)
  have s2: "sent w2 = sent w"
    using d clock_keeps c s0 by (auto simp: due_reading_def split: if_splits)
  from assms(2) c d b obtain u pdu where p: "bps \<noteq> 0" "tr = Ok u" "pr = Ok pdu"
    "fst (sender_send dbg W (te_link E) (ts_sender su) pdu w2) = Ok ()"
    "w' = snd (sender_send dbg W (te_link E) (ts_sender su) pdu w2)" "tk' = tk1"
    "embedded_timestamp pdu = (Ok (t_avtp_timestamp_embedded r) :: (test_error, _) res)"
    "t_frame_idx r = idx" "t_seq_num r = of_nat idx"
    unfolding talker_step_def Let_def w0_def [unfolded Let_def, symmetric]
    by (auto simp: sbind_eq_Ok read_clock_def swap_byte_order_def split: if_splits res.splits prod.splits)
  from build_packet_Ok [OF assms(1) b [unfolded p(3)]] obtain t clk where
    t: "pdu = Stream (aaf_encode (sent_aaf tk t (swap_words bps chunk)))" "aaf_wf (sent_aaf tk t (swap_words bps chunk))"
    "tk1 = tk\<lparr>tk_ptp_clock := clk, tk_sequence_num := tk_sequence_num tk + 1\<rparr>" by blast
  from p(4,5) have "sender_send dbg W (te_link E) (ts_sender su) pdu w2 = (Ok (), w')" by (simp add: prod_eq_iff)
  from send_sends [OF this] obtain frame where
    "build_frame dbg W (ts_sender su) pdu = Ok frame" "sent w' = sent w2 @ [frame]" by blast
  with that [of t frame clk] t p s2 show thesis
    by (simp add: record_meta_def embedded_timestamp_def aaf_encode_timestamp) (simp add: sent_aaf_def)
qed


text \<open>The loop sends a packet for each chunk, which a listener returns with the chunk's bytes swapped.\<close>

lemma talker_loop_sends:
  assumes "bit_writer_laws W snk" "bit_reader_laws R rest"
  shows "talker_loop dbg W E su bps dur start_pacing idx chunks tk w = (Ok ts, w') \<Longrightarrow>
    tk_sequence_num tk = of_nat idx \<Longrightarrow>
    \<exists>pdus frames. sent w' = sent w @ frames \<and> map (build_frame dbg W (ts_sender su)) pdus = map Ok frames \<and>
      list_all pdu_decodable pdus \<and> (chunks = [] \<or> bps \<noteq> 0) \<and>
      map t_frame_idx ts = [idx..<idx + length chunks] \<and>
      (\<forall>l. filter_matches (ln_filter l) (tk_stream_id tk) \<longrightarrow>
        (let fs = listen_run dbg' R pdus l in
          map payload_be fs = map (swap_words bps) chunks \<and>
          map (\<lambda>f. (rx_seq_num f, as_u32 (rx_avtp_timestamp f))) fs = map record_meta ts \<and>
          (\<forall>f\<in>set fs. rx_bit_depth f = tk_bit_depth tk)))"
proof (induction chunks arbitrary: idx tk w ts)
  case Nil
  then show ?case by (intro exI [of _ "[]"]) simp
next
  case (Cons chunk cs)
  from Cons.prems(1) obtain r tk1 w1 ts1 where
    step: "talker_step dbg W E su bps dur start_pacing idx chunk tk w = (Ok (r, tk1), w1)" and
    loop: "talker_loop dbg W E su bps dur start_pacing (Suc idx) cs tk1 w1 = (Ok ts1, w')" and ts: "ts = r # ts1"
    by (auto simp: sbind_eq_Ok)
  from talker_step_sends [OF assms(1) step] obtain t clk frame where
    s: "aaf_wf (sent_aaf tk t (swap_words bps chunk))"
    "build_frame dbg W (ts_sender su) (Stream (aaf_encode (sent_aaf tk t (swap_words bps chunk)))) = Ok frame"
    "sent w1 = sent w @ [frame]"
    "tk1 = tk\<lparr>tk_ptp_clock := clk, tk_sequence_num := tk_sequence_num tk + 1\<rparr>"
    "record_meta r = (of_nat idx, as_u32 (ts_wrapping_add (ts_from_ptp t) (playback_delay_ns tk)))"
    "t_frame_idx r = idx" "bps \<noteq> 0" by blast
  have "tk_sequence_num tk1 = of_nat (Suc idx)" using s(4) Cons.prems(2) by simp
  from Cons.IH [OF loop this] obtain pdus frames where
    ih: "sent w' = sent w1 @ frames" "map (build_frame dbg W (ts_sender su)) pdus = map Ok frames"
      "list_all pdu_decodable pdus" "map t_frame_idx ts1 = [Suc idx..<Suc idx + length cs]"
    and li: "\<And>l. filter_matches (ln_filter l) (tk_stream_id tk1) \<Longrightarrow>
        map payload_be (listen_run dbg' R pdus l) = map (swap_words bps) cs \<and>
        map (\<lambda>f. (rx_seq_num f, as_u32 (rx_avtp_timestamp f))) (listen_run dbg' R pdus l) = map record_meta ts1 \<and>
        (\<forall>f\<in>set (listen_run dbg' R pdus l). rx_bit_depth f = tk_bit_depth tk1)"
    by (auto simp: Let_def)
  let ?p = "Stream (aaf_encode (sent_aaf tk t (swap_words bps chunk)))"
  have dec: "pdu_decodable ?p" using aaf_encode_wf [OF s(1)] by (simp add: pdu_defs sent_aaf_def)
  have fs: "map payload_be (listen_run dbg' R (?p # pdus) l) = map (swap_words bps) (chunk # cs) \<and>
      map (\<lambda>f. (rx_seq_num f, as_u32 (rx_avtp_timestamp f))) (listen_run dbg' R (?p # pdus) l) =
        map record_meta ts \<and>
      (\<forall>f\<in>set (listen_run dbg' R (?p # pdus) l). rx_bit_depth f = tk_bit_depth tk)"
    if "filter_matches (ln_filter l) (tk_stream_id tk)" for l
    using process_sent [OF assms(2) s(1) that, of dbg'] s(4,5) Cons.prems(2) that ts
      li [of "l\<lparr>expected_seq := Some (tk_sequence_num tk + 1)\<rparr>"]
    by (simp add: frame_of_def)
  have u: "[idx..<idx + length (chunk # cs)] = idx # [Suc idx..<Suc idx + length cs]"
    by (simp add: upt_conv_Cons del: upt_Suc)
  show ?case
    by (rule exI [of _ "?p # pdus"], rule exI [of _ "frame # frames"])
      (use ih s dec fs ts u in \<open>simp add: Let_def del: upt_Suc listen_run.simps\<close>)
qed

lemma clock_reading_keeps: "keeps (\<lambda>w. sent w = s) (ptp_clock_time dbg (te_kernel E) clk)"
  by (rule keepsI) (simp add: clock_keeps)

lemma open_source_keeps: "keeps (\<lambda>w. sent w = s) (open_source E cs what)"
proof -
  have "keeps (\<lambda>w. sent w = s) (sys_open (te_kernel E) path)" for path
    by (rule keepsI) (simp add: open_keeps)
  then show ?thesis
    by (cases cs) (auto simp: open_source_def clock_open_def hardware_open_def intro!: keeps_intros)
qed

lemma sender_new_keeps: "keeps (\<lambda>w. sent w = s) (sender_new (te_link E) i mac)"
proof -
  have "keeps (\<lambda>w. sent w = s) (dl_channel (te_link E) i)"
    by (rule keepsI) (simp add: channel_keeps)
  then show ?thesis by (auto simp: sender_new_def intro!: keeps_intros)
qed

lemma talker_start_Ok:
  assumes "talker_start dbg E name cs dst uid delay_ms h w = (Ok su, w')"
  shows "sent w' = sent w \<and> tk_sequence_num (ts_talker su) = 0 \<and> unat (valid_bits_per_sample h) < 256 \<and>
    tk_bit_depth (ts_talker su) = ucast (valid_bits_per_sample h) \<and> es_dst_mac (ts_sender su) = dst \<and>
    (\<exists>i m. find_interface (te_net E) w name = Some i \<and> if_mac i = Some m \<and>
      tk_stream_id (ts_talker su) = \<lparr>mac_address = m, unique_id = uid\<rparr>)"
proof -
  have pair: "keeps (\<lambda>w. sent w = s) (\<lambda>w. case ptp_clock_time dbg (te_kernel E) clk w of
      (reading, w) \<Rightarrow> (f reading w, w))" for s clk and f :: "phc_error reading \<Rightarrow> 'w \<Rightarrow> (test_error, sync_clock) res"
    using clock_reading_keeps [of s clk] by (auto simp: keeps_def split: prod.split)
  have here: "keeps (\<lambda>w. sent w = s) (\<lambda>w. (f w, w))" for s and f :: "'w \<Rightarrow> (test_error, 'b) res"
    by (simp add: keeps_def)
  have "keeps (\<lambda>w'. sent w' = sent w) (talker_start dbg E name cs dst uid delay_ms h)"
    unfolding talker_start_def
    by (intro keeps_intros sender_new_keeps open_source_keeps pair here)
  from keepsD [OF this refl assms] have "sent w' = sent w" .
  with assms show ?thesis
    by (auto simp: talker_start_def sbind_eq_Ok talker_new_def ensure_def case_prod_unfold
        split: if_splits dest: sender_new_dst)
qed

lemma talker_thread_sends:
  assumes "bit_writer_laws W snk" "bit_reader_laws R rest"
    and "talker_thread dbg W E name cs dst uid delay_ms samples h pcm w = (Ok ts, w')"
    and "unat (valid_bits_per_sample h) div 8 = unat (bits_per_sample h) div 8"
  shows "\<exists>s pdus frames i m. sent w' = sent w @ frames \<and> es_dst_mac s = dst \<and>
    map (build_frame dbg W s) pdus = map Ok frames \<and> list_all pdu_decodable pdus \<and>
    find_interface (te_net E) w name = Some i \<and> if_mac i = Some m \<and>
    map t_frame_idx ts = [0..<length ts] \<and>
    (let fs = listen_run dbg' R pdus (listener_new (Some \<lparr>mac_address = m, unique_id = uid\<rparr>)) in
      concat (map (\<lambda>f. swap_words (unat (rx_bit_depth f) div 8) (payload_be f)) fs) = pcm \<and>
      (\<forall>f\<in>set fs. 8 \<le> unat (rx_bit_depth f)) \<and>
      map (\<lambda>f. (rx_seq_num f, as_u32 (rx_avtp_timestamp f))) fs = map record_meta ts)"
proof -
  let ?bps = "header_bytes_per_sample h"
  from assms(3) obtain su w1 where st: "talker_start dbg E name cs dst uid delay_ms h w = (Ok su, w1)"
    and n: "unat samples * (unat (wav_channels h) * ?bps) \<noteq> 0"
    and lp: "talker_loop dbg W E su ?bps (unat samples * 1000000000 div unat (wav_sample_rate h)) (te_now E w1) 0
      (chunks_of (unat samples * (unat (wav_channels h) * ?bps)) pcm) (ts_talker su) w1 = (Ok ts, w')"
    by (auto simp: talker_thread_def sbind_eq_Ok Let_def split: if_splits)
  from talker_start_Ok [OF st] obtain i m where su: "sent w1 = sent w" "tk_sequence_num (ts_talker su) = 0"
    "tk_bit_depth (ts_talker su) = ucast (valid_bits_per_sample h)" "es_dst_mac (ts_sender su) = dst"
    "find_interface (te_net E) w name = Some i" "if_mac i = Some m" "unat (valid_bits_per_sample h) < 256"
    "tk_stream_id (ts_talker su) = \<lparr>mac_address = m, unique_id = uid\<rparr>" by blast
  let ?cs = "chunks_of (unat samples * (unat (wav_channels h) * ?bps)) pcm"
  let ?l = "listener_new (Some \<lparr>mac_address = m, unique_id = uid\<rparr>)"
  have m: "filter_matches (ln_filter ?l) (tk_stream_id (ts_talker su))"
    by (simp add: su(8) listener_new_def)
  from talker_loop_sends [OF assms(1,2) lp, of dbg'] su(2) obtain pdus frames where
    p: "sent w' = sent w1 @ frames" "map (build_frame dbg W (ts_sender su)) pdus = map Ok frames"
      "list_all pdu_decodable pdus" "map t_frame_idx ts = [0..<length ?cs]" and
    li: "map payload_be (listen_run dbg' R pdus ?l) = map (swap_words ?bps) ?cs"
      "map (\<lambda>f. (rx_seq_num f, as_u32 (rx_avtp_timestamp f))) (listen_run dbg' R pdus ?l) = map record_meta ts"
      "\<forall>f\<in>set (listen_run dbg' R pdus ?l). rx_bit_depth f = ucast (valid_bits_per_sample h)"
    using m su(3) by (auto simp: Let_def)
  have d: "unat (rx_bit_depth f) div 8 = ?bps" if "f \<in> set (listen_run dbg' R pdus ?l)" for f
    using li(3) that assms(4) su(7) by (simp add: header_bytes_per_sample_def unat_ucast_byte)
  have "map (\<lambda>f. swap_words (unat (rx_bit_depth f) div 8) (payload_be f)) (listen_run dbg' R pdus ?l) =
      map (swap_words ?bps) (map payload_be (listen_run dbg' R pdus ?l))"
    using d by simp
  also have "\<dots> = ?cs" by (simp add: li(1) swap_words_twice comp_def)
  finally have "concat (map (\<lambda>f. swap_words (unat (rx_bit_depth f) div 8) (payload_be f)) (listen_run dbg' R pdus ?l)) = pcm"
    using n by (simp add: chunks_of_concat)
  moreover have "8 \<le> unat (rx_bit_depth f)" if "f \<in> set (listen_run dbg' R pdus ?l)" for f
    using d [OF that] n by (cases "unat (rx_bit_depth f) < 8") simp_all
  moreover have "length ts = length ?cs" using arg_cong [OF p(4), of length] by simp
  ultimately show ?thesis using p li(2) su by (auto simp: Let_def)
qed

end

section \<open>The receiver\<close>

definition packet_of :: "bool \<Rightarrow> 'b bit_read_ops \<Rightarrow> byte list \<Rightarrow> avtpdu option" where
  "packet_of dbg R frame =
     (case (avtpdu_read dbg R (rd_slice R (drop 14 frame)) :: (avtpdu_error io_wrap, avtpdu \<times> 'b) res) of
        Ok (p, _) \<Rightarrow> Some p | _ \<Rightarrow> None)"

text \<open>
  A socket that gives the frames that have come in, each of which is AVTP and can be parsed or is of
  another protocol, and then fails; a clock that can be read; and a main thread that takes every event.
\<close>

locale receiver_link =
  fixes dbg :: bool and E :: "'w test_env" and incoming :: "'w \<Rightarrow> byte list list" and handed :: "'w \<Rightarrow> event list"
  assumes next_frame: "incoming w = f # fs \<Longrightarrow>
      \<exists>w'. dl_next (te_link E) h w = (Ok f, w') \<and> incoming w' = fs \<and> handed w' = handed w"
    and no_frame: "incoming w = [] \<Longrightarrow> \<exists>e w'. dl_next (te_link E) h w = (Err e, w') \<and> handed w' = handed w"
    and clock_reads: "\<exists>t w'. ptp_clock_time dbg (te_kernel E) clk w = (Ok t, w') \<and>
      incoming w' = incoming w \<and> handed w' = handed w"
    and event_handed: "\<exists>w'. te_send_event E ev w = (True, w') \<and> incoming w' = incoming w \<and> handed w' = handed w @ [ev]"
begin

lemma receiver_loop_hands:
  assumes "bit_reader_laws R rest"
  shows "list_all (\<lambda>f. is_avtp_frame f \<longrightarrow> packet_of dbg R f \<noteq> None) (incoming w) \<Longrightarrow>
    \<exists>e w'. receiver_loop dbg R E rx clk l w = Some (Err (ReceiveFailed (Receive e)), w') \<and>
      map fst (handed w') = map fst (handed w) @
        listen_run dbg R (map (\<lambda>f. the (packet_of dbg R f)) (filter is_avtp_frame (incoming w))) l"
proof (induction "incoming w" arbitrary: l w)
  case Nil
  from no_frame [OF Nil(1) [symmetric]] obtain e w' where "dl_next (te_link E) (er_rx rx) w = (Err e, w')"
    "handed w' = handed w" by blast
  with Nil(1) show ?case
    by (subst receiver_loop.simps) (simp add: receive_one_def recv_next_with.simps [of _ _ _ _ _ w])
next
  case (Cons f fs)
  note ih = Cons.hyps(1) and inc = Cons.hyps(2) [symmetric]
  from next_frame [OF inc] obtain w1 where
    n: "dl_next (te_link E) (er_rx rx) w = (Ok f, w1)" "incoming w1 = fs" "handed w1 = handed w" by blast
  have rest: "list_all (\<lambda>f. is_avtp_frame f \<longrightarrow> packet_of dbg R f \<noteq> None) fs" using Cons.prems inc by simp
  show ?case
  proof (cases "is_avtp_frame f")
    case False
    have "receive_one dbg R E rx clk w = receive_one dbg R E rx clk w1"
      using n(1) False by (simp add: receive_one_def recv_next_with.simps [of _ _ _ _ _ w])
    then have "receiver_loop dbg R E rx clk l w = receiver_loop dbg R E rx clk l w1"
      by (simp add: receiver_loop.simps [of _ _ _ _ _ _ w] receiver_loop.simps [of _ _ _ _ _ _ w1])
    with ih [of w1 l] n rest False inc show ?thesis by auto
  next
    case True
    with Cons.prems inc obtain p r where p: "avtpdu_read dbg R (rd_slice R (drop 14 f)) =
        (Ok (p, r) :: (avtpdu_error io_wrap, _) res)"
      by (auto simp: packet_of_def split: res.splits)
    from clock_reads [of clk w1] obtain t w2 where
      c: "ptp_clock_time dbg (te_kernel E) clk w1 = (Ok t, w2)" "incoming w2 = fs" "handed w2 = handed w"
      using n by auto
    have one: "receive_one dbg R E rx clk w = Some (Ok (t, p), w2)"
      using n(1) True p c(1) by (simp add: receive_one_def recv_next_with.simps [of _ _ _ _ _ w])
    have packets: "map (\<lambda>f. the (packet_of dbg R f)) (filter is_avtp_frame (incoming w)) =
        p # map (\<lambda>f. the (packet_of dbg R f)) (filter is_avtp_frame fs)"
      using inc True p by (simp add: packet_of_def)
    show ?thesis
    proof (cases rule: process_cases [OF assms, of dbg p l])
      case (1 x n')
      let ?l = "l\<lparr>expected_seq := Some (n' + 1)\<rparr>"
      from event_handed [of "(x, t)" w2] obtain w3 where
        h: "te_send_event E (x, t) w2 = (True, w3)" "incoming w3 = fs" "handed w3 = handed w @ [(x, t)]"
        using c by auto
      have "receiver_loop dbg R E rx clk l w = receiver_loop dbg R E rx clk ?l w3"
        by (subst receiver_loop.simps) (simp add: one 1 h(1))
      with ih [of w3 ?l] h rest packets 1 show ?thesis by auto
    next
      case 2
      have "receiver_loop dbg R E rx clk l w = receiver_loop dbg R E rx clk l w2"
        by (subst receiver_loop.simps) (simp add: one 2)
      with ih [of w2 l] c rest packets 2 show ?thesis by auto
    next
      case (3 e)
      have "receiver_loop dbg R E rx clk l w = receiver_loop dbg R E rx clk l w2"
        by (subst receiver_loop.simps) (simp add: one 3)
      with ih [of w2 l] c rest packets 3 show ?thesis by auto
    qed
  qed
qed

end

text \<open>A sent frame, padded, gives its packet back.\<close>

lemma packet_of_built:
  assumes "bit_writer_laws W snk" "bit_reader_laws R rest" "pdu_decodable p" "build_frame dbg W s p = Ok frame"
  shows "is_avtp_frame (frame @ pad) \<and> packet_of dbg' R (frame @ pad) = Some p"
proof -
  from assms(3) have "pdu_typed p" "pdu_payload_ok p" by (simp_all add: pdu_decodable_def)
  from build_frame_bytes [OF assms(1) this, of dbg s] assms(4) obtain bs where
    b: "frame = frame_header s @ bs" "bytes_bits bs = avtpdu_bits p" by auto
  have "rest (rd_slice R (bs @ pad)) = avtpdu_bits p @ bytes_bits pad"
    by (simp add: bit_reader_laws.rest_slice [OF assms(2)] b(2))
  from bit_reader_laws.avtpdu_read_layout [OF assms(2,3) _ this] obtain r where
    "avtpdu_read dbg' R (rd_slice R (bs @ pad)) = (Ok (p, r) :: (avtpdu_error io_wrap, _) res)"
    by (auto simp: yields_def aligned_tail_def)
  with frame_header_avtp [of s "bs @ pad"] show ?thesis by (simp add: packet_of_def b(1))
qed

text \<open>Frames sent, padded and among others, give back the packets in turn.\<close>

lemma sent_packets:
  assumes "bit_writer_laws W snk" "bit_reader_laws R rest"
    and "map (build_frame dbg W s) pdus = map Ok frames" "list_all pdu_decodable pdus"
    and "filter is_avtp_frame fs = map2 (@) frames pads" "length pads = length frames"
  shows "map (\<lambda>f. the (packet_of dbg' R f)) (filter is_avtp_frame fs) = pdus \<and>
    list_all (\<lambda>f. is_avtp_frame f \<longrightarrow> packet_of dbg' R f \<noteq> None) fs"
proof -
  have n: "length pdus = length frames" using arg_cong [OF assms(3), of length] by simp
  have one: "packet_of dbg' R (frames ! j @ pads ! j) = Some (pdus ! j)" if "j < length pdus" for j
  proof (rule packet_of_built [OF assms(1,2), THEN conjunct2])
    show "pdu_decodable (pdus ! j)" using assms(4) that by (simp add: list_all_length)
    show "build_frame dbg W s (pdus ! j) = Ok (frames ! j)"
      using arg_cong [OF assms(3), of "\<lambda>xs. xs ! j"] that n by simp
  qed
  have "packet_of dbg' R f \<noteq> None" if "f \<in> set fs" "is_avtp_frame f" for f
  proof -
    from that have "f \<in> set (map2 (@) frames pads)" using assms(5) [symmetric] by simp
    then obtain j where "j < length pdus" "f = frames ! j @ pads ! j" using n assms(6) by (auto simp: in_set_conv_nth)
    with one show ?thesis by simp
  qed
  moreover have "map (\<lambda>f. the (packet_of dbg' R f)) (filter is_avtp_frame fs) = pdus"
    using n one assms(6) by (intro nth_equalityI) (simp_all add: assms(5))
  ultimately show ?thesis by (simp add: list_all_iff)
qed

end
