(* ===== verification/IntegrationDrain.thy ===== *)
theory IntegrationDrain
  imports Integration
begin

text \<open>
  The drain loop of the integration test over a machine of which it needs only what the locale states:
  which calls make an event arrive. What has arrived is presented or in the jitter buffer, each round
  presents what is due in the order of time, and the loop ends when time passes.
\<close>

section \<open>The drain loop\<close>

definition event_of :: "buffered \<Rightarrow> event" where
  "event_of b = (b_pcm b, b_phc_time_at_receive b)"

definition frame_pcm :: "received_pcm \<Rightarrow> byte list" where
  "frame_pcm f = swap_words (unat (rx_bit_depth f) div 8) (payload_be f)"

text \<open>The records and the audio of a list of events presented in turn.\<close>

definition presents :: "event list \<Rightarrow> listener_record list \<Rightarrow> byte list \<Rightarrow> bool" where
  "presents evs recs pcm \<longleftrightarrow>
     map l_frame_idx recs = [0..<length evs] \<and>
     map (\<lambda>l. (l_seq_num l, l_avtp_timestamp_embedded l, l_phc_time_at_receive l)) recs =
       map (\<lambda>e. (rx_seq_num (fst e), as_u32 (rx_avtp_timestamp (fst e)), snd e)) evs \<and>
     pcm = concat (map (\<lambda>e. frame_pcm (fst e)) evs)"

lemma presents_length: "presents evs recs pcm \<Longrightarrow> length recs = length evs"
  by (drule presents_def [THEN iffD1], elim conjE, drule arg_cong [of _ _ length], simp)

lemma presents_Nil: "presents [] [] []"
  by (simp add: presents_def)

lemma presents_snoc:
  assumes "presents evs recs pcm" "l_frame_idx r = length recs" "l_seq_num r = rx_seq_num (b_pcm b)"
    and "l_phc_time_at_receive r = b_phc_time_at_receive b"
    and "l_avtp_timestamp_embedded r = as_u32 (rx_avtp_timestamp (b_pcm b))"
  shows "presents (evs @ [event_of b]) (recs @ [r]) (pcm @ frame_pcm (b_pcm b))"
  using assms presents_length [OF assms(1)] by (simp add: presents_def event_of_def)

lemma make_buffered_event: "make_buffered e = Ok b \<Longrightarrow> event_of b = e"
  by (cases "expand_near (rx_avtp_timestamp (fst e)) (snd e) :: (test_error, _) res")
    (auto simp: make_buffered_def event_of_def)

abbreviation jitter_ordered :: "buffered list \<Rightarrow> bool" where
  "jitter_ordered \<equiv> heap_ordered b_presentation_time"

text \<open>A presentation takes what is due off the buffer in the order of time and leaves what is not.\<close>

lemma present_pops:
  assumes "present dbg E clk current buf recs pcm w = (Ok p, w')" "jitter_ordered buf" "presents evs recs pcm"
  shows "\<exists>popped. pops jitter_pop buf popped (jitter_buf p) \<and>
    (\<forall>b\<in>set popped. b_presentation_time b \<le> current) \<and>
    (\<forall>b\<in>set (jitter_buf p). current < b_presentation_time b) \<and>
    presents (evs @ map event_of popped) (listener_records p) (received_pcm_le p)"
  using assms
proof (induction dbg E clk current buf recs pcm w arbitrary: evs rule: present.induct)
  case (1 dbg E clk current buf recs pcm w)
  note e = "1.prems"(1) [unfolded present.simps [of dbg E clk current buf]]
  consider "buf = []" | "buf \<noteq> []" "\<not> b_presentation_time (buf ! 0) \<le> current"
    | "buf \<noteq> []" "b_presentation_time (buf ! 0) \<le> current" by blast
  then show ?case
  proof cases
    case 1
    then have "p = \<lparr>jitter_buf = buf, listener_records = recs, received_pcm_le = pcm\<rparr>"
      using e by (simp add: heap_peek_def)
    then show ?thesis using 1 "1.prems" by (intro exI [of _ "[]"]) simp
  next
    case 2
    then have "p = \<lparr>jitter_buf = buf, listener_records = recs, received_pcm_le = pcm\<rparr>"
      using e by (simp add: heap_peek_def)
    moreover have "current < b_presentation_time b" if b: "b \<in> set buf" for b
    proof -
      from b obtain i where "i < length buf" "b = buf ! i" by (auto simp: in_set_conv_nth)
      with heap_root_least [OF "1.prems"(2)] 2(2) show ?thesis by force
    qed
    ultimately show ?thesis using "1.prems" by (intro exI [of _ "[]"]) simp
  next
    case 3
    have "jitter_pop buf \<noteq> None" using 3(1) by (simp add: heap_pop_None)
    then obtain b rest where pop: "jitter_pop buf = Some (b, rest)" by auto
    have b: "jitter_ordered rest" "b = buf ! 0"
      using bin_heap.pop_Some [OF "1.prems"(2) pop] heap_pop_Some [OF "1.prems"(2) pop] by auto
    obtain t w1 where c: "read_clock dbg E clk ''presentation'' w = (t, w1)" by (rule prod.exhaust)
    from e 3 pop c obtain u pcm_le where u: "t = Ok u"
      and s: "swap_byte_order (payload_be (b_pcm b)) (unat (rx_bit_depth (b_pcm b)) div 8) =
        (Ok pcm_le :: (test_error, _) res)"
      by (auto simp: heap_peek_def split: res.splits)
    let ?r = "\<lparr>l_frame_idx = length recs, l_seq_num = rx_seq_num (b_pcm b),
        l_phc_time_at_receive = b_phc_time_at_receive b,
        l_avtp_timestamp_embedded = as_u32 (rx_avtp_timestamp (b_pcm b)), l_phc_time_at_present = u\<rparr>"
    have run: "present dbg E clk current rest (recs @ [?r]) (pcm @ pcm_le) w1 = (Ok p, w')"
      using e 3 pop c u s by (simp add: heap_peek_def)
    have "pcm_le = frame_pcm (b_pcm b)" using s by (simp add: swap_byte_order_def frame_pcm_def split: if_splits)
    with "1.prems"(3) have "presents (evs @ [event_of b]) (recs @ [?r]) (pcm @ pcm_le)"
      by (simp add: presents_snoc)
    from "1.IH" [OF _ _ pop refl c [symmetric] u s run b(1) this] 3 obtain popped where
      ih: "pops jitter_pop rest popped (jitter_buf p)" "\<forall>b\<in>set popped. b_presentation_time b \<le> current"
      "\<forall>b\<in>set (jitter_buf p). current < b_presentation_time b"
      "presents ((evs @ [event_of b]) @ map event_of popped) (listener_records p) (received_pcm_le p)"
      by (auto simp: heap_peek_def)
    with pop 3(2) b(2) show ?thesis by (intro exI [of _ "b # popped"]) auto
  qed
qed

text \<open>A presentation changes the machine only by reading the clock.\<close>

lemma present_steps:
  assumes "\<And>w r w'. ptp_clock_time dbg (te_kernel E) clk w = (r, w') \<Longrightarrow> le (f w) (f w')" "reflp le" "transp le"
  shows "present dbg E clk current buf recs pcm w = (r, w') \<Longrightarrow> le (f w) (f w')"
  using assms
proof (induction dbg E clk current buf recs pcm w rule: present.induct)
  case (1 dbg E clk current buf recs pcm w)
  obtain t w1 where c: "read_clock dbg E clk ''presentation'' w = (t, w1)" by (rule prod.exhaust)
  have w1: "le (f w) (f w1)" using c "1.prems"(2) [OF surjective_pairing, of w] by (auto simp: read_clock_def)
  have w0: "le (f w) (f w)" by (rule reflpD [OF "1.prems"(3)])
  note e = "1.prems"(1) [unfolded present.simps [of dbg E clk current buf]]
  show ?case
  proof (cases "\<exists>first b rest u pcm_le. heap_peek buf = Some first \<and> b_presentation_time first \<le> current \<and>
      jitter_pop buf = Some (b, rest) \<and> t = Ok u \<and>
      swap_byte_order (payload_be (b_pcm b)) (unat (rx_bit_depth (b_pcm b)) div 8) = (Ok pcm_le :: (test_error, _) res)")
    case True
    then obtain first b rest u pcm_le where p: "heap_peek buf = Some first" "b_presentation_time first \<le> current"
      "jitter_pop buf = Some (b, rest)" "t = Ok u"
      "swap_byte_order (payload_be (b_pcm b)) (unat (rx_bit_depth (b_pcm b)) div 8) = (Ok pcm_le :: (test_error, _) res)"
      by blast
    from "1.IH" [OF p(1) _ p(3) refl c [symmetric] p(4,5) _ "1.prems"(2-4)] e p c
    have "le (f w1) (f w')" by simp
    with w1 show ?thesis by (rule transpD [OF "1.prems"(4)])
  next
    case False
    with e c w1 w0 show ?thesis by (auto split: option.splits if_splits res.splits)
  qed
qed

lemma present_unchanged:
  assumes "\<And>w r w'. ptp_clock_time dbg (te_kernel E) clk w = (r, w') \<Longrightarrow> f w' = f w"
    and "present dbg E clk current buf recs pcm w = (r, w')"
  shows "f w' = f w"
  using present_steps [OF _ _ _ assms(2), of "(=)" f] assms(1) by (simp add: reflp_def transp_def)

lemma present_time:
  assumes "\<And>w r w'. ptp_clock_time dbg (te_kernel E) clk w = (r, w') \<Longrightarrow> te_now E w \<le> te_now E w'"
    and "present dbg E clk current buf recs pcm w = (r, w')"
  shows "te_now E w \<le> te_now E w'"
  using present_steps [OF _ _ _ assms(2), of "(\<le>)" "te_now E"] assms(1) by (simp add: reflp_def transp_def)

text \<open>One event is to be presented before another.\<close>

definition before :: "event \<Rightarrow> event \<Rightarrow> bool" where
  "before a b \<longleftrightarrow> (\<exists>s t. make_buffered a = (Ok s :: (test_error, buffered) res) \<and> make_buffered b = (Ok t :: (test_error, buffered) res) \<and>
     b_presentation_time s < b_presentation_time t)"

text \<open>
  What has arrived is presented or in the buffer; if it arrived in the order of its presentation times,
  what is presented is the beginning of it.
\<close>

definition drain_inv :: "event list \<Rightarrow> event list \<Rightarrow> buffered list \<Rightarrow> bool" where
  "drain_inv arr evs buf \<longleftrightarrow>
     mset arr = mset evs + mset (map event_of buf) \<and> jitter_ordered buf \<and>
     (\<forall>b\<in>set buf. make_buffered (event_of b) = (Ok b :: (test_error, _) res)) \<and>
     (sorted_wrt before arr \<longrightarrow> (\<exists>rest. arr = evs @ rest))"

lemma drain_inv_push:
  assumes "drain_inv arr evs buf" "make_buffered e = (Ok b :: (test_error, _) res)"
  shows "drain_inv (arr @ [e]) evs (jitter_push b buf)"
proof -
  have "jitter_ordered buf" using assms(1) by (simp add: drain_inv_def)
  note items = bin_heap.items_push [OF this, of b]
  have "b' \<in> set (jitter_push b buf) \<longleftrightarrow> b' = b \<or> b' \<in> set buf" for b'
    using arg_cong [OF items(1), of set_mset] by auto
  moreover have "mset (map event_of (jitter_push b buf)) = add_mset (event_of b) (mset (map event_of buf))"
    by (simp only: mset_map items) simp
  ultimately show ?thesis
    using assms make_buffered_event [OF assms(2)] items(2)
    by (auto simp: drain_inv_def sorted_wrt_append)
qed

lemma drain_inv_pop:
  assumes "drain_inv arr evs buf" "pops jitter_pop buf popped buf'"
    and "\<forall>b\<in>set popped. b_presentation_time b \<le> current" "\<forall>b\<in>set buf'. current < b_presentation_time b"
  shows "drain_inv arr (evs @ map event_of popped) buf'"
proof -
  have "jitter_ordered buf" using assms(1) by (simp add: drain_inv_def)
  from bin_heap.pops_in_order [OF this assms(2)] have q: "mset buf = mset popped + mset buf'"
    "jitter_ordered buf'" "sorted (map b_presentation_time popped)" by simp_all
  have s: "set buf = set popped \<union> set buf'" using arg_cong [OF q(1), of set_mset] by simp
  have m: "mset (map event_of buf) = mset (map event_of popped) + mset (map event_of buf')"
    by (simp only: mset_map q(1) image_mset_union)
  have "\<exists>rest. arr = (evs @ map event_of popped) @ rest" if sorted: "sorted_wrt before arr"
  proof -
    from assms(1) sorted obtain rest where arr: "arr = evs @ rest" by (auto simp: drain_inv_def)
    then have mr: "mset rest = mset (map event_of buf)" using assms(1) by (simp add: drain_inv_def)
    define time where "time = (\<lambda>e. case make_buffered e of Ok b \<Rightarrow> b_presentation_time b
      | (_ :: (test_error, _) res) \<Rightarrow> PtpTime 0 0)"
    have te: "time (event_of b) = b_presentation_time b" if "b \<in> set buf" for b
      using assms(1) that by (simp add: drain_inv_def time_def)
    let ?sorted = "popped @ sort_key b_presentation_time buf'"
    have "sorted_wrt (\<lambda>a b. time a < time b) rest"
      using sorted by (auto simp: arr sorted_wrt_append before_def time_def elim!: sorted_wrt_mono_rel [rotated])
    then have r: "sorted (map time rest)" "distinct (map time rest)"
      using strict_sorted_iff [of "map time rest"] by (simp_all add: sorted_wrt_map)
    have times: "map time (map event_of ?sorted) = map b_presentation_time ?sorted"
      using te s by auto
    have "sorted (map time (map event_of ?sorted))"
      unfolding times using q(3) assms(3,4) by (auto simp: sorted_append intro: less_imp_le order_le_less_trans)
    moreover have mm: "mset (map event_of ?sorted) = mset rest" by (simp add: mr q(1))
    moreover have "inj_on time (set rest)" using r(2) by (simp add: distinct_map)
    moreover have "distinct (map time (map event_of ?sorted))"
      using r(2) mset_eq_imp_distinct_iff [OF arg_cong [OF mm, of "image_mset time", folded mset_map]] by simp
    ultimately have "map event_of ?sorted = rest"
      using r mset_eq_setD [OF mm] by (intro map_sorted_distinct_set_unique [of time]) simp_all
    with arr have "arr = (evs @ map event_of popped) @ map event_of (sort_key b_presentation_time buf')" by simp
    then show ?thesis by blast
  qed
  with assms(1) q(2) m s show ?thesis by (auto simp: drain_inv_def)
qed


text \<open>When a round is the last one.\<close>

definition drain_stops :: "'w test_env \<Rightarrow> nat \<Rightarrow> (test_error, presented \<times> talker_result) res \<Rightarrow> 'w \<Rightarrow> bool" where
  "drain_stops E deadline r w \<longleftrightarrow>
     (\<forall>p tr. r = Ok (p, tr) \<longrightarrow> (tr \<noteq> None \<and> jitter_buf p = []) \<or> deadline < te_now E w)"

lemma drain_rounds_step:
  assumes "drain_pass dbg E clk st w = Some (r, w1)"
  shows "drain_rounds dbg E clk deadline st w =
    (if drain_stops E deadline r w1 then Some (r, w1)
     else case r of Ok st' \<Rightarrow> drain_rounds dbg E clk deadline st' (te_sleep E 1000000 w1) | _ \<Rightarrow> Some (r, w1))"
  by (subst drain_rounds.simps) (auto simp: assms drain_stops_def split: res.split)

lemma drain_rounds_induct [consumes 1, case_names ends goes_on]:
  assumes "drain_rounds dbg E clk deadline st w = Some out"
    and ends: "\<And>st w r w1. drain_pass dbg E clk st w = Some (r, w1) \<Longrightarrow> drain_stops E deadline r w1 \<Longrightarrow> P st w (r, w1)"
    and goes_on: "\<And>st w st' w1 out. drain_pass dbg E clk st w = Some (Ok st', w1) \<Longrightarrow>
      P st' (te_sleep E 1000000 w1) out \<Longrightarrow> P st w out"
  shows "P st w out"
proof -
  let ?same = "\<lambda>d (E' :: 'a test_env) c n. d = dbg \<and> E' = E \<and> c = clk \<and> n = deadline"
  have "?same dbg E clk deadline \<longrightarrow> P st w out"
  proof (rule drain_rounds.raw_induct
      [where P = "\<lambda>d E' c n st w out. ?same d E' c n \<longrightarrow> P st w out", OF _ assms(1)])
    fix loop :: "bool \<Rightarrow> 'a test_env \<Rightarrow> ptp_clock \<Rightarrow> nat \<Rightarrow> presented \<times> talker_result \<Rightarrow> 'a \<Rightarrow>
        ((test_error, presented \<times> talker_result) res \<times> 'a) option"
      and d and E' :: "'a test_env" and c n st w out
    assume ih: "\<And>d E' c n st w out. loop d E' c n st w = Some out \<Longrightarrow> ?same d E' c n \<longrightarrow> P st w out"
      and e: "(case drain_pass d E' c st w of None \<Rightarrow> None
        | Some (r, w) \<Rightarrow> (case r of Err e \<Rightarrow> Some (Err e, w) | Panic \<Rightarrow> Some (Panic, w)
          | Ok (p, tr) \<Rightarrow> if tr \<noteq> None \<and> jitter_buf p = [] then Some (Ok (p, tr), w)
               else if n < te_now E' w then Some (Ok (p, tr), w)
               else loop d E' c n (p, tr) (te_sleep E' 1000000 w))) = Some out"
    show "?same d E' c n \<longrightarrow> P st w out"
    proof
      assume same: "?same d E' c n"
      with e obtain r w1 where pass: "drain_pass dbg E clk st w = Some (r, w1)"
        by (auto split: option.splits)
      show "P st w out"
      proof (cases "drain_stops E deadline r w1")
        case True
        then have "out = (r, w1)" using e same pass by (auto simp: drain_stops_def split: res.splits if_splits)
        with ends [OF pass True] show ?thesis by simp
      next
        case False
        then obtain p tr where r: "r = Ok (p, tr)" "\<not> (tr \<noteq> None \<and> jitter_buf p = [])" "\<not> deadline < te_now E w1"
          by (auto simp: drain_stops_def)
        then have "loop dbg E clk deadline (p, tr) (te_sleep E 1000000 w1) = Some out"
          using e same pass by (auto split: if_splits)
        from ih [OF this] goes_on [OF pass [unfolded r(1)]] show ?thesis by simp
      qed
    qed
  qed
  then show ?thesis by simp
qed

text \<open>What the drain loop needs of the machine: only receiving makes an event arrive.\<close>

locale drain_link =
  fixes dbg :: bool and E :: "'w test_env" and arrived :: "'w \<Rightarrow> event list"
  assumes recv_appends: "te_recv_event E w = (ev, w') \<Longrightarrow>
      arrived w' = arrived w @ (case ev of None \<Rightarrow> [] | Some e \<Rightarrow> [e])"
    and talker_keeps: "te_recv_talker E w = (tr, w') \<Longrightarrow> arrived w' = arrived w"
    and sleep_keeps: "arrived (te_sleep E d w) = arrived w"
    and clock_keeps: "ptp_clock_time dbg (te_kernel E) clk w = (r, w') \<Longrightarrow> arrived w' = arrived w"
    and open_keeps: "sys_open (te_kernel E) path w = (fd, w') \<Longrightarrow> arrived w' = arrived w"
begin

lemma receive_events_inv:
  assumes "receive_events E buf w = Some out" "fst out = Ok buf'" "drain_inv (arrived w) evs buf"
  shows "drain_inv (arrived (snd out)) evs buf'"
proof -
  let ?P = "\<lambda>buf w out. fst out = Ok buf' \<longrightarrow> drain_inv (arrived w) evs buf \<longrightarrow> drain_inv (arrived (snd out)) evs buf'"
  have "E = E \<longrightarrow> ?P buf w out"
  proof (rule receive_events.raw_induct [where P = "\<lambda>E' buf w out. E' = E \<longrightarrow> ?P buf w out", OF _ assms(1)])
    fix loop :: "'w test_env \<Rightarrow> buffered list \<Rightarrow> 'w \<Rightarrow> ((test_error, buffered list) res \<times> 'w) option"
      and E' :: "'w test_env" and buf w out
    assume ih: "\<And>E' buf w out. loop E' buf w = Some out \<Longrightarrow> E' = E \<longrightarrow> ?P buf w out"
      and e: "(case te_recv_event E' w of (ev, w) \<Rightarrow>
        (case ev of
           None \<Rightarrow> Some (Ok buf, w)
         | Some ev \<Rightarrow> (case make_buffered ev of Ok b \<Rightarrow> loop E' (jitter_push b buf) w
          | Err e \<Rightarrow> Some (Err e, w) | Panic \<Rightarrow> Some (Panic, w)))) = Some out"
    obtain ev w1 where ev: "te_recv_event E w = (ev, w1)" by (rule prod.exhaust)
    note a = recv_appends [OF ev]
    show "E' = E \<longrightarrow> ?P buf w out"
    proof (intro impI)
      assume E: "E' = E" and ok: "fst out = Ok buf'" and inv: "drain_inv (arrived w) evs buf"
      show "drain_inv (arrived (snd out)) evs buf'"
      proof (cases ev)
        case None
        with e ev E ok inv a show ?thesis by auto
      next
        case (Some x)
        with e ev E ok obtain b where b: "make_buffered x = (Ok b :: (test_error, _) res)"
          and l: "loop E (jitter_push b buf) w1 = Some out"
          by (auto split: res.splits)
        from a Some drain_inv_push [OF inv b] ih [OF l] ok show ?thesis by simp
      qed
    qed
  qed
  with assms(2,3) show ?thesis by simp
qed

lemma reading_keeps: "read_clock dbg E clk what w = (r, w') \<Longrightarrow> arrived w' = arrived w"
  using clock_keeps [OF surjective_pairing, of clk w] by (auto simp: read_clock_def)

lemma present_keeps:
  assumes "present dbg E clk current buf recs pcm w = (r, w')"
  shows "arrived w' = arrived w"
  by (rule present_unchanged [OF _ assms]) (rule clock_keeps)

lemma drain_pass_inv:
  assumes "drain_pass dbg E clk (p, tr) w = Some (Ok (p', tr'), w')"
    and "drain_inv (arrived w) evs (jitter_buf p)" "presents evs (listener_records p) (received_pcm_le p)"
  shows "\<exists>evs'. drain_inv (arrived w') evs' (jitter_buf p') \<and>
    presents evs' (listener_records p') (received_pcm_le p')"
proof -
  from assms(1) obtain buf w1 where re: "receive_events E (jitter_buf p) w = Some (Ok buf, w1)"
    by (auto simp: drain_pass_def split: option.splits res.splits)
  obtain tr2 w2 where po: "poll_talker E tr w1 = (tr2, w2)" by (rule prod.exhaust)
  from assms(1) re po obtain current w3 where
    c: "read_clock dbg E clk ''presentation'' w2 = (Ok current, w3)"
    and pr: "present dbg E clk current buf (listener_records p) (received_pcm_le p) w3 = (Ok p', w')"
    by (auto simp: drain_pass_def sbind_eq_Ok)
  have "arrived w2 = arrived w1"
    using po talker_keeps [OF surjective_pairing, of w1] by (auto simp: poll_talker_def split: if_splits prod.splits)
  with reading_keeps [OF c] present_keeps [OF pr] receive_events_inv [OF re _ assms(2)]
  have inv: "drain_inv (arrived w') evs buf" by simp
  then have "jitter_ordered buf" by (simp add: drain_inv_def)
  from present_pops [OF pr this assms(3)] obtain popped where
    "pops jitter_pop buf popped (jitter_buf p')"
    "\<forall>b\<in>set popped. b_presentation_time b \<le> current"
    "\<forall>b\<in>set (jitter_buf p'). current < b_presentation_time b"
    "presents (evs @ map event_of popped) (listener_records p') (received_pcm_le p')" by blast
  with drain_inv_pop [OF inv] show ?thesis by blast
qed

lemma drain_rounds_inv:
  assumes "drain_rounds dbg E clk deadline st w = Some out" "fst out = Ok (p', tr')"
    and "drain_inv (arrived w) evs (jitter_buf (fst st))"
    and "presents evs (listener_records (fst st)) (received_pcm_le (fst st))"
  shows "\<exists>evs'. drain_inv (arrived (snd out)) evs' (jitter_buf p') \<and>
    presents evs' (listener_records p') (received_pcm_le p') \<and> drain_stops E deadline (fst out) (snd out)"
  using assms
proof (induction arbitrary: evs rule: drain_rounds_induct)
  case (ends st w r w1)
  then show ?case using drain_pass_inv [of clk "fst st" "snd st" w p' tr' w1 evs] by simp
next
  case (goes_on st w st' w1 out)
  from drain_pass_inv [of clk "fst st" "snd st" w "fst st'" "snd st'" w1 evs] goes_on.hyps goes_on.prems
  obtain evs1 where "drain_inv (arrived w1) evs1 (jitter_buf (fst st'))"
    "presents evs1 (listener_records (fst st')) (received_pcm_le (fst st'))" by auto
  with goes_on.IH [OF goes_on.prems(1)] show ?case by (simp add: sleep_keeps)
qed

lemma drain_loop_presents:
  assumes "drain_loop dbg E cs deadline w = Some (Ok (ts, ls, pcm), w')" "arrived w = []"
  shows "\<exists>evs buf. mset (arrived w') = mset evs + mset buf \<and> presents evs ls pcm \<and>
    (sorted_wrt before (arrived w') \<longrightarrow> (\<exists>rest. arrived w' = evs @ rest)) \<and> (buf = [] \<or> deadline < te_now E w')"
proof -
  from assms(1) obtain clk w1 p tr where o: "open_source E cs ''presentation'' w = (Ok clk, w1)"
    and d: "drain_rounds dbg E clk deadline (nothing_presented, None) w1 = Some (Ok (p, tr), w')"
    and r: "drain_result (p, tr) = Ok (ts, ls, pcm)"
    by (auto simp: drain_loop_def split: prod.splits res.splits elim!: )
  have k: "keeps (\<lambda>w. arrived w = a) (open_source E cs what)" for a what
  proof -
    have "keeps (\<lambda>w. arrived w = a) (sys_open (te_kernel E) path)" for path
      by (rule keepsI) (simp add: open_keeps)
    then show ?thesis
      by (cases cs) (auto simp: open_source_def clock_open_def hardware_open_def intro!: keeps_intros)
  qed
  from keepsD [OF k assms(2) o] have a: "arrived w1 = []" .
  have "drain_inv (arrived w1) [] (jitter_buf nothing_presented)"
    by (simp add: drain_inv_def a nothing_presented_def heap_ordered_def)
  moreover have "presents [] (listener_records nothing_presented) (received_pcm_le nothing_presented)"
    by (simp add: nothing_presented_def presents_Nil)
  ultimately obtain evs where e: "drain_inv (arrived w') evs (jitter_buf p)"
    "presents evs (listener_records p) (received_pcm_le p)" "drain_stops E deadline (Ok (p, tr)) w'"
    using drain_rounds_inv [OF d] by fastforce
  moreover from r have "ls = listener_records p" "pcm = received_pcm_le p"
    by (auto simp: drain_result_def split: option.splits res.splits)
  ultimately show ?thesis
    by (intro exI [of _ evs] exI [of _ "map event_of (jitter_buf p)"])
      (auto simp: drain_inv_def drain_stops_def)
qed

end


text \<open>
  What makes the loop end: no call sets the clock of the machine back, a sleep lasts at least as long as
  it is asked for, and the events that can be received without waiting are finitely many.
\<close>

locale drain_clock = drain_link +
  fixes pending :: "'a \<Rightarrow> nat"
  assumes recv_consumes: "te_recv_event E w = (Some e, w') \<Longrightarrow> pending w' < pending w"
    and recv_time: "te_recv_event E w = (ev, w') \<Longrightarrow> te_now E w \<le> te_now E w'"
    and talker_time: "te_recv_talker E w = (tr, w') \<Longrightarrow> te_now E w \<le> te_now E w'"
    and clock_time: "ptp_clock_time dbg (te_kernel E) clk w = (r, w') \<Longrightarrow> te_now E w \<le> te_now E w'"
    and sleep_time: "te_now E w + d \<le> te_now E (te_sleep E d w)"
begin

lemma receive_events_end: "\<exists>out. receive_events E buf w = Some out \<and> te_now E w \<le> te_now E (snd out)"
proof (induction "pending w" arbitrary: buf w rule: less_induct)
  case less
  obtain ev w1 where ev: "te_recv_event E w = (ev, w1)" by (rule prod.exhaust)
  note t = recv_time [OF ev]
  show ?case
  proof (cases ev)
    case None
    with ev t show ?thesis by (subst receive_events.simps) simp
  next
    case (Some e)
    show ?thesis
    proof (cases "make_buffered e :: (test_error, buffered) res")
      case (Ok b)
      from recv_consumes [of w e w1] ev Some have "pending w1 < pending w" by simp
      from less [OF this, of "jitter_push b buf"] obtain out where
        "receive_events E (jitter_push b buf) w1 = Some out" "te_now E w1 \<le> te_now E (snd out)" by blast
      with ev Some Ok t show ?thesis by (subst receive_events.simps) simp
    qed (use ev Some t in \<open>subst receive_events.simps, simp\<close>)+
  qed
qed

lemma reading_time: "read_clock dbg E clk what w = (r, w') \<Longrightarrow> te_now E w \<le> te_now E w'"
  using clock_time [OF surjective_pairing, of w clk] by (auto simp: read_clock_def)

lemma drain_pass_end: "\<exists>out. drain_pass dbg E clk st w = Some out \<and> te_now E w \<le> te_now E (snd out)"
proof -
  obtain p tr where st: "st = (p, tr)" by (rule prod.exhaust)
  obtain r w1 where re: "receive_events E (jitter_buf p) w = Some (r, w1)" "te_now E w \<le> te_now E w1"
    using receive_events_end [of "jitter_buf p" w] by auto
  obtain tr2 w2 where po: "poll_talker E tr w1 = (tr2, w2)" by (rule prod.exhaust)
  have t2: "te_now E w1 \<le> te_now E w2"
    using po talker_time [OF surjective_pairing, of w1] by (auto simp: poll_talker_def split: if_splits prod.splits)
  obtain c w3 where c: "read_clock dbg E clk ''presentation'' w2 = (c, w3)" by (rule prod.exhaust)
  note t3 = reading_time [OF c]
  show ?thesis
  proof (cases r)
    case (Ok buf)
    show ?thesis
    proof (cases c)
      fix current assume u: "c = Ok current"
      obtain pr w4 where p: "present dbg E clk current buf (listener_records p) (received_pcm_le p) w3 = (pr, w4)"
        by (rule prod.exhaust)
      have "te_now E w3 \<le> te_now E w4" by (rule present_time [OF _ p]) (rule clock_time)
      with re t2 t3 st po c u p Ok show ?thesis by (cases pr) (simp_all add: drain_pass_def)
    qed (use re t2 t3 st po c Ok in \<open>simp_all add: drain_pass_def\<close>)
  qed (use re st in \<open>simp_all add: drain_pass_def\<close>)
qed

lemma drain_rounds_end: "\<exists>out. drain_rounds dbg E clk deadline st w = Some out"
proof (induction "Suc deadline - te_now E w" arbitrary: st w rule: less_induct)
  case less
  obtain r w1 where p: "drain_pass dbg E clk st w = Some (r, w1)" "te_now E w \<le> te_now E w1"
    using drain_pass_end [of clk st w] by auto
  show ?case
  proof (cases "drain_stops E deadline r w1")
    case False
    then have "te_now E w1 \<le> deadline" by (auto simp: drain_stops_def)
    then have "Suc deadline - te_now E (te_sleep E 1000000 w1) < Suc deadline - te_now E w"
      using p(2) sleep_time [of w1 1000000] by linarith
    from less [OF this] show ?thesis by (simp add: drain_rounds_step [OF p(1)] split: res.split)
  qed (simp add: drain_rounds_step [OF p(1)])
qed

lemma drain_loop_end: "drain_loop dbg E cs deadline w \<noteq> None"
proof -
  obtain r w1 where o: "open_source E cs ''presentation'' w = (r, w1)" by (rule prod.exhaust)
  show ?thesis
  proof (cases r)
    case (Ok clk)
    obtain out where "drain_rounds dbg E clk deadline (nothing_presented, None) w1 = Some out"
      using drain_rounds_end by blast
    with o Ok show ?thesis by (simp add: drain_loop_def)
  qed (simp_all add: drain_loop_def o)
qed

end

end
