(* ===== verification/IntegrationLife.thy ===== *)
theory IntegrationLife
  imports IntegrationLink IntegrationDrain InstanceLife
begin

text \<open>
  A machine on which the integration test runs, on which the interfaces its threads rely on are
  interpreted, a run of the test with one packet, and what the test shows as a whole.
\<close>

section \<open>A machine to test on\<close>

text \<open>
  A machine whose time passes only in sleeps, with two interfaces on a wire, a clock that follows its
  time, and the channels between the threads.
\<close>

record bench =
  bench_now :: nat
  bench_sent :: "byte list list"
  bench_incoming :: "byte list list"
  bench_handed :: "event list"
  bench_queue :: "event list"
  bench_arrived :: "event list"
  bench_talker :: "(test_error, talker_record list) res try_recv"

definition bench_start :: bench where
  "bench_start = \<lparr>bench_now = 5000000000, bench_sent = [], bench_incoming = [], bench_handed = [],
     bench_queue = [], bench_arrived = [], bench_talker = Empty\<rparr>"

definition bench_interfaces :: "network_interface list" where
  "bench_interfaces =
     [\<lparr>if_name = ''eth0'', if_mac = Some (MacAddr 2 0 0 0 0 1), if_up = True\<rparr>,
      \<lparr>if_name = ''eth1'', if_mac = Some (MacAddr 2 0 0 0 0 2), if_up = True\<rparr>]"

definition bench_kernel :: "bench kernel" where
  "bench_kernel =
     \<lparr>sys_open = (\<lambda>path w. (if path = ''/dev/ptp0'' then Ok 5 else Err NotFound, w)),
      sys_read_exact = (\<lambda>_ _ w. (Err UnexpectedEof, w)),
      sys_clock_gettime = (\<lambda>_ w. (Ok (int (bench_now w div nsec_per_sec) mod 2 ^ 32, int (bench_now w mod nsec_per_sec)), w)),
      ptp_clock_getcaps = (\<lambda>_ caps w. (Ok caps, w)),
      ptp_pin_getfunc = (\<lambda>_ d w. (Ok d, w)), ptp_pin_setfunc = (\<lambda>_ _ w. (Ok (), w)),
      ptp_extts_request = (\<lambda>_ _ w. (Ok (), w)), ptp_extts_request2 = (\<lambda>_ _ w. (Ok (), w)),
      ptp_perout_request = (\<lambda>_ _ w. (Ok (), w)), ptp_perout_request2 = (\<lambda>_ _ w. (Ok (), w))\<rparr>"

definition bench_link :: "bench datalink" where
  "bench_link =
     \<lparr>dl_channel = (\<lambda>_ w. (Ok (Some 0), w)),
      dl_send = (\<lambda>_ f w. (Some (Ok ()), w\<lparr>bench_sent := bench_sent w @ [f]\<rparr>)),
      dl_next = (\<lambda>_ w. case bench_incoming w of
          [] \<Rightarrow> (Err UnexpectedEof, w) | f # fs \<Rightarrow> (Ok f, w\<lparr>bench_incoming := fs\<rparr>))\<rparr>"

definition bench_files :: "bench proc_ops" where
  "bench_files =
     \<lparr>os_pid = (\<lambda>_. 1), os_create_file = (\<lambda>_ w. (Ok (), w)), os_write_file = (\<lambda>_ _ w. (Ok (), w)),
      os_remove_file = (\<lambda>_ w. (Ok (), w)), os_spawn = (\<lambda>_ _ w. (Err no_entry, w)),
      os_output = (\<lambda>_ _ w. (Err no_entry, w)), os_try_wait = (\<lambda>_ w. (Err no_child, w)),
      os_kill = (\<lambda>_ w. (Err no_child, w)), os_wait = (\<lambda>_ w. (Err no_child, w)),
      os_spawn_logger = (\<lambda>_ _ _ w. (Err no_entry, w))\<rparr>"

definition bench_env :: "bench test_env" where
  "bench_env =
     \<lparr>te_net = \<lparr>net_interfaces = (\<lambda>_. bench_interfaces), net_kernel = bench_kernel,
        net_exists = (\<lambda>_ _. False), net_read_dir = (\<lambda>_ _. None)\<rparr>,
      te_link = bench_link, te_files = bench_files, te_now = bench_now,
      te_sleep = (\<lambda>d w. w\<lparr>bench_now := bench_now w + d + 1000\<rparr>),
      te_epoch_secs = (\<lambda>w. Some (bench_now w div nsec_per_sec)),
      te_create_dir = (\<lambda>_ w. (Ok (), w)), te_ready = sret (),
      te_send_event = (\<lambda>e w. (True, w\<lparr>bench_handed := bench_handed w @ [e]\<rparr>)),
      te_recv_event = (\<lambda>w. case bench_queue w of
          [] \<Rightarrow> (None, w)
        | e # es \<Rightarrow> (Some e, w\<lparr>bench_queue := es, bench_arrived := bench_arrived w @ [e]\<rparr>)),
      te_recv_talker = (\<lambda>w. (bench_talker w, w))\<rparr>"

lemma bench_clock:
  "ptp_clock_time dbg (te_kernel bench_env) clk w =
    (Ok (PtpTime (int (bench_now w div nsec_per_sec) mod 2 ^ 32) (of_nat (bench_now w mod nsec_per_sec))), w)"
  by (cases clk) (simp_all add: bench_env_def bench_kernel_def hardware_time_def system_time_def hw_clock_gettime_def
      from_normalized_timespec_def debug_assert_def sbind_def)

interpretation bench_talker: talker_link dbg bench_env bench_sent for dbg
  by unfold_locales (auto simp: bench_clock, auto simp: bench_env_def bench_link_def bench_kernel_def)

interpretation bench_receiver: receiver_link dbg bench_env bench_incoming bench_handed for dbg
  by unfold_locales (auto simp: bench_clock, auto simp: bench_env_def bench_link_def)

interpretation bench_drain: drain_clock dbg bench_env bench_arrived "\<lambda>w. length (bench_queue w)" for dbg
  by unfold_locales
    (auto simp: bench_clock, auto simp: bench_env_def bench_kernel_def split: list.splits)


section \<open>A run\<close>

definition bench_wav :: loaded_wav where
  "bench_wav = \<lparr>lw_header = \<lparr>wav_channels = 2, wav_sample_rate = 48000, bits_per_sample = 16,
     valid_bits_per_sample = 16, audio_format = WavPcm\<rparr>, lw_pcm_le = [1, 0, 2, 0]\<rparr>"

definition bench_args :: args where
  "bench_args = \<lparr>wav_file = ''test.wav'', talker_interface = ''eth0'', listener_interface = ''eth1'',
     talker_ptp = None, listener_ptp = None, system_time_arg = True, playback_delay_ms = 2, stream_uid = 7,
     timeout_secs = 5, output_dir_arg = None, samples_per_packet_arg = Some 1\<rparr>"

definition bench_talker_interface :: validated_interface where
  "bench_talker_interface = \<lparr>vi_interface = bench_interfaces ! 0, vi_clock_source = SystemTimeSource\<rparr>"

definition bench_clk :: sync_clock where
  "bench_clk = \<lparr>initial_ptp_time = PtpTime 5 0, last_ptp_time = PtpTime 5 0, last_ptp_instant = 5000000000,
     frequency_adjustment = 1, phase_offset_ns = 0, last_returned = 0, resync_interval = 100000000\<rparr>"

lemma bench_sync: "\<exists>t clk. sync_ptp_time bench_clk 5000001000 reading = (Ok t, clk)"
proof -
  have r: "rnd 1000 = 1000" by (rule rnd_numeral) simp
  have f: "\<lfloor>2001 / 2 :: rat\<rfloor> = 1000" by (simp add: floor_eq_iff)
  show ?thesis
    by (simp add: sync_ptp_time_def elapsed_def compute_elapsed_def bench_clk_def duration_since_def
        i128_nanos_to_duration_def Let_def as_nanos_wf wf_time_def in_i64_def r sat_i128_def in_i128_def
        checked_add_i128_def round_away_def in_u64_def ensure_def from_ns_i128_def f)
qed

definition bench_setup :: talker_setup where
  "bench_setup =
     \<lparr>ts_sender = \<lparr>es_tx = 0, es_src_mac = MacAddr 2 0 0 0 0 1, es_dst_mac = MacAddr 2 0 0 0 0 2\<rparr>,
      ts_sync_source = SystemTime, ts_check_clock = SystemTime,
      ts_talker = \<lparr>tk_stream_id = \<lparr>mac_address = MacAddr 2 0 0 0 0 1, unique_id = 7\<rparr>, tk_format = Int16Bit,
        tk_sample_rate = KHz48, tk_channels = 2, tk_bit_depth = 16, tk_sequence_num = 0,
        tk_ptp_clock = bench_clk, playback_delay_ns = 2000000\<rparr>\<rparr>"

lemma bench_talker_start:
  "talker_start True bench_env ''eth0'' SystemTimeSource (MacAddr 2 0 0 0 0 2) 7 2 (lw_header bench_wav) bench_start =
    (Ok bench_setup, bench_start)"
  by (simp add: talker_start_def sbind_def bench_env_def bench_interfaces_def find_interface_def bench_wav_def
      sender_new_def bench_link_def open_source_def bench_kernel_def system_time_def from_normalized_timespec_def
      debug_assert_def sync_clock_new_def with_resync_interval_def bench_start_def ensure_def from_wav_header_def
      from_hz_def talker_new_def mul_u32_def bench_setup_def bench_clk_def hw_clock_gettime_def)

lemma bench_talker_step:
  "\<exists>r tk' frame w'. talker_step True mem_writer bench_env bench_setup 2 20833 5000000000 0 [1, 0, 2, 0]
      (ts_talker bench_setup) bench_start = (Ok (r, tk'), w') \<and> bench_sent w' = [frame]"
proof -
  obtain t clk where t: "sync_ptp_time bench_clk 5000001000 (Ok (PtpTime 5 0) :: phc_error reading) = (Ok t, clk)"
    using bench_sync by blast
  have sw: "swap_words 2 [1, 0, 2, 0] = [0, 1, 0, 2]" by (simp add: swap_words.simps)
  let ?tk = "ts_talker bench_setup"
  have p: "\<exists>p. pcm_new True KHz48 2 Int16Bit 16 [0, 1, 0, 2] = Ok p"
    by (simp add: pcm_new_Ok_iff pcm_wf_def frame_bytes_def u16_max_def)
  then obtain p where p: "pcm_new True KHz48 2 Int16Bit 16 [0, 1, 0, 2] = Ok p" ..
  have wf: "aaf_wf (sent_aaf ?tk t [0, 1, 0, 2])"
    by (rule sent_aaf_wf [of True _ _ p]) (use p in \<open>simp add: bench_setup_def\<close>)
  let ?pdu = "Stream (aaf_encode (sent_aaf ?tk t [0, 1, 0, 2]))"
  have b: "build_packet True mem_writer 5000001000 (Ok (PtpTime 5 0) :: phc_error reading) [0, 1, 0, 2] ?tk =
      (Ok ?pdu, ?tk\<lparr>tk_ptp_clock := clk, tk_sequence_num := tk_sequence_num ?tk + 1\<rparr>)"
    using t p by (simp add: build_packet_eq [OF mem_wr.bit_writer_laws_axioms] bench_setup_def)
  have "pdu_decodable ?pdu" using aaf_encode_wf [OF wf] by (simp add: pdu_defs sent_aaf_def)
  then have "pdu_typed ?pdu" "pdu_payload_ok ?pdu" by (simp_all add: pdu_decodable_def)
  from build_frame_bytes [OF mem_wr.bit_writer_laws_axioms this] obtain frame where
    f: "build_frame True mem_writer (ts_sender bench_setup) ?pdu = Ok frame" by blast
  have e: "\<exists>n. embedded_timestamp ?pdu = (Ok n :: (test_error, _) res)" by (simp add: embedded_timestamp_def)
  have d: "due_reading True bench_env SystemTime bench_clk (bench_start\<lparr>bench_now := 5000001000\<rparr>) =
      (Ok (PtpTime 5 0), bench_start\<lparr>bench_now := 5000001000\<rparr>)"
    by (simp add: due_reading_def bench_clk_def duration_since_def bench_env_def)
  have clk: "tk_ptp_clock ?tk = bench_clk" "ts_sync_source bench_setup = SystemTime" "ts_check_clock bench_setup = SystemTime"
    by (simp_all add: bench_setup_def)
  show ?thesis
    using b f e d bench_clock [of True SystemTime "bench_start\<lparr>bench_now := 5000001000\<rparr>"]
    by (simp add: talker_step_def Let_def clk read_clock_def sbind_def swap_byte_order_def sw sender_send_def)
      (auto simp: bench_env_def bench_link_def bench_start_def)
qed


lemma bench_talk:
  "\<exists>t frame w1. spawned_talker True mem_writer bench_env bench_args bench_wav bench_talker_interface
      (MacAddr 2 0 0 0 0 2) bench_start = (Ok [t], w1) \<and> bench_sent w1 = [frame]"
proof -
  have bps: "header_bytes_per_sample (lw_header bench_wav) = 2" by (simp add: header_bytes_per_sample_def bench_wav_def)
  have cs: "chunks_of 4 (lw_pcm_le bench_wav) = [[1, 0, 2, 0]]" by (simp add: chunks_of.simps bench_wav_def)
  have rate: "wav_sample_rate (lw_header bench_wav) = 48000" "wav_channels (lw_header bench_wav) = 2"
    by (simp_all add: bench_wav_def)
  have if_: "if_name (vi_interface bench_talker_interface) = ''eth0''" "vi_clock_source bench_talker_interface = SystemTimeSource"
    by (simp_all add: bench_talker_interface_def bench_interfaces_def)
  have ar: "stream_uid bench_args = 7" "playback_delay_ms bench_args = 2"
    "samples_per_packet bench_args (lw_header bench_wav) = 1" by (simp_all add: bench_args_def samples_per_packet_def)
  have now: "te_now bench_env bench_start = 5000000000" by (simp add: bench_env_def bench_start_def)
  from bench_talker_step obtain r tk' frame w' where
    st: "talker_step True mem_writer bench_env bench_setup 2 20833 5000000000 0 [1, 0, 2, 0]
      (ts_talker bench_setup) bench_start = (Ok (r, tk'), w')" "bench_sent w' = [frame]" by blast
  show ?thesis
    using st by (simp add: spawned_talker_def talker_thread_def if_ ar bps rate cs Let_def sbind_def
        bench_talker_start now)
qed

lemma bench_receive:
  assumes "is_avtp_frame frame" "packet_of True mem_reader frame = Some p"
    and "process True mem_reader p l = (Ok (Some x), l')"
  shows "receiver_loop True mem_reader bench_env \<lparr>er_rx = 0\<rparr> SystemTime l
      (bench_start\<lparr>bench_incoming := [[1, 2, 3], frame]\<rparr>) =
    Some (Err (ReceiveFailed (Receive UnexpectedEof)), bench_start\<lparr>bench_handed := [(x, PtpTime 5 0)]\<rparr>)"
proof -
  let ?E = bench_env
  have link: "te_link ?E = bench_link" by (simp add: bench_env_def)
  from assms(2) obtain r where p: "avtpdu_read True mem_reader (rd_slice mem_reader (drop 14 frame)) =
      (Ok (p, r) :: (avtpdu_error io_wrap, _) res)"
    by (auto simp: packet_of_def split: res.splits)
  have j: "\<not> is_avtp_frame [1, 2, 3]" by (simp add: is_avtp_frame_def)
  have "delivers bench_link (er_rx \<lparr>er_rx = 0\<rparr>) (bench_start\<lparr>bench_incoming := [[1, 2, 3], frame]\<rparr>) ([[1, 2, 3]] @ [frame])
      bench_start" by (simp add: bench_link_def bench_start_def)
  moreover have c: "system_time True (te_kernel ?E) bench_start = (Ok (PtpTime 5 0), bench_start)"
    using bench_clock [of True SystemTime bench_start] by (simp add: bench_start_def)
  ultimately have c: "system_time True (te_kernel ?E) bench_start = (Ok (PtpTime 5 0), bench_start)"
    and d: "delivers bench_link (er_rx \<lparr>er_rx = 0\<rparr>) (bench_start\<lparr>bench_incoming := [[1, 2, 3], frame]\<rparr>) ([[1, 2, 3]] @ [frame])
      bench_start" by blast+
  from recv_skips [OF d _ assms(1), of True mem_reader "ptp_clock_time True (te_kernel ?E) SystemTime"] j p
  have one: "receive_one True mem_reader ?E \<lparr>er_rx = 0\<rparr> SystemTime (bench_start\<lparr>bench_incoming := [[1, 2, 3], frame]\<rparr>) =
      Some (Ok (PtpTime 5 0, p), bench_start)"
    by (simp add: receive_one_def link c)
  have two: "receive_one True mem_reader ?E \<lparr>er_rx = 0\<rparr> SystemTime w = Some (Err (ReceiveFailed (Receive UnexpectedEof)), w)"
    if "bench_incoming w = []" for w
    using that by (simp add: receive_one_def link recv_next_with.simps [of _ _ _ _ _ w] bench_link_def)
  have sent: "te_send_event ?E (x, PtpTime 5 0) bench_start = (True, bench_start\<lparr>bench_handed := [(x, PtpTime 5 0)]\<rparr>)"
    by (simp add: bench_env_def bench_start_def)
  show ?thesis
    by (subst receiver_loop.simps, simp add: one assms(3) sent)
      (subst receiver_loop.simps, simp add: two bench_start_def)
qed

text \<open>The main thread five seconds later, when the talker has finished.\<close>

definition bench_later :: "event \<Rightarrow> talker_record list \<Rightarrow> bench" where
  "bench_later e ts = bench_start\<lparr>bench_now := 10000000000, bench_queue := [e], bench_talker := Received (Ok ts)\<rparr>"

lemma bench_present_time:
  obtains b where "make_buffered (x, PtpTime 5 0) = (Ok b :: (test_error, _) res)"
    "b_presentation_time b \<le> PtpTime 10 0" "event_of b = (x, PtpTime 5 0)"
proof -
  let ?n = "nearest_ns (rx_avtp_timestamp x) 5000000000"
  have a: "as_nanos (PtpTime 5 0) = 5000000000" by (simp add: as_nanos_wf wf_time_def in_i64_def)
  have n: "5000000000 - 2 ^ 31 \<le> ?n" "?n < 5000000000 + 2 ^ 31"
    using nearest_ns_close [of "rx_avtp_timestamp x" 5000000000] by simp_all
  have q: "0 \<le> ?n div 1000000000" using n(1) by (simp add: pos_imp_zdiv_nonneg_iff)
  have q2: "?n div 1000000000 < 10" using zdiv_mono1 [of ?n 7147483648 1000000000] n(2) by simp
  with q have w: "from_ns_i128 ?n = Some (PtpTime (?n div 1000000000) (word_of_int (?n mod 1000000000)))"
    by (simp add: from_ns_i128_def in_i64_def Let_def)
  from q2 have "PtpTime (?n div 1000000000) (word_of_int (?n mod 1000000000)) \<le> PtpTime 10 0"
    by (simp add: less_eq_ptp_time_def)
  with that w show thesis by (simp add: make_buffered_def expand_near_eq a event_of_def)
qed


lemma bench_drain_run:
  assumes "8 \<le> unat (rx_bit_depth x)"
  obtains l u1 where "drain_loop True bench_env SystemTimeSource 20000000000 (bench_later (x, PtpTime 5 0) ts) =
      Some (Ok (ts, [l], frame_pcm x), u1)" "bench_arrived u1 = [(x, PtpTime 5 0)]"
proof -
  let ?E = bench_env
  define e where "e = (x, PtpTime 5 0)"
  obtain b where b: "make_buffered e = (Ok b :: (test_error, _) res)" "b_presentation_time b \<le> PtpTime 10 0" "event_of b = e"
    unfolding e_def by (rule bench_present_time)
  have bp: "b_pcm b = x" "b_phc_time_at_receive b = PtpTime 5 0" using b(3) by (simp_all add: event_of_def e_def)
  define w1 where "w1 = (bench_later e ts)\<lparr>bench_queue := [], bench_arrived := [e]\<rparr>"
  have q: "te_recv_event ?E (bench_later e ts) = (Some e, w1)" "te_recv_event ?E w1 = (None, w1)"
    by (simp_all add: bench_env_def bench_later_def w1_def bench_start_def)
  have push: "jitter_push b [] = [b]" by (simp add: heap_push_def sift_up.simps)
  have re: "receive_events ?E [] (bench_later e ts) = Some (Ok [b], w1)"
    by (subst receive_events.simps, simp add: q(1) b(1) push) (subst receive_events.simps, simp add: q(2))
  have po: "poll_talker ?E None w1 = (Some (Ok ts), w1)"
    by (simp add: poll_talker_def bench_env_def w1_def bench_later_def)
  have c: "read_clock True ?E SystemTime what w1 = (Ok (PtpTime 10 0), w1)" for what
    using bench_clock [of True SystemTime w1]
    by (simp add: read_clock_def w1_def bench_later_def)
  have pop: "jitter_pop [b] = Some (b, [])" by (simp add: heap_pop_def)
  have sw: "swap_byte_order (payload_be x) (unat (rx_bit_depth x) div 8) = (Ok (frame_pcm x) :: (test_error, _) res)"
    using assms by (simp add: swap_byte_order_def frame_pcm_def)
  have "present True ?E SystemTime current [] recs pcm w =
      (Ok \<lparr>jitter_buf = [], listener_records = recs, received_pcm_le = pcm\<rparr>, w)" for current recs pcm w
    by (simp add: present.simps heap_peek_def)
  then have "\<exists>l. present True ?E SystemTime (PtpTime 10 0) [b] [] [] w1 =
      (Ok \<lparr>jitter_buf = [], listener_records = [l], received_pcm_le = frame_pcm x\<rparr>, w1)"
    using b(2) by (subst present.simps) (simp add: heap_peek_def pop c bp sw)
  then obtain l where p: "present True ?E SystemTime (PtpTime 10 0) [b] [] [] w1 =
      (Ok \<lparr>jitter_buf = [], listener_records = [l], received_pcm_le = frame_pcm x\<rparr>, w1)" ..
  have pass: "drain_pass True ?E SystemTime (nothing_presented, None) (bench_later e ts) =
      Some (Ok (\<lparr>jitter_buf = [], listener_records = [l], received_pcm_le = frame_pcm x\<rparr>, Some (Ok ts)), w1)"
    by (simp add: drain_pass_def nothing_presented_def re po sbind_def c p)
  have "open_source ?E SystemTimeSource ''presentation'' (bench_later e ts) = (Ok SystemTime, bench_later e ts)"
    by (simp add: open_source_def)
  with pass have "drain_loop True ?E SystemTimeSource 20000000000 (bench_later e ts) =
      Some (Ok (ts, [l], frame_pcm x), w1)"
    by (simp add: drain_loop_def drain_rounds_step drain_stops_def drain_result_def)
  with that show thesis by (simp add: e_def w1_def)
qed


lemma chunks_of_index: "idx < length (chunks_of n bs) \<Longrightarrow> idx * n < length bs"
proof (induction n bs arbitrary: idx rule: chunks_of.induct)
  case (1 n bs)
  from "1.prems" have c: "n \<noteq> 0" "bs \<noteq> []" and i: "idx < Suc (length (chunks_of n (drop n bs)))"
    by (simp_all add: chunks_of.simps [of n bs] split: if_splits)
  show ?case
  proof (cases idx)
    case (Suc k)
    with i "1.IH" [of k] c have "k * n < length bs - n" by simp
    with Suc show ?thesis by simp
  qed (use c in simp)
qed

section \<open>Properties\<close>




text \<open>C9: What the drain loop returns accounts for everything that arrived: the records and the audio are
  those of events that arrived, numbered in the order of their presentation; the others are still in the
  buffer, of which there are none unless the deadline has passed; and when the events arrive in the order
  of their presentation times, the presented ones are the first of them, in that order.\<close>

theorem drain_presents_arrivals:
  assumes "drain_link dbg E arrived" "drain_loop dbg E cs deadline w = Some (Ok (ts, ls, pcm), w')" "arrived w = []"
  shows "\<exists>evs buf. mset (arrived w') = mset evs + mset buf \<and> presents evs ls pcm \<and>
    (sorted_wrt before (arrived w') \<longrightarrow> (\<exists>rest. arrived w' = evs @ rest)) \<and> (buf = [] \<or> deadline < te_now E w')"
  by (rule drain_link.drain_loop_presents [OF assms])

definition bench_frame :: received_pcm where
  "bench_frame = \<lparr>rx_avtp_timestamp = AvtpTimestamp 5000, rx_seq_num = 9, payload_be = [1, 2, 3, 4],
     rx_sample_rate = KHz48, rx_channels = 2, rx_bit_depth = 16, rx_format = Int16Bit, packets_lost = 0\<rparr>"

theorem drain_presents_arrivals_witness:
  "\<exists>l w'. drain_loop True bench_env SystemTimeSource 20000000000 (bench_later (bench_frame, PtpTime 5 0) []) =
      Some (Ok ([], [l], [2, 1, 4, 3]), w') \<and> l_frame_idx l = 0 \<and> l_seq_num l = 9"
proof -
  have d: "8 \<le> unat (rx_bit_depth bench_frame)" by (simp add: bench_frame_def)
  have pcm: "frame_pcm bench_frame = [2, 1, 4, 3]" by (simp add: frame_pcm_def bench_frame_def swap_words.simps)
  obtain l u1 where run: "drain_loop True bench_env SystemTimeSource 20000000000
      (bench_later (bench_frame, PtpTime 5 0) []) = Some (Ok ([], [l], frame_pcm bench_frame), u1)"
    "bench_arrived u1 = [(bench_frame, PtpTime 5 0)]" by (rule bench_drain_run [OF d, of "[]"])
  have "bench_arrived (bench_later (bench_frame, PtpTime 5 0) []) = []" by (simp add: bench_later_def bench_start_def)
  from drain_presents_arrivals [OF bench_drain.drain_link_axioms run(1) this] run(2)
  have "\<exists>evs. presents evs [l] (frame_pcm bench_frame) \<and> (\<exists>rest. [(bench_frame, PtpTime 5 0)] = evs @ rest)" by auto
  then obtain evs rest where e: "presents evs [l] (frame_pcm bench_frame)" "[(bench_frame, PtpTime 5 0)] = evs @ rest" by blast
  then have "evs = [(bench_frame, PtpTime 5 0)]" using presents_length [OF e(1)] by (cases evs) auto
  moreover have "rx_seq_num bench_frame = 9" by (simp add: bench_frame_def)
  ultimately show ?thesis using e(1) run(1) by (simp add: presents_def pcm)
qed





text \<open>The talker swaps the bytes of whole containers and the drain loop those of the valid bits: audio with
  24 valid bits in containers of 32 does not come back as it was sent, and the analysis rejects it
  although every packet has arrived.\<close>

theorem padded_samples_fail:
  "analyze_and_report ts ls [0, 1, 2, 3] (frame_pcm (f\<lparr>payload_be := swap_words 4 [0, 1, 2, 3], rx_bit_depth := 24\<rparr>)) =
    Err ValidationFailed"
  by (simp add: analyze_eq frame_pcm_def swap_words.simps)

end
