(* ===== verification/PtpTool.thy ===== *)
theory PtpTool
  imports PhcClock
begin

unbundle bit_operations_syntax

text \<open>
  \<^verbatim>\<open>src/bin/ptp-tool.rs\<close>: one command on a PTP clock device, with the lines it prints. A line is given by
  its code points, since the names of the pins are any text; printing may fail, which panics.
\<close>

section \<open>Commands\<close>

datatype cli_pin_function = CliNone | CliExtts | CliPerout

primrec cli_pin_function_into :: "cli_pin_function \<Rightarrow> pin_function" where
  "cli_pin_function_into CliNone = NoFunction"
| "cli_pin_function_into CliExtts = ExternalTimestamp"
| "cli_pin_function_into CliPerout = PeriodicOutput"

datatype cli_edge = CliRising | CliFalling | CliBoth

primrec cli_edge_into :: "cli_edge \<Rightarrow> edge" where
  "cli_edge_into CliRising = Rising"
| "cli_edge_into CliFalling = Falling"
| "cli_edge_into CliBoth = BothEdges"

primrec cli_edge_display :: "cli_edge \<Rightarrow> string" where
  "cli_edge_display CliRising = ''rising''"
| "cli_edge_display CliFalling = ''falling''"
| "cli_edge_display CliBoth = ''both''"

datatype tool_command =
    Caps
  | Pins
  | SetPin u32 cli_pin_function u32
  | Perout "64 word" u32 "64 word option"
  | StopPerout u32
  | Extts u32 cli_edge nat
  | StopExtts u32
  | Time

record tool_args =
  tool_device :: string
  tool_command :: tool_command

datatype tool_error = ToolPhc phc_error | ZeroPeriod

section \<open>Printing\<close>

record 'w tool_env =
  tool_kernel :: "'w kernel"
  tool_println :: "nat list \<Rightarrow> 'w \<Rightarrow> bool \<times> 'w"

definition say :: "'w tool_env \<Rightarrow> nat list \<Rightarrow> ('w, tool_error, unit) sys" where
  "say T line w = (case tool_println T line w of (done, w') \<Rightarrow> (if done then Ok () else Panic, w'))"

definition codes :: "string \<Rightarrow> nat list" where
  "codes s = map of_char s"

definition flag :: "bool \<Rightarrow> string" where
  "flag b = (if b then ''1'' else ''0'')"

definition caps_lines :: "capabilities \<Rightarrow> string list" where
  "caps_lines c =
     [''capabilities:'',
      ''  '' @ show_int (max_adjustment_ppb c) @ '' maximum frequency adjustment (ppb)'',
      ''  '' @ show_int (programmable_alarms c) @ '' programmable alarms'',
      ''  '' @ show_int (external_timestamp_channels c) @ '' external timestamp channels'',
      ''  '' @ show_int (periodic_output_channels c) @ '' programmable periodic signals'',
      ''  '' @ flag (pulse_per_second c) @ '' pulse per second'',
      ''  '' @ show_int (programmable_pins c) @ '' programmable pins'',
      ''  '' @ flag (cross_timestamping c) @ '' cross timestamping'',
      ''  '' @ flag (adjust_phase c) @ '' adjust_phase'',
      ''  '' @ show_int (max_phase_adjustment_ns c) @ '' maximum phase adjustment (ns)'']"

text \<open>The derived \<^verbatim>\<open>Debug\<close>.\<close>

primrec pin_function_debug :: "pin_function \<Rightarrow> string" where
  "pin_function_debug NoFunction = ''None''"
| "pin_function_debug ExternalTimestamp = ''ExternalTimestamp''"
| "pin_function_debug PeriodicOutput = ''PeriodicOutput''"
| "pin_function_debug PhysicalSync = ''PhysicalSync''"
| "pin_function_debug (UnknownFunction n) = ''Unknown('' @ show_nat (unat n) @ '')''"

definition pin_line :: "pin \<Rightarrow> nat list" where
  "pin_line p = codes ''name '' @ pin_label p @ codes ('' index '' @ show_nat (unat (pin_index p)) @ '' func '' @
     pin_function_debug (pin_func p) @ '' chan '' @ show_nat (unat (pin_channel p)))"

definition event_line :: "external_timestamp_event \<Rightarrow> nat list" where
  "event_line e = codes (''event index '' @ show_nat (unat (ets_channel e)) @ '' at '' @ ptp_display (ets_timestamp e))"

section \<open>Running a command\<close>

abbreviation phc :: "('w, phc_error, 'a) sys \<Rightarrow> ('w, tool_error, 'a) sys" where
  "phc \<equiv> smap_err ToolPhc"

primrec read_events ::
    "bool \<Rightarrow> 'w tool_env \<Rightarrow> ptp_clock_hardware \<Rightarrow> nat \<Rightarrow> ('w, tool_error, unit) sys" where
  "read_events dbg T c 0 = sret ()"
| "read_events dbg T c (Suc count) =
     sbind (phc (read_external_timestamp_event dbg (tool_kernel T) c)) (\<lambda>event.
     sbind (say T (event_line event)) (\<lambda>_.
     read_events dbg T c count))"

primrec run_command ::
    "bool \<Rightarrow> 'w tool_env \<Rightarrow> ptp_clock_hardware \<Rightarrow> tool_command \<Rightarrow> ('w, tool_error, unit) sys" where
  "run_command dbg T c Caps =
     sbind (phc (hw_capabilities (tool_kernel T) c)) (\<lambda>caps.
     sbind (smapM (\<lambda>l. say T (codes l)) (caps_lines caps)) (\<lambda>_. sret ()))"
| "run_command dbg T c Pins =
     sbind (phc (hw_pins (tool_kernel T) c)) (\<lambda>pins.
     sbind (smapM (\<lambda>p. say T (pin_line p)) pins) (\<lambda>_. sret ()))"
| "run_command dbg T c (SetPin index function channel) =
     sbind (phc (set_pin_function (tool_kernel T) c index (cli_pin_function_into function) channel)) (\<lambda>_.
     say T (codes ''set pin function okay''))"
| "run_command dbg T c (Perout period_ns channel phase_ns) =
     (if period_ns = 0 then slift (Err ZeroPeriod)
      else sbind (phc (enable_periodic_output dbg (tool_kernel T) c channel (unat period_ns) (map_option unat phase_ns))) (\<lambda>_.
        say T (codes ''periodic output request okay'')))"
| "run_command dbg T c (StopPerout channel) =
     sbind (phc (disable_periodic_output (tool_kernel T) c channel)) (\<lambda>_.
     say T (codes ''periodic output disabled''))"
| "run_command dbg T c (Extts channel e count) =
     sbind (phc (enable_external_timestamping (tool_kernel T) c channel (cli_edge_into e))) (\<lambda>_.
     sbind (say T (codes ''external timestamp request okay'')) (\<lambda>_.
     sbind (read_events dbg T c count) (\<lambda>_.
     sbind (phc (disable_external_timestamping (tool_kernel T) c channel)) (\<lambda>_.
     say T (codes ''external timestamp disabled'')))))"
| "run_command dbg T c (StopExtts channel) =
     sbind (phc (disable_external_timestamping (tool_kernel T) c channel)) (\<lambda>_.
     say T (codes ''external timestamp disabled''))"
| "run_command dbg T c Time =
     sbind (phc (hardware_time dbg (tool_kernel T) c)) (\<lambda>t.
     say T (codes (''clock time: '' @ ptp_display t)))"

definition main_tool :: "bool \<Rightarrow> 'w tool_env \<Rightarrow> tool_args \<Rightarrow> ('w, tool_error, unit) sys" where
  "main_tool dbg T a =
     sbind (phc (hardware_open (tool_kernel T) (tool_device a))) (\<lambda>c. run_command dbg T c (tool_command a))"

section \<open>External timestamping\<close>

text \<open>What a request makes of the channels on which external timestamping is enabled.\<close>

definition requested :: "ptp_extts_request \<Rightarrow> u32 set \<Rightarrow> u32 set" where
  "requested q A =
     (if extts_flags q AND ENABLE_FEATURE \<noteq> 0 then insert (extts_index q) A else A - {extts_index q})"

lemma requested_disable: "requested \<lparr>extts_index = ch, extts_flags = 0, extts_rsv = [0, 0]\<rparr> A = A - {ch}"
  by (simp add: requested_def)

lemma requested_enable:
  "requested \<lparr>extts_index = ch, extts_flags = ENABLE_FEATURE OR edge_flags e, extts_rsv = [0, 0]\<rparr> A = insert ch A"
  by (cases e) (simp_all add: requested_def ENABLE_FEATURE_def edge_flags_def RISING_EDGE_def FALLING_EDGE_def)

text \<open>
  A device whose channels are enabled and disabled by the requests that succeed, of either version, and
  by nothing else.
\<close>

locale extts_device =
  fixes dbg :: bool and T :: "'w tool_env" and active :: "'w \<Rightarrow> u32 set"
  assumes open_keeps: "sys_open (tool_kernel T) path w = (fd, w') \<Longrightarrow> active w' = active w"
    and read_keeps: "sys_read_exact (tool_kernel T) d n w = (bs, w') \<Longrightarrow> active w' = active w"
    and print_keeps: "tool_println T l w = (ok, w') \<Longrightarrow> active w' = active w"
    and request_sets: "ptp_extts_request (tool_kernel T) d q w = (r, w') \<Longrightarrow>
      active w' = (if r = Ok () then requested q (active w) else active w)"
    and request2_sets: "ptp_extts_request2 (tool_kernel T) d q w = (r, w') \<Longrightarrow>
      active w' = (if r = Ok () then requested q (active w) else active w)"
begin

lemma extts_request_sets:
  assumes "extts_request (tool_kernel T) c q w = (r, w')"
  shows "active w' = (if r = Ok () then requested q (active w) else active w)"
proof -
  obtain r2 w2 where n: "ptp_extts_request2 (tool_kernel T) (hw_device c) q w = (r2, w2)" by (rule prod.exhaust)
  obtain r1 w1 where o: "ptp_extts_request (tool_kernel T) (hw_device c) q w2 = (r1, w1)" by (rule prod.exhaust)
  show ?thesis
    using assms n o request2_sets [OF n] request_sets [OF o]
    by (cases r2; cases r1) (auto simp: extts_request_def scatch_def sbind_def)
qed

lemma say_keeps: "say T l w = (r, w') \<Longrightarrow> active w' = active w"
  using print_keeps [OF surjective_pairing, of l w] by (auto simp: say_def split: prod.splits)

lemma read_events_keeps:
  "read_events dbg T c n w = (r, w') \<Longrightarrow>
   active w' = active w \<and> (\<forall>e. r = Err e \<longrightarrow> (\<exists>x. e = ToolPhc (ReadExternalTimestamp x)))"
proof (induction n arbitrary: w)
  case (Suc n)
  obtain bs w1 where rd: "sys_read_exact (tool_kernel T) (hw_device c) 32 w = (bs, w1)" by (rule prod.exhaust)
  note k = read_keeps [OF rd]
  obtain ev w2 where ev: "read_external_timestamp_event dbg (tool_kernel T) c w = (ev, w2)" by (rule prod.exhaust)
  from ev rd have w2: "w2 = w1" and er: "\<And>e. ev = Err e \<Longrightarrow> \<exists>x. e = ReadExternalTimestamp x"
    by (cases bs; auto simp: read_external_timestamp_event_def sbind_def Let_def from_abi_def debug_assert_def split: if_splits)+
  show ?case
  proof (cases ev)
    case (Ok e)
    obtain sr w3 where sa: "say T (event_line e) w2 = (sr, w3)" by (rule prod.exhaust)
    note k3 = say_keeps [OF sa]
    have "sr = Ok () \<or> sr = Panic" using sa by (auto simp: say_def split: prod.splits if_splits)
    with Suc.prems Ok ev sa k k3 w2 Suc.IH [of w3] show ?thesis by auto
  qed (use Suc.prems ev k w2 er in auto)
qed auto

lemma extts_run:
  assumes "run_command dbg T c (Extts ch e n) w = (r, w')"
  shows "case r of
      Ok _ \<Rightarrow> active w' = active w - {ch}
    | Err (ToolPhc (ReadExternalTimestamp x)) \<Rightarrow> active w' = insert ch (active w)
    | Err _ \<Rightarrow> active w' = active w \<or> active w' = insert ch (active w)
    | Panic \<Rightarrow> True"
proof -
  let ?K = "tool_kernel T"
  obtain r1 w1 where en: "enable_external_timestamping ?K c ch (cli_edge_into e) w = (r1, w1)" by (rule prod.exhaust)
  obtain r2 w2 where s1: "say T (codes ''external timestamp request okay'') w1 = (r2, w2)" by (rule prod.exhaust)
  obtain r3 w3 where ev: "read_events dbg T c n w2 = (r3, w3)" by (rule prod.exhaust)
  obtain r4 w4 where di: "disable_external_timestamping ?K c ch w3 = (r4, w4)" by (rule prod.exhaust)
  obtain r5 w5 where s2: "say T (codes ''external timestamp disabled'') w4 = (r5, w5)" by (rule prod.exhaust)
  note a1 = extts_request_sets [OF en [unfolded enable_external_timestamping_def], unfolded requested_enable]
  note a4 = extts_request_sets [OF di [unfolded disable_external_timestamping_def], unfolded requested_disable]
  have io: "\<exists>n. x = Ioctl ''PTP_EXTTS_REQUEST'' n" if "extts_request ?K c q v = (Err x, v')" for q v x v'
    using that by (cases "fst (ptp_extts_request ?K (hw_device c) q (snd (ptp_extts_request2 ?K (hw_device c) q v)))")
      (auto simp: extts_request_def scatch_def sbind_def split: prod.splits res.splits)
  have io1: "\<exists>n. x = Ioctl ''PTP_EXTTS_REQUEST'' n" if "r1 = Err x" for x
    using io [of _ w x w1] en that by (simp add: enable_external_timestamping_def)
  have io4: "\<exists>n. x = Ioctl ''PTP_EXTTS_REQUEST'' n" if "r4 = Err x" for x
    using io [of _ w3 x w4] di that by (simp add: disable_external_timestamping_def)
  have p: "r2 = Ok () \<or> r2 = Panic" "r5 = Ok () \<or> r5 = Panic"
    using s1 s2 by (auto simp: say_def split: prod.splits if_splits)
  note keeps = say_keeps [OF s1] say_keeps [OF s2] read_events_keeps [OF ev]
  show ?thesis
  proof (cases "r1 = Ok () \<and> r2 = Ok () \<and> r3 = Ok ()")
    case True
    then have "run_command dbg T c (Extts ch e n) w =
        sbind (phc (disable_external_timestamping ?K c ch)) (\<lambda>_. say T (codes ''external timestamp disabled'')) w3"
      using en s1 ev by (simp add: sbind_def)
    with assms True di s2 a1 a4 keeps p(2) io4 show ?thesis
      by (cases r4) (auto simp: sbind_def)
  next
    case False
    with assms en s1 ev a1 keeps p(1) io1 show ?thesis
      by (cases r1; cases r3) (auto simp: sbind_def)
  qed
qed

end

text \<open>A device with queued events, whose state is what the requests have enabled.\<close>

record tool_bench =
  tb_active :: "u32 set"
  tb_events :: "byte list list"
  tb_printed :: "nat list list"

definition tool_bench_env :: "tool_bench tool_env" where
  "tool_bench_env =
     \<lparr>tool_kernel = \<lparr>sys_open = (\<lambda>path w. (if path = ''/dev/ptp0'' then Ok 5 else Err NotFound, w)),
        sys_read_exact = (\<lambda>_ _ w. case tb_events w of
            [] \<Rightarrow> (Err UnexpectedEof, w) | e # es \<Rightarrow> (Ok e, w\<lparr>tb_events := es\<rparr>)),
        sys_clock_gettime = (\<lambda>_ w. (Ok (0, 0), w)),
        ptp_clock_getcaps = (\<lambda>_ caps w. (Ok caps, w)),
        ptp_pin_getfunc = (\<lambda>_ d w. (Ok d, w)), ptp_pin_setfunc = (\<lambda>_ _ w. (Ok (), w)),
        ptp_extts_request = (\<lambda>_ q w. (Ok (), w\<lparr>tb_active := requested q (tb_active w)\<rparr>)),
        ptp_extts_request2 = (\<lambda>_ q w. (Err 25, w)),
        ptp_perout_request = (\<lambda>_ _ w. (Ok (), w)), ptp_perout_request2 = (\<lambda>_ _ w. (Ok (), w))\<rparr>,
      tool_println = (\<lambda>l w. (True, w\<lparr>tb_printed := tb_printed w @ [l]\<rparr>))\<rparr>"

interpretation tool_device_bench: extts_device dbg tool_bench_env tb_active for dbg
  by unfold_locales (auto simp: tool_bench_env_def split: list.splits)



end
