(* ===== verification/Spec2Isabelle.thy ===== *)
theory Spec2Isabelle
  imports Prelude BitIO Subtype CommonHeader StreamHeader ControlHeader Avtpdu
    PtpTime AvtpTimestamp F64 Synchronizer WavData Wav Pcm Aaf AafStream
    RustStr PtpState Sys PhcAbi PhcClock PhcSync NetIface Instance InstanceLife Network Monitor Daemon DaemonLife
    Transport BinHeap Integration IntegrationLink IntegrationDrain IntegrationLife PtpTool
begin

text \<open>
  A model of an IEEE 1722 (AVTP) talker and listener with its PTP clock support: the Rust crate under
  \<^verbatim>\<open>src/\<close>. Bytes on the wire are decoded into AVTPDUs, whose stream headers carry AAF (PCM or AES3)
  audio; timestamps come from a PTP hardware clock, interpolated by a phase-locked loop; recorded
  audio is read from and written to WAV files.

  \<^bold>\<open>The theories and the code they model\<close>

  \<^item> \<^verbatim>\<open>Prelude\<close>: results (a value, an error or a panic), the integer ranges, durations, decimal printing.
  \<^item> \<^verbatim>\<open>BitIO\<close>: \<^verbatim>\<open>io/enc_dec.rs\<close>, \<^verbatim>\<open>io/utils.rs\<close>. The bit reader and writer come from another crate: they
    are records of operations, \<^verbatim>\<open>bit_read_ops\<close> and \<^verbatim>\<open>bit_write_ops\<close>, arguments of every definition that
    uses them. The locales \<^verbatim>\<open>bit_reader_laws\<close> and \<^verbatim>\<open>bit_writer_laws\<close> state their documented behaviour over
    big-endian bits and are interpreted on an in-memory reader and writer.
  \<^item> \<^verbatim>\<open>Subtype\<close>, \<^verbatim>\<open>CommonHeader\<close>, \<^verbatim>\<open>StreamHeader\<close>, \<^verbatim>\<open>ControlHeader\<close>, \<^verbatim>\<open>Avtpdu\<close>: \<^verbatim>\<open>avtp/subtype.rs\<close>,
    \<^verbatim>\<open>avtp/stream_id.rs\<close>, \<^verbatim>\<open>avtp/headers/\<close>, \<^verbatim>\<open>avtp/avtpdu.rs\<close>. Each type has its encoder and decoder, the
    bits it is encoded as, and an instance of the locale \<^verbatim>\<open>bit_codec\<close> (the decoder accepts exactly the
    bits of a well-formed value, and is determined by them).
  \<^item> \<^verbatim>\<open>PtpTime\<close>, \<^verbatim>\<open>AvtpTimestamp\<close>: \<^verbatim>\<open>ptp_phc/time.rs\<close>, \<^verbatim>\<open>avtp/timestamp.rs\<close>.
  \<^item> \<^verbatim>\<open>F64\<close>: rounding of rationals to binary64, the arithmetic of the phase-locked loop.
  \<^item> \<^verbatim>\<open>Synchronizer\<close>: \<^verbatim>\<open>avtp/synchronizer.rs\<close>. The clock's state is a record, every operation returns its
    result with the new state, and the PTP clock is a reading passed to each call. The locale
    \<^verbatim>\<open>strict_source\<close> (each output is above a bound the state keeps) is interpreted for the durations
    and for the absolute times.
  \<^item> \<^verbatim>\<open>WavData\<close>, \<^verbatim>\<open>Wav\<close>: \<^verbatim>\<open>audio/wav.rs\<close>. Readers are byte lists, writers byte lists with an optional
    capacity; the two parsing loops are functions that terminate because each chunk consumes bytes.
  \<^item> \<^verbatim>\<open>Pcm\<close>, \<^verbatim>\<open>Aaf\<close>: \<^verbatim>\<open>avtp/formats/aaf/pcm.rs\<close>, \<^verbatim>\<open>aes3.rs\<close>, \<^verbatim>\<open>common.rs\<close>.
  \<^item> \<^verbatim>\<open>AafStream\<close>: \<^verbatim>\<open>avtp/stream.rs\<close>, \<^verbatim>\<open>avtp/formats/aaf/stream.rs\<close>: the talker and the listener.
  \<^item> \<^verbatim>\<open>RustStr\<close>, \<^verbatim>\<open>PtpState\<close>: the standard library's string functions, and \<^verbatim>\<open>ptp_proto/state.rs\<close>, the parser of
    linuxptp's \<^verbatim>\<open>pmc\<close> output.
  \<^item> \<^verbatim>\<open>Sys\<close>: computations that call the operating system, as functions of the state of the machine, and the
    rules for a property of the state that they keep.
  \<^item> \<^verbatim>\<open>PhcAbi\<close>, \<^verbatim>\<open>PhcClock\<close>, \<^verbatim>\<open>PhcSync\<close>: \<^verbatim>\<open>ptp_phc/abi.rs\<close>, \<^verbatim>\<open>pin.rs\<close>, \<^verbatim>\<open>error.rs\<close>, \<^verbatim>\<open>clock.rs\<close>, \<^verbatim>\<open>device.rs\<close>. The
    kernel is a record of the system calls the code makes; the locale \<^verbatim>\<open>posix_kernel\<close> states that
    \<^verbatim>\<open>clock_gettime\<close> gives normalised times, which makes a device a \<^verbatim>\<open>ptp_time_source\<close> the synchronised
    clock can run on; it is interpreted on a kernel that counts.
  \<^item> \<^verbatim>\<open>Instance\<close>, \<^verbatim>\<open>InstanceLife\<close>: \<^verbatim>\<open>ptp_proto/instance.rs\<close>, the \<^verbatim>\<open>ptp4l\<close> process of a PTP instance, over a
    record of process and file operations. The locale \<^verbatim>\<open>process_table\<close> states what starting, killing and
    waiting do to the children of the program; it is interpreted on a table of processes. Over any use of
    an instance its children are the one its handle names; which uses leave one behind.
  \<^item> \<^verbatim>\<open>NetIface\<close>, \<^verbatim>\<open>Network\<close>: \<^verbatim>\<open>bin_utils/network.rs\<close>, \<^verbatim>\<open>csv.rs\<close>: interfaces validated with their clock.
  \<^item> \<^verbatim>\<open>Monitor\<close>, \<^verbatim>\<open>Daemon\<close>, \<^verbatim>\<open>DaemonLife\<close>: \<^verbatim>\<open>bin/ptp-syncd.rs\<close>: the monitor's state and its log, the two
    loops, start and shutdown. The loops may run for ever and are partial functions; they return exactly
    when they should, and a daemon that returns leaves no process behind.
  \<^item> \<^verbatim>\<open>Transport\<close>: \<^verbatim>\<open>avtp/transport/ethernet.rs\<close>: frames sent and received over a record of raw sockets.
  \<^item> \<^verbatim>\<open>BinHeap\<close>: the standard library's binary heap, which implements the locale \<^verbatim>\<open>priority_queue\<close>.
  \<^item> \<^verbatim>\<open>Integration\<close>, \<^verbatim>\<open>IntegrationLink\<close>, \<^verbatim>\<open>IntegrationDrain\<close>, \<^verbatim>\<open>IntegrationLife\<close>:
    \<^verbatim>\<open>bin/avtp-integration-test.rs\<close>. Each of the three threads is a function of the machine; what the other
    threads do shows in what its calls return, so that no interleaving is fixed. The locales
    \<^verbatim>\<open>talker_link\<close>, \<^verbatim>\<open>receiver_link\<close> and \<^verbatim>\<open>drain_link\<close> state what a thread relies on, by the frames put on
    the link, the frames that come in, and the events handed over and received; \<^verbatim>\<open>drain_clock\<close> adds that
    time passes. They are interpreted on one machine. The threads compose to the test's own verdict.
  \<^item> \<^verbatim>\<open>PtpTool\<close>: \<^verbatim>\<open>bin/ptp-tool.rs\<close>: the commands, what they request of the device and what they print.

  \<^bold>\<open>Conventions\<close>

  A function that may panic returns the type \<^verbatim>\<open>res\<close> with a value \<^verbatim>\<open>Panic\<close>; an argument \<^verbatim>\<open>dbg\<close> says whether
  debug assertions and overflow checks are compiled in. Fixed-width integers that wrap are words;
  \<^verbatim>\<open>i64\<close> and \<^verbatim>\<open>i128\<close> values are integers with their range checks written out. Floating-point values are
  the rationals they denote, with every operation followed by its rounding; the values that occur
  are finite, and subnormal results are not distinguished. Local times (\<^verbatim>\<open>Instant\<close>) and durations are
  natural numbers of nanoseconds. A loop that may not end is a partial function with values in
  \<^verbatim>\<open>option\<close>, so that not returning is a value; no definition is bounded by fuel.

  \<^bold>\<open>Not modelled\<close>

  Command line parsing and the installation of handlers and of the trace subscriber, which other crates
  do; trace and progress messages, apart from the monitor's log and the configuration of the
  integration test; the derived equality, hashing and debug printing; the binaries \<^verbatim>\<open>avtp-talker\<close> and
  \<^verbatim>\<open>avtp-listener\<close>, which are empty, and module declarations.
\<close>

end
